(* ===== verification/KWS_Prelude.thy ===== *)
theory KWS_Prelude
  imports Main "HOL-Library.Word"
begin

text \<open>
  Shared vocabulary of the TsetlinKWS host-software model: the machine integer
  types of the C sources (\<open>u8\<close>, \<open>u32\<close>), the result type of operations that can
  leave the defined behaviour of C (an array index out of range), the fact
  collections the component theories fill, and the generic lemmas on lists and
  words that the component proofs share.
\<close>

unbundle bit_operations_syntax

section \<open>Machine integers and results\<close>

type_synonym u8 = "8 word"
type_synonym u32 = "32 word"

text \<open>
  An operation that indexes a C array returns \<open>Inl\<close> of a fault when the index is
  outside the array, and \<open>Inr\<close> of its result otherwise. \<open>seq_result\<close> runs the
  next operation on a result and stops at the first fault.
\<close>

definition seq_result :: "'e + 'a \<Rightarrow> ('a \<Rightarrow> 'e + 'b) \<Rightarrow> 'e + 'b" where
  "seq_result r f = (case r of Inl e \<Rightarrow> Inl e | Inr a \<Rightarrow> f a)"

definition is_ok :: "'e + 'a \<Rightarrow> bool" where
  "is_ok r = (case r of Inl _ \<Rightarrow> False | Inr _ \<Rightarrow> True)"

section \<open>Fact collections\<close>

named_theorems kws_consts "numeric values of the constants of the C sources"
named_theorems kws_ops "defining equations of the modelled operations"
named_theorems kws_inv "invariant preservation facts"

section \<open>Results\<close>

lemma seq_result_Inr [simp]: "seq_result (Inr a) f = f a"
  by (simp add: seq_result_def)

lemma seq_result_Inl [simp]: "seq_result (Inl e) f = Inl e"
  by (simp add: seq_result_def)

lemma seq_result_eq_Inr:
  "seq_result r f = Inr b \<longleftrightarrow> (\<exists>a. r = Inr a \<and> f a = Inr b)"
  by (cases r) simp_all

lemma seq_result_eq_Inl:
  "seq_result r f = Inl e \<longleftrightarrow> r = Inl e \<or> (\<exists>a. r = Inr a \<and> f a = Inl e)"
  by (cases r) simp_all

lemma is_ok_simps [simp]: "is_ok (Inr a)" "\<not> is_ok (Inl e)"
  by (simp_all add: is_ok_def)

lemma is_ok_iff: "is_ok r \<longleftrightarrow> (\<exists>a. r = Inr a)"
  by (cases r) simp_all

section \<open>Lists: occupancy counts under a write to one slot\<close>

lemma count_list_update:
  "i < length xs \<Longrightarrow>
     count_list (xs[i := v]) c + (if xs ! i = c then 1 else 0) =
     count_list xs c + (if v = c then 1 else 0)"
proof (induction xs arbitrary: i)
  case Nil
  then show ?case by simp
next
  case (Cons x xs)
  show ?case
  proof (cases i)
    case 0
    then show ?thesis by simp
  next
    case (Suc j)
    with Cons.prems have "j < length xs" by simp
    from Cons.IH [OF this] Suc show ?thesis by (auto split: if_splits)
  qed
qed

lemma count_list_pos_nth: "i < length xs \<Longrightarrow> 0 < count_list xs (xs ! i)"
  by (metis count_list_0_iff neq0_conv nth_mem)

lemma count_list_le_length: "count_list xs c \<le> length xs"
  by (induction xs) auto

lemma count_list_replicate [simp]:
  "count_list (replicate n x) c = (if x = c then n else 0)"
  by (induction n) auto

lemma sum_count_list_range:
  "\<forall>x \<in> set xs. f x < (n::nat) \<Longrightarrow> (\<Sum>c<n. count_list (map f xs) c) = length xs"
proof (induction xs)
  case Nil
  then show ?case by simp
next
  case (Cons x xs)
  then have "f x < n" by simp
  then have one: "(\<Sum>c<n. if f x = c then 1 else 0) = (1::nat)"
    by (subst sum.delta') simp_all
  have "(\<Sum>c<n. count_list (map f (x # xs)) c) =
      (\<Sum>c<n. count_list (map f xs) c + (if f x = c then 1 else 0))"
    by (intro sum.cong) auto
  also have "\<dots> = (\<Sum>c<n. count_list (map f xs) c) + 1"
    by (simp only: sum.distrib one)
  finally show ?case using Cons by simp
qed

lemma replicate_update_full:
  "list_all (\<lambda>x. x = v) xs \<Longrightarrow> xs = replicate (length xs) v"
  by (induction xs) auto

lemma take_append_drop_update:
  assumes "k + length xs < length buf"
  shows "(take k buf @ xs @ drop (k + length xs) buf)[k + length xs := x] =
         take k buf @ (xs @ [x]) @ drop (k + length (xs @ [x])) buf"
proof -
  from assms have "drop (k + length xs) buf = buf ! (k + length xs) # drop (Suc (k + length xs)) buf"
    by (simp add: Cons_nth_drop_Suc)
  with assms show ?thesis
    by (simp add: list_update_append)
qed

text \<open>A loop that stores a block element by element writes the block in place.\<close>

lemma fold_update_block:
  assumes "k + length xs \<le> length buf"
  shows "fold (\<lambda>i b. b[k + i := xs ! i]) [0..<length xs] buf =
         take k buf @ xs @ drop (k + length xs) buf"
  using assms
proof (induction xs rule: rev_induct)
  case Nil
  show ?case by simp
next
  case (snoc x xs)
  have "fold (\<lambda>i b. b[k + i := (xs @ [x]) ! i]) [0..<length xs] buf =
        fold (\<lambda>i b. b[k + i := xs ! i]) [0..<length xs] buf"
    by (intro fold_cong) (auto simp: nth_append)
  with snoc show ?case
    using take_append_drop_update [of k xs buf x] by simp
qed

section \<open>Words: small values\<close>

lemma unat_u8_lt_256 [simp]: "unat (w :: u8) < 256"
  using unsigned_less [of w, where ?'a = nat] by simp

lemma unat_of_nat_u8: "n < 256 \<Longrightarrow> unat (of_nat n :: u8) = n"
  by (simp add: unat_of_nat)

lemma u8_eq_iff_unat: "(a :: u8) = b \<longleftrightarrow> unat a = unat b"
  by (simp add: word_unat_eq_iff)

lemma u8_less_iff_unat: "(a :: u8) < b \<longleftrightarrow> unat a < unat b"
  by (simp add: word_less_nat_alt)

lemma unat_u8_succ: "unat (w :: u8) < 255 \<Longrightarrow> unat (w + 1) = Suc (unat w)"
  by (simp add: unat_word_ariths)

lemma unat_u8_pred: "0 < unat (w :: u8) \<Longrightarrow> unat (w - 1) = unat w - 1"
  by (metis unat_eq_zero unat_minus_one zero_less_iff_neq_zero)

end
