(* ===== verification/Wire_Format.thy ===== *)
theory Wire_Format
  imports KWS_Prelude
begin

text \<open>
  The wire format shared by the storage readers (src/src_sw/tf_card.c) and the
  loader (src/src_sw/spi_config.c): a 32-bit value leaves the host as four
  bytes, most significant first, and a string of \<open>0\<close>/\<open>1\<close> characters is read
  most significant bit first. \<open>be_bytes\<close> is the byte loop of the three
  functions, \<open>msb_first\<close> the bit loop of \<open>sd_read_binary\<close>,
  \<open>binary_str_to_uint32\<close> the function of that name. \<open>be_word\<close> and \<open>bin_value\<close>
  are the decoder's reading of bytes and of bit strings; the lemmas show that
  the loops compute them and that encoding loses nothing.
\<close>

section \<open>Definitions\<close>

datatype mem_fault = StringIndex nat | BufferIndex nat

definition is_bit :: "char \<Rightarrow> bool" where
  "is_bit c \<longleftrightarrow> c = CHR ''0'' \<or> c = CHR ''1''"

text \<open>
  \<open>(value >> (24 - i * 8)) & 0xFF\<close> for \<open>i = 0, 1, 2, 3\<close>, each stored in a
  byte.
\<close>

definition be_bytes :: "u32 \<Rightarrow> u8 list" where
  "be_bytes v = map (\<lambda>i. ucast (drop_bit (24 - i * 8) v AND 0xFF)) [0..<4]"

text \<open>
  \<open>value |= 1U << (bit_len - 1 - i)\<close> for every \<open>i < bit_len\<close> with
  \<open>line_buf[i] == '1'\<close>. The caller has checked the first \<open>bit_len\<close> characters,
  so every index is inside the line.
\<close>

definition msb_first :: "nat \<Rightarrow> string \<Rightarrow> u32" where
  "msb_first bit_len line =
     fold (\<lambda>i v. if line ! i = CHR ''1'' then v OR push_bit (bit_len - 1 - i) 1 else v)
          [0..<bit_len] 0"

text \<open>
  \<open>binary_str_to_uint32\<close> reads \<open>str[0..31]\<close> whatever the length of the
  string. A C string of length \<open>n\<close> has its terminator at index \<open>n\<close>, which may
  be read and is not \<open>'1'\<close>; an index beyond it is outside the object. The
  shift \<open>1 << 31\<close> is taken at 32 bits.
\<close>

definition binary_str_to_uint32 :: "string \<Rightarrow> mem_fault + u32" where
  "binary_str_to_uint32 str =
     (if Suc (length str) < 32 then Inl (StringIndex (Suc (length str)))
      else Inr (fold (\<lambda>i r. if i < length str \<and> str ! i = CHR ''1''
                              then r OR push_bit (31 - i) 1 else r)
                     [0..<32] 0))"

section \<open>The decoder's reading\<close>

definition be_word :: "u8 list \<Rightarrow> u32" where
  "be_word bs = foldl (\<lambda>a b. push_bit 8 a OR ucast b) 0 bs"

definition bin_value :: "string \<Rightarrow> nat" where
  "bin_value cs = foldl (\<lambda>a c. 2 * a + (if c = CHR ''1'' then 1 else 0)) 0 cs"

definition be_words :: "u8 list \<Rightarrow> u32 list" where
  "be_words bs = map (\<lambda>k. be_word (take 4 (drop (4 * k) bs))) [0..<length bs div 4]"

lemmas wire_defs [kws_ops] = be_bytes_def msb_first_def binary_str_to_uint32_def

section \<open>Bytes\<close>

lemma length_be_bytes [simp]: "length (be_bytes v) = 4"
  by (simp add: be_bytes_def)

lemma ucast_and_FF [simp]: "(ucast (w AND 0xFF) :: u8) = ucast (w :: u32)"
proof -
  have "(0xFF :: u32) = mask 8" by (simp add: mask_eq_exp_minus_1)
  then show ?thesis
    by (simp add: bit_eq_iff bit_simps)
qed

lemma bit_byte_of:
  "bit (ucast (drop_bit k (v :: u32)) :: u8) n \<longleftrightarrow> n < 8 \<and> bit v (k + n)"
  by (simp add: bit_simps)

lemma bit_push_byte:
  "bit (push_bit k (ucast (b :: u8)) :: u32) n \<longleftrightarrow> k \<le> n \<and> n < 32 \<and> n - k < 8 \<and> bit b (n - k)"
  using bit_imp_le_length [of b "n - k"] by (auto simp: bit_simps)

lemma be_bytes_unfold:
  "be_bytes v = [ucast (drop_bit 24 v), ucast (drop_bit 16 v), ucast (drop_bit 8 v), ucast v]"
proof -
  have "[0..<4] = [0, 1, 2, 3 :: nat]" by (simp add: upt_rec)
  then show ?thesis by (simp add: be_bytes_def)
qed

lemma be_word_4:
  "be_word [a, b, c, d] =
     push_bit 24 (ucast a) OR push_bit 16 (ucast b) OR push_bit 8 (ucast c) OR push_bit 0 (ucast d)"
  by (simp add: be_word_def push_bit_or ac_simps)

lemma bit_be_word_4:
  "bit (be_word [a, b, c, d]) n \<longleftrightarrow>
     (if n < 8 then bit d n else if n < 16 then bit c (n - 8)
      else if n < 24 then bit b (n - 16) else n < 32 \<and> bit a (n - 24))"
  unfolding be_word_4 bit_or_iff bit_push_byte by auto

lemma be_word_be_bytes [simp]: "be_word (be_bytes v) = v"
proof (rule bit_eqI)
  fix n
  have "bit (ucast v :: u8) n \<longleftrightarrow> n < 8 \<and> bit v n"
    using bit_byte_of [of 0 v n] by simp
  then show "bit (be_word (be_bytes v)) n \<longleftrightarrow> bit v n"
    unfolding be_bytes_unfold bit_be_word_4 bit_byte_of
    by (auto dest: bit_imp_le_length)
qed

lemma be_bytes_inj: "be_bytes v = be_bytes w \<longleftrightarrow> v = w"
  by (metis be_word_be_bytes)

lemma be_bytes_be_word:
  assumes "length bs = 4"
  shows "be_bytes (be_word bs) = bs"
proof -
  from assms obtain a b c d where bs: "bs = [a, b, c, d]"
    by (auto simp: length_Suc_conv numeral_eq_Suc)
  have "ucast (drop_bit 24 (be_word bs)) = a"
    unfolding bs by (rule bit_eqI) (simp add: bit_byte_of bit_be_word_4)
  moreover have "ucast (drop_bit 16 (be_word bs)) = b"
    unfolding bs by (rule bit_eqI) (simp add: bit_byte_of bit_be_word_4)
  moreover have "ucast (drop_bit 8 (be_word bs)) = c"
    unfolding bs by (rule bit_eqI) (simp add: bit_byte_of bit_be_word_4)
  moreover have "ucast (be_word bs) = d"
    unfolding bs using bit_byte_of [of 0 "be_word [a, b, c, d]"]
    by (intro bit_eqI) (simp add: bit_be_word_4)
  ultimately show ?thesis
    by (simp add: be_bytes_unfold bs)
qed

section \<open>Bit strings\<close>

lemma bin_value_Nil [simp]: "bin_value [] = 0"
  by (simp add: bin_value_def)

lemma bin_value_snoc [simp]:
  "bin_value (cs @ [c]) = 2 * bin_value cs + (if c = CHR ''1'' then 1 else 0)"
  by (simp add: bin_value_def)

lemma bin_value_less: "bin_value cs < 2 ^ length cs"
  by (induction cs rule: rev_induct) auto

lemma bin_value_inj:
  assumes "length xs = length ys" and "list_all is_bit xs" and "list_all is_bit ys"
    and "bin_value xs = bin_value ys"
  shows "xs = ys"
  using assms
proof (induction xs ys rule: rev_induct2)
  case (4 x xs y ys)
  from "4.prems" have "x = y \<and> bin_value xs = bin_value ys"
    by (auto simp: is_bit_def split: if_splits) presburger+
  with 4 show ?case by simp
qed simp_all

lemma of_nat_double_word: "(of_nat (2 * v) :: u32) = push_bit 1 (of_nat v)"
  by (simp add: push_bit_eq_mult)

lemma of_nat_double_succ_word: "(of_nat (2 * v + 1) :: u32) = push_bit 1 (of_nat v) OR 1"
  by (simp add: or_one_eq push_bit_eq_mult)

lemma push_bit_snoc_word:
  assumes "m < n"
  shows "push_bit (n - Suc m) (of_nat (2 * v + (if b then 1 else 0)) :: u32) =
         (if b then push_bit (n - m) (of_nat v) OR push_bit (n - 1 - m) 1
          else push_bit (n - m) (of_nat v))"
proof -
  from assms have k: "n - Suc m + 1 = n - m" "n - 1 - m = n - Suc m" by simp_all
  show ?thesis
  proof (cases b)
    case True
    then have "push_bit (n - Suc m) (of_nat (2 * v + (if b then 1 else 0)) :: u32) =
        push_bit (n - Suc m) (push_bit 1 (of_nat v) OR 1)"
      by (simp only: of_nat_double_succ_word if_True)
    also have "\<dots> = push_bit (n - m) (of_nat v) OR push_bit (n - 1 - m) 1"
      by (simp only: push_bit_or push_bit_push_bit k)
    finally show ?thesis using True by simp
  next
    case False
    then have "push_bit (n - Suc m) (of_nat (2 * v + (if b then 1 else 0)) :: u32) =
        push_bit (n - Suc m) (push_bit 1 (of_nat v))"
      by (simp only: of_nat_double_word if_False add_0_right)
    also have "\<dots> = push_bit (n - m) (of_nat v)"
      by (simp only: push_bit_push_bit k)
    finally show ?thesis using False by simp
  qed
qed

lemma bit_loop_prefix:
  assumes "m \<le> n" and "m \<le> length str"
  shows "fold (\<lambda>i v. if str ! i = CHR ''1'' then v OR push_bit (n - 1 - i) 1 else v)
              [0..<m] (0 :: u32) =
         push_bit (n - m) (of_nat (bin_value (take m str)))"
  using assms
proof (induction m)
  case 0
  then show ?case by simp
next
  case (Suc m)
  then have "take (Suc m) str = take m str @ [str ! m]" and "m < n"
    by (simp_all add: take_Suc_conv_app_nth)
  with Suc show ?case
    using push_bit_snoc_word [of m n "bin_value (take m str)" "str ! m = CHR ''1''"]
    by simp
qed

lemma msb_first_bin_value:
  "bit_len \<le> length line \<Longrightarrow> msb_first bit_len line = of_nat (bin_value (take bit_len line))"
  using bit_loop_prefix [of bit_len bit_len line] by (simp add: msb_first_def)

lemma binary_str_to_uint32_bin_value:
  assumes "32 \<le> length str"
  shows "binary_str_to_uint32 str = Inr (of_nat (bin_value (take 32 str)))"
proof -
  have "fold (\<lambda>i r. if i < length str \<and> str ! i = CHR ''1''
                      then r OR push_bit (31 - i) 1 else r) [0..<32] (0 :: u32) =
        fold (\<lambda>i v. if str ! i = CHR ''1'' then v OR push_bit (32 - 1 - i) 1 else v)
             [0..<32] 0"
    using assms by (intro fold_cong) auto
  with assms bit_loop_prefix [of 32 32 str] show ?thesis
    by (simp add: binary_str_to_uint32_def)
qed

lemma binary_str_to_uint32_short:
  "Suc (length str) < 32 \<Longrightarrow> binary_str_to_uint32 str = Inl (StringIndex (Suc (length str)))"
  by (simp add: binary_str_to_uint32_def)

lemma unat_of_nat_bin_value:
  "length cs \<le> 32 \<Longrightarrow> unat (of_nat (bin_value cs) :: u32) = bin_value cs"
proof -
  assume "length cs \<le> 32"
  then have "(2 :: nat) ^ length cs \<le> 2 ^ 32"
    by (intro power_increasing) simp_all
  with bin_value_less [of cs] show ?thesis
    by (simp add: unat_of_nat)
qed

section \<open>Buffers of words\<close>

lemma be_words_Nil [simp]: "be_words [] = []"
  by (simp add: be_words_def)

lemma be_words_be_bytes_append [simp]: "be_words (be_bytes v @ bs) = v # be_words bs"
proof -
  have d: "length (be_bytes v @ bs) div 4 = Suc (length bs div 4)" by simp
  have u: "[0..<Suc (length bs div 4)] = 0 # map Suc [0..<length bs div 4]"
    by (simp add: upt_conv_Cons map_Suc_upt del: upt_Suc)
  have dr: "drop (4 * Suc k) (be_bytes v @ bs) = drop (4 * k) bs" for k by simp
  have "be_words (be_bytes v @ bs) =
        be_word (take 4 (drop (4 * 0) (be_bytes v @ bs))) #
        map (\<lambda>k. be_word (take 4 (drop (4 * Suc k) (be_bytes v @ bs)))) [0..<length bs div 4]"
    unfolding be_words_def d u by (simp only: list.map map_map comp_def)
  then show ?thesis
    by (simp only: dr) (simp add: be_words_def)
qed

lemma be_words_concat [simp]: "be_words (concat (map be_bytes ws)) = ws"
  by (induction ws) simp_all

lemma be_words_zero [simp]: "be_words (replicate (n * 4) 0) = replicate n 0"
proof -
  have z: "be_word (replicate 4 0) = 0"
    by (simp add: be_word_def numeral_eq_Suc)
  have "map (\<lambda>k. be_word (take 4 (drop (4 * k) (replicate (n * 4) (0 :: u8))))) [0..<n] =
        map (\<lambda>k. 0) [0..<n]"
  proof (rule map_cong [OF refl])
    fix k assume "k \<in> set [0..<n]"
    then have "4 \<le> n * 4 - 4 * k" by auto
    then show "be_word (take 4 (drop (4 * k) (replicate (n * 4) (0 :: u8)))) = 0"
      using z by (simp add: min_absorb1)
  qed
  then show ?thesis
    by (simp add: be_words_def map_replicate_const)
qed

end
