(* ===== verification/TF_Card.thy ===== *)
theory TF_Card
  imports Wire_Format
begin

text \<open>
  The storage readers of src/src_sw/tf_card.c. The card is a record: whether
  the volume mounts, whether formatting works, and the files by name. The
  FatFs calls (\<open>f_mount\<close>, \<open>f_mkfs\<close>, \<open>f_open\<close>, \<open>f_gets\<close>) and \<open>strtoul\<close> are
  library code, modelled from their documented behaviour; \<open>platform_init_fs\<close>,
  \<open>sd_mount\<close>, \<open>sd_read_binary\<close> and \<open>sd_read_hex\<close> are translated from the
  source. A reader returns its status and the destination buffer; a write
  outside the buffer is the value \<open>Inl (BufferIndex i)\<close>. Console output of
  the readers is left out. \<open>chunks\<close>, \<open>accepted\<close> and \<open>put_words\<close> state what a
  reader promises: the words of the accepted lines, in file order, at the
  front of the buffer.
\<close>

section \<open>The library calls\<close>

record card =
  fat_volume :: bool
  mkfs_works :: bool
  mounts_after_format :: bool
  files :: "string \<rightharpoonup> string"

definition XST_SUCCESS :: int where "XST_SUCCESS = 0"
definition XST_FAILURE :: int where "XST_FAILURE = 1"

definition f_mount :: "card \<Rightarrow> bool" where
  "f_mount c = fat_volume c"

definition f_mkfs :: "card \<Rightarrow> card option" where
  "f_mkfs c =
     (if mkfs_works c then Some (c\<lparr>fat_volume := mounts_after_format c, files := Map.empty\<rparr>)
      else None)"

definition f_open :: "card \<Rightarrow> string \<Rightarrow> string option" where
  "f_open c file_name = files c file_name"

fun f_gets_line :: "nat \<Rightarrow> string \<Rightarrow> string \<times> string" where
  "f_gets_line 0 cs = ([], cs)"
| "f_gets_line (Suc n) [] = ([], [])"
| "f_gets_line (Suc n) (c # cs) =
     (if c = CHR 0x0A then ([c], cs)
      else let (l, r) = f_gets_line n cs in (c # l, r))"

definition f_gets :: "nat \<Rightarrow> string \<Rightarrow> (string \<times> string) option" where
  "f_gets len cs = (if cs = [] \<or> len < 2 then None else Some (f_gets_line (len - 1) cs))"

definition is_space :: "char \<Rightarrow> bool" where
  "is_space c \<longleftrightarrow> c \<in> set [CHR '' '', CHR 0x09, CHR 0x0A, CHR 0x0B, CHR 0x0C, CHR 0x0D]"

definition hex_digit :: "char \<Rightarrow> nat option" where
  "hex_digit c =
     (let n = of_char c :: nat in
      if 48 \<le> n \<and> n \<le> 57 then Some (n - 48)
      else if 97 \<le> n \<and> n \<le> 102 then Some (n - 87)
      else if 65 \<le> n \<and> n \<le> 70 then Some (n - 55)
      else None)"

fun hex_acc :: "nat \<Rightarrow> string \<Rightarrow> nat" where
  "hex_acc a [] = a"
| "hex_acc a (c # cs) = (case hex_digit c of None \<Rightarrow> a | Some d \<Rightarrow> hex_acc (16 * a + d) cs)"

definition strtoul16 :: "string \<Rightarrow> u32" where
  "strtoul16 s =
     (let s1 = dropWhile is_space s;
          neg = (s1 \<noteq> [] \<and> hd s1 = CHR ''-'');
          s2 = (if s1 \<noteq> [] \<and> (hd s1 = CHR ''-'' \<or> hd s1 = CHR ''+'') then tl s1 else s1);
          s3 = (case s2 of
                  a # b # d # cs \<Rightarrow>
                    if a = CHR ''0'' \<and> (b = CHR ''x'' \<or> b = CHR ''X'') \<and> hex_digit d \<noteq> None
                    then d # cs else s2
                | _ \<Rightarrow> s2);
          n = hex_acc 0 s3
      in if 2 ^ 32 \<le> n then - 1 else if neg then - of_nat n else of_nat n)"

lemma f_gets_line_append: "f_gets_line n cs = (l, r) \<Longrightarrow> l @ r = cs"
  by (induction n cs arbitrary: l r rule: f_gets_line.induct)
     (auto split: if_splits prod.splits)

lemma f_gets_line_nonempty: "0 < n \<Longrightarrow> cs \<noteq> [] \<Longrightarrow> fst (f_gets_line n cs) \<noteq> []"
  by (cases n; cases cs) (auto split: prod.splits)

lemma f_gets_Some:
  assumes "f_gets len cs = Some (l, r)"
  shows "l @ r = cs" and "l \<noteq> []" and "length r < length cs"
proof -
  from assms have g: "f_gets_line (len - 1) cs = (l, r)" and ne: "cs \<noteq> []" "0 < len - 1"
    by (auto simp: f_gets_def split: if_splits)
  from f_gets_line_append [OF g] show app: "l @ r = cs" .
  from f_gets_line_nonempty [OF ne(2,1)] g show "l \<noteq> []" by simp
  with app show "length r < length cs" by (cases l) auto
qed

lemma f_gets_Nil [simp]: "f_gets len [] = None"
  by (simp add: f_gets_def)

section \<open>Mounting\<close>

definition platform_init_fs :: "card \<Rightarrow> int \<times> card" where
  "platform_init_fs c =
     (if f_mount c then (0, c)
      else case f_mkfs c of
             None \<Rightarrow> (- 1, c)
           | Some c' \<Rightarrow> if f_mount c' then (0, c') else (- 1, c'))"

definition sd_mount :: "card \<Rightarrow> int \<times> card" where
  "sd_mount c =
     (let (status, c') = platform_init_fs c
      in if status \<noteq> 0 then (XST_FAILURE, c') else (XST_SUCCESS, c'))"

section \<open>The readers\<close>

definition valid_line :: "nat \<Rightarrow> string \<Rightarrow> bool" where
  "valid_line bit_len line_buf \<longleftrightarrow>
     list_all (\<lambda>i. i < length line_buf \<and> is_bit (line_buf ! i)) [0..<bit_len]"

definition store_word :: "u8 list \<Rightarrow> nat \<Rightarrow> u32 \<Rightarrow> mem_fault + u8 list" where
  "store_word dest_buf line_count v =
     (if length dest_buf < line_count * 4 + 4
      then Inl (BufferIndex (max (length dest_buf) (line_count * 4)))
      else Inr (fold (\<lambda>i b. b[line_count * 4 + i := be_bytes v ! i]) [0..<4] dest_buf))"

function read_binary_loop ::
  "nat \<Rightarrow> nat \<Rightarrow> string \<Rightarrow> u8 list \<Rightarrow> nat \<Rightarrow> mem_fault + u8 list" where
  "read_binary_loop bit_len max_lines rest dest_buf line_count =
     (case f_gets 128 rest of
        None \<Rightarrow> Inr dest_buf
      | Some (line_buf, rest') \<Rightarrow>
          if \<not> line_count < max_lines then Inr dest_buf
          else if \<not> valid_line bit_len line_buf
          then read_binary_loop bit_len max_lines rest' dest_buf line_count
          else (case store_word dest_buf line_count (msb_first bit_len line_buf) of
                  Inl e \<Rightarrow> Inl e
                | Inr buf' \<Rightarrow> read_binary_loop bit_len max_lines rest' buf' (line_count + 1)))"
  by pat_completeness auto
termination
  by (relation "measure (\<lambda>(bit_len, max_lines, rest, dest_buf, line_count). length rest)")
     (auto dest: f_gets_Some(3))

definition sd_read_binary ::
  "card \<Rightarrow> string \<Rightarrow> u8 list \<Rightarrow> nat \<Rightarrow> nat \<Rightarrow> mem_fault + int \<times> u8 list" where
  "sd_read_binary c file_name dest_buf bit_len max_lines =
     (case f_open c file_name of
        None \<Rightarrow> Inr (- 1, dest_buf)
      | Some content \<Rightarrow>
          seq_result (read_binary_loop bit_len max_lines content dest_buf 0)
            (\<lambda>buf. Inr (0, buf)))"

function read_hex_loop :: "nat \<Rightarrow> string \<Rightarrow> u8 list \<Rightarrow> nat \<Rightarrow> mem_fault + u8 list" where
  "read_hex_loop max_lines rest dest_buf line_count =
     (case f_gets 32 rest of
        None \<Rightarrow> Inr dest_buf
      | Some (line_buf, rest') \<Rightarrow>
          if \<not> line_count < max_lines then Inr dest_buf
          else (case store_word dest_buf line_count (strtoul16 line_buf) of
                  Inl e \<Rightarrow> Inl e
                | Inr buf' \<Rightarrow> read_hex_loop max_lines rest' buf' (line_count + 1)))"
  by pat_completeness auto
termination
  by (relation "measure (\<lambda>(max_lines, rest, dest_buf, line_count). length rest)")
     (auto dest: f_gets_Some(3))

definition sd_read_hex :: "card \<Rightarrow> string \<Rightarrow> u8 list \<Rightarrow> nat \<Rightarrow> mem_fault + int \<times> u8 list" where
  "sd_read_hex c file_name dest_buf max_lines =
     (case f_open c file_name of
        None \<Rightarrow> Inr (- 1, dest_buf)
      | Some content \<Rightarrow>
          seq_result (read_hex_loop max_lines content dest_buf 0) (\<lambda>buf. Inr (0, buf)))"

declare read_binary_loop.simps [simp del] read_hex_loop.simps [simp del]

lemmas tf_card_ops [kws_ops] =
  f_mount_def f_mkfs_def f_open_def platform_init_fs_def sd_mount_def
  sd_read_binary_def sd_read_hex_def

lemmas tf_card_consts [kws_consts] = XST_SUCCESS_def XST_FAILURE_def

section \<open>What a reader promises\<close>

function chunks :: "nat \<Rightarrow> string \<Rightarrow> string list" where
  "chunks len cs = (case f_gets len cs of None \<Rightarrow> [] | Some (l, r) \<Rightarrow> l # chunks len r)"
  by pat_completeness auto
termination
  by (relation "measure (\<lambda>(len, cs). length cs)") (auto dest: f_gets_Some(3))

declare chunks.simps [simp del]

definition accepted :: "nat \<Rightarrow> string \<Rightarrow> string list" where
  "accepted bit_len content = filter (valid_line bit_len) (chunks 128 content)"

definition put_words :: "u8 list \<Rightarrow> nat \<Rightarrow> u32 list \<Rightarrow> u8 list" where
  "put_words buf k ws =
     take (4 * k) buf @ concat (map be_bytes ws) @ drop (4 * (k + length ws)) buf"

lemma chunks_None: "f_gets len cs = None \<Longrightarrow> chunks len cs = []"
  by (subst chunks.simps) simp

lemma chunks_Some: "f_gets len cs = Some (l, r) \<Longrightarrow> chunks len cs = l # chunks len r"
  by (subst chunks.simps) simp

lemma valid_line_iff:
  "valid_line n l \<longleftrightarrow> n \<le> length l \<and> list_all is_bit (take n l)"
proof
  assume v: "valid_line n l"
  then have "\<forall>i<n. i < length l \<and> is_bit (l ! i)"
    by (simp add: valid_line_def list_all_iff)
  then have "n \<le> length l" and "\<forall>i<n. is_bit (l ! i)"
    by (auto simp: not_less [symmetric])
  then show "n \<le> length l \<and> list_all is_bit (take n l)"
    by (auto simp: list_all_length)
next
  assume "n \<le> length l \<and> list_all is_bit (take n l)"
  then have "n \<le> length l" and "\<forall>i<n. is_bit (take n l ! i)"
    by (simp_all add: list_all_length)
  then show "valid_line n l"
    by (auto simp: valid_line_def list_all_iff)
qed

lemma length_concat_be_bytes [simp]: "length (concat (map be_bytes ws)) = 4 * length ws"
  by (induction ws) simp_all

lemma put_words_Nil [simp]: "put_words buf k [] = buf"
  by (simp add: put_words_def)

lemma length_put_words:
  "4 * (k + length ws) \<le> length buf \<Longrightarrow> length (put_words buf k ws) = length buf"
  by (simp add: put_words_def)

lemma put_words_Cons:
  assumes "4 * k + 4 \<le> length buf"
  shows "put_words (put_words buf k [v]) (Suc k) ws = put_words buf k (v # ws)"
proof -
  let ?B = "take (4 * k) buf @ be_bytes v @ drop (4 * k + 4) buf"
  from assms have l: "length (take (4 * k) buf @ be_bytes v) = 4 * k + 4" by simp
  have "take (4 * Suc k) ?B = take (4 * k) buf @ be_bytes v"
    using l by (simp add: min_absorb2)
  moreover have "drop (4 * (Suc k + length ws)) ?B = drop (4 * (k + length (v # ws))) buf"
    using assms by (simp add: ac_simps)
  ultimately show ?thesis
    by (simp add: put_words_def algebra_simps)
qed

lemma store_word_eq:
  assumes "line_count * 4 + 4 \<le> length dest_buf"
  shows "store_word dest_buf line_count v = Inr (put_words dest_buf line_count [v])"
  using assms fold_update_block [of "line_count * 4" "be_bytes v" dest_buf]
  by (simp add: store_word_def put_words_def algebra_simps)

lemma store_word_fault:
  "length dest_buf < line_count * 4 + 4 \<Longrightarrow>
   store_word dest_buf line_count v = Inl (BufferIndex (max (length dest_buf) (line_count * 4)))"
  by (simp add: store_word_def)

text \<open>One pass of each loop, by the branch it takes.\<close>

lemma read_binary_loop_None:
  "f_gets 128 rest = None \<Longrightarrow>
   read_binary_loop bit_len max_lines rest dest_buf line_count = Inr dest_buf"
  by (subst read_binary_loop.simps) simp

lemma read_binary_loop_full:
  "\<not> line_count < max_lines \<Longrightarrow>
   read_binary_loop bit_len max_lines rest dest_buf line_count = Inr dest_buf"
  by (subst read_binary_loop.simps) (simp split: option.splits)

lemma read_binary_loop_skip:
  "f_gets 128 rest = Some (l, r) \<Longrightarrow> line_count < max_lines \<Longrightarrow> \<not> valid_line bit_len l \<Longrightarrow>
   read_binary_loop bit_len max_lines rest dest_buf line_count =
   read_binary_loop bit_len max_lines r dest_buf line_count"
  by (subst read_binary_loop.simps) simp

lemma read_binary_loop_store:
  "f_gets 128 rest = Some (l, r) \<Longrightarrow> line_count < max_lines \<Longrightarrow> valid_line bit_len l \<Longrightarrow>
   read_binary_loop bit_len max_lines rest dest_buf line_count =
   seq_result (store_word dest_buf line_count (msb_first bit_len l))
     (\<lambda>buf'. read_binary_loop bit_len max_lines r buf' (Suc line_count))"
  by (subst read_binary_loop.simps) (simp add: seq_result_def split: sum.splits)

lemma read_hex_loop_None:
  "f_gets 32 rest = None \<Longrightarrow> read_hex_loop max_lines rest dest_buf line_count = Inr dest_buf"
  by (subst read_hex_loop.simps) simp

lemma read_hex_loop_full:
  "\<not> line_count < max_lines \<Longrightarrow>
   read_hex_loop max_lines rest dest_buf line_count = Inr dest_buf"
  by (subst read_hex_loop.simps) (simp split: option.splits)

lemma read_hex_loop_store:
  "f_gets 32 rest = Some (l, r) \<Longrightarrow> line_count < max_lines \<Longrightarrow>
   read_hex_loop max_lines rest dest_buf line_count =
   seq_result (store_word dest_buf line_count (strtoul16 l))
     (\<lambda>buf'. read_hex_loop max_lines r buf' (Suc line_count))"
  by (subst read_hex_loop.simps) (simp add: seq_result_def split: sum.splits)

text \<open>A store with room for \<open>max_lines\<close> words, and what is left to fill.\<close>

lemma store_word_step:
  assumes "4 * max_lines \<le> length dest_buf" and "line_count < max_lines"
  shows "store_word dest_buf line_count v = Inr (put_words dest_buf line_count [v])"
    and "4 * max_lines \<le> length (put_words dest_buf line_count [v])"
    and "put_words (put_words dest_buf line_count [v]) (Suc line_count) ws =
         put_words dest_buf line_count (v # ws)"
    and "take (max_lines - line_count) (w # ws') = w # take (max_lines - Suc line_count) ws'"
proof -
  from assms have room: "line_count * 4 + 4 \<le> length dest_buf" by simp
  then show "store_word dest_buf line_count v = Inr (put_words dest_buf line_count [v])"
    by (rule store_word_eq)
  from room assms show "4 * max_lines \<le> length (put_words dest_buf line_count [v])"
    by (simp add: length_put_words)
  from room put_words_Cons [of line_count dest_buf v ws]
  show "put_words (put_words dest_buf line_count [v]) (Suc line_count) ws =
         put_words dest_buf line_count (v # ws)"
    by (simp add: ac_simps)
  from assms(2) have "max_lines - line_count = Suc (max_lines - Suc line_count)" by simp
  then show "take (max_lines - line_count) (w # ws') =
      w # take (max_lines - Suc line_count) ws'"
    by simp
qed

text \<open>
  The loops against the promise. With room for \<open>max_lines\<close> words the loop
  never leaves the buffer, and it stores the first \<open>max_lines - line_count\<close>
  words the remaining lines give.
\<close>

lemma read_binary_loop_eq:
  assumes "4 * max_lines \<le> length dest_buf" and "line_count \<le> max_lines"
  shows "read_binary_loop bit_len max_lines rest dest_buf line_count =
         Inr (put_words dest_buf line_count
                (take (max_lines - line_count)
                   (map (msb_first bit_len) (filter (valid_line bit_len) (chunks 128 rest)))))"
  using assms
proof (induction bit_len max_lines rest dest_buf line_count rule: read_binary_loop.induct)
  case (1 bit_len max_lines rest dest_buf line_count)
  consider (eof) "f_gets 128 rest = None" | (full) "\<not> line_count < max_lines"
    | (skip) l r where "f_gets 128 rest = Some (l, r)" "line_count < max_lines"
        "\<not> valid_line bit_len l"
    | (store) l r where "f_gets 128 rest = Some (l, r)" "line_count < max_lines"
        "valid_line bit_len l"
    by (cases "f_gets 128 rest") auto
  then show ?case
  proof cases
    case eof
    then show ?thesis by (simp add: read_binary_loop_None chunks_None)
  next
    case full
    with "1.prems" show ?thesis by (simp add: read_binary_loop_full)
  next
    case skip
    with "1.IH"(1) [OF skip(1) refl _ _ "1.prems"] show ?thesis
      by (simp add: read_binary_loop_skip chunks_Some)
  next
    case store
    note w = store_word_step [OF "1.prems"(1) store(2), of "msb_first bit_len l"]
    from store(2) have "line_count + 1 \<le> max_lines" by simp
    from "1.IH"(2) [OF store(1) refl _ _ w(1,2) this] store show ?thesis
      by (simp add: read_binary_loop_store chunks_Some w)
  qed
qed

lemma read_hex_loop_eq:
  assumes "4 * max_lines \<le> length dest_buf" and "line_count \<le> max_lines"
  shows "read_hex_loop max_lines rest dest_buf line_count =
         Inr (put_words dest_buf line_count
                (take (max_lines - line_count) (map strtoul16 (chunks 32 rest))))"
  using assms
proof (induction max_lines rest dest_buf line_count rule: read_hex_loop.induct)
  case (1 max_lines rest dest_buf line_count)
  consider (eof) "f_gets 32 rest = None" | (full) "\<not> line_count < max_lines"
    | (store) l r where "f_gets 32 rest = Some (l, r)" "line_count < max_lines"
    by (cases "f_gets 32 rest") auto
  then show ?case
  proof cases
    case eof
    then show ?thesis by (simp add: read_hex_loop_None chunks_None)
  next
    case full
    with "1.prems" show ?thesis by (simp add: read_hex_loop_full)
  next
    case store
    note w = store_word_step [OF "1.prems"(1) store(2), of "strtoul16 l"]
    from store(2) have "line_count + 1 \<le> max_lines" by simp
    from "1.IH" [OF store(1) refl _ w(1,2) this] store show ?thesis
      by (simp add: read_hex_loop_store chunks_Some w)
  qed
qed

section \<open>The readers as functions of the file\<close>

definition binary_words :: "nat \<Rightarrow> nat \<Rightarrow> string \<Rightarrow> u32 list" where
  "binary_words bit_len max_lines content =
     take max_lines (map (msb_first bit_len) (accepted bit_len content))"

definition hex_words :: "nat \<Rightarrow> string \<Rightarrow> u32 list" where
  "hex_words max_lines content = take max_lines (map strtoul16 (chunks 32 content))"

lemma length_binary_words: "length (binary_words bit_len max_lines content) \<le> max_lines"
  by (simp add: binary_words_def)

lemma length_hex_words: "length (hex_words max_lines content) \<le> max_lines"
  by (simp add: hex_words_def)

lemma sd_read_binary_missing:
  "files c file_name = None \<Longrightarrow>
   sd_read_binary c file_name dest_buf bit_len max_lines = Inr (- 1, dest_buf)"
  by (simp add: sd_read_binary_def f_open_def)

lemma sd_read_binary_eq:
  assumes "files c file_name = Some content" and "4 * max_lines \<le> length dest_buf"
  shows "sd_read_binary c file_name dest_buf bit_len max_lines =
         Inr (0, put_words dest_buf 0 (binary_words bit_len max_lines content))"
  using assms read_binary_loop_eq [of max_lines dest_buf 0 bit_len content]
  by (simp add: sd_read_binary_def f_open_def binary_words_def accepted_def)

lemma sd_read_hex_missing:
  "files c file_name = None \<Longrightarrow> sd_read_hex c file_name dest_buf max_lines = Inr (- 1, dest_buf)"
  by (simp add: sd_read_hex_def f_open_def)

lemma sd_read_hex_eq:
  assumes "files c file_name = Some content" and "4 * max_lines \<le> length dest_buf"
  shows "sd_read_hex c file_name dest_buf max_lines =
         Inr (0, put_words dest_buf 0 (hex_words max_lines content))"
  using assms read_hex_loop_eq [of max_lines dest_buf 0 content]
  by (simp add: sd_read_hex_def f_open_def hex_words_def)

text \<open>
  \<open>binary_payload\<close> and \<open>hex_payload\<close>: the buffer after a reader, whether the
  file is there or not.
\<close>

definition binary_payload :: "card \<Rightarrow> string \<Rightarrow> nat \<Rightarrow> nat \<Rightarrow> u8 list \<Rightarrow> u8 list" where
  "binary_payload c file_name bit_len max_lines buf =
     (case files c file_name of
        None \<Rightarrow> buf
      | Some content \<Rightarrow> put_words buf 0 (binary_words bit_len max_lines content))"

definition hex_payload :: "card \<Rightarrow> string \<Rightarrow> nat \<Rightarrow> u8 list \<Rightarrow> u8 list" where
  "hex_payload c file_name max_lines buf =
     (case files c file_name of
        None \<Rightarrow> buf
      | Some content \<Rightarrow> put_words buf 0 (hex_words max_lines content))"

lemma sd_read_binary_payload:
  assumes "4 * max_lines \<le> length dest_buf"
  shows "sd_read_binary c file_name dest_buf bit_len max_lines =
         Inr (if files c file_name = None then - 1 else 0,
              binary_payload c file_name bit_len max_lines dest_buf)"
  using assms
  by (cases "files c file_name")
     (simp_all add: sd_read_binary_missing sd_read_binary_eq binary_payload_def)

lemma sd_read_hex_payload:
  assumes "4 * max_lines \<le> length dest_buf"
  shows "sd_read_hex c file_name dest_buf max_lines =
         Inr (if files c file_name = None then - 1 else 0,
              hex_payload c file_name max_lines dest_buf)"
  using assms
  by (cases "files c file_name")
     (simp_all add: sd_read_hex_missing sd_read_hex_eq hex_payload_def)

lemma length_put_words_le:
  "length ws \<le> max_lines \<Longrightarrow> 4 * max_lines \<le> length buf \<Longrightarrow>
   length (put_words buf 0 ws) = length buf"
  by (rule length_put_words) simp

lemma length_binary_payload [simp]:
  "4 * max_lines \<le> length buf \<Longrightarrow>
   length (binary_payload c file_name bit_len max_lines buf) = length buf"
  by (cases "files c file_name")
     (simp_all add: binary_payload_def length_put_words_le [OF length_binary_words])

lemma length_hex_payload [simp]:
  "4 * max_lines \<le> length buf \<Longrightarrow> length (hex_payload c file_name max_lines buf) = length buf"
  by (cases "files c file_name")
     (simp_all add: hex_payload_def length_put_words_le [OF length_hex_words])

section \<open>Mounting, case by case\<close>

lemma sd_mount_cases:
  "sd_mount c =
     (if fat_volume c then (XST_SUCCESS, c)
      else if \<not> mkfs_works c then (XST_FAILURE, c)
      else (if mounts_after_format c then XST_SUCCESS else XST_FAILURE,
            c\<lparr>fat_volume := mounts_after_format c, files := Map.empty\<rparr>))"
  by (simp add: sd_mount_def platform_init_fs_def f_mount_def f_mkfs_def)

end
