(* ===== verification/Text_Files.thy ===== *)
theory Text_Files
  imports TF_Card
begin

text \<open>
  Files as the model's authors write them: a list of lines, each ended by a
  line feed and short enough for the reader's line buffer. For such a file
  \<open>f_gets\<close> returns the lines one by one, so the binary reader stores the
  values of the well-formed lines (at least \<open>bit_len\<close> characters, the first
  \<open>bit_len\<close> of them \<open>0\<close> or \<open>1\<close>) and nothing for the others.
\<close>

definition lines_text :: "string list \<Rightarrow> string" where
  "lines_text ls = concat (map (\<lambda>l. l @ [CHR 0x0A]) ls)"

definition text_line :: "nat \<Rightarrow> string \<Rightarrow> bool" where
  "text_line len l \<longleftrightarrow> CHR 0x0A \<notin> set l \<and> length l + 2 \<le> len"

definition well_formed :: "nat \<Rightarrow> string \<Rightarrow> bool" where
  "well_formed bit_len l \<longleftrightarrow> bit_len \<le> length l \<and> list_all is_bit (take bit_len l)"

definition line_value :: "nat \<Rightarrow> string \<Rightarrow> u32" where
  "line_value bit_len l = of_nat (bin_value (take bit_len l))"

lemma lines_text_simps [simp]:
  "lines_text [] = []"
  "lines_text (l # ls) = l @ CHR 0x0A # lines_text ls"
  by (simp_all add: lines_text_def)

lemma f_gets_line_whole:
  "CHR 0x0A \<notin> set l \<Longrightarrow> length l < n \<Longrightarrow>
   f_gets_line n (l @ CHR 0x0A # rest) = (l @ [CHR 0x0A], rest)"
proof (induction l arbitrary: n)
  case Nil
  then show ?case by (cases n) simp_all
next
  case (Cons c l)
  then show ?case by (cases n) auto
qed

lemma f_gets_text_line:
  "text_line len l \<Longrightarrow> f_gets len (l @ CHR 0x0A # rest) = Some (l @ [CHR 0x0A], rest)"
proof -
  assume t: "text_line len l"
  then have "length l < len - 1" and "\<not> len < 2"
    by (auto simp: text_line_def)
  with t f_gets_line_whole [of l "len - 1" rest] show ?thesis
    by (simp add: f_gets_def text_line_def)
qed

lemma chunks_lines_text:
  "list_all (text_line len) ls \<Longrightarrow> chunks len (lines_text ls) = map (\<lambda>l. l @ [CHR 0x0A]) ls"
proof (induction ls)
  case Nil
  show ?case by (simp add: chunks_None)
next
  case (Cons l ls)
  then show ?case
    by (simp add: chunks_Some [OF f_gets_text_line])
qed

lemma is_bit_newline [simp]: "\<not> is_bit (CHR 0x0A)"
  by (simp add: is_bit_def)

lemma valid_line_newline [simp]: "valid_line bit_len (l @ [CHR 0x0A]) \<longleftrightarrow> well_formed bit_len l"
  by (cases "bit_len \<le> length l") (auto simp: valid_line_iff well_formed_def)

lemma msb_first_newline:
  "well_formed bit_len l \<Longrightarrow> msb_first bit_len (l @ [CHR 0x0A]) = line_value bit_len l"
  by (simp add: msb_first_bin_value well_formed_def line_value_def)

lemma map_filter_cong:
  "(\<And>x. x \<in> set xs \<Longrightarrow> P x \<Longrightarrow> f x = g x) \<Longrightarrow> map f (filter P xs) = map g (filter P xs)"
  by (rule map_cong) auto

lemma binary_words_text:
  assumes "list_all (text_line 128) ls"
  shows "binary_words bit_len max_lines (lines_text ls) =
         take max_lines (map (line_value bit_len) (filter (well_formed bit_len) ls))"
proof -
  have "map (msb_first bit_len) (filter (valid_line bit_len) (map (\<lambda>l. l @ [CHR 0x0A]) ls)) =
        map (\<lambda>l. msb_first bit_len (l @ [CHR 0x0A])) (filter (well_formed bit_len) ls)"
    by (simp add: filter_map comp_def)
  also have "\<dots> = map (line_value bit_len) (filter (well_formed bit_len) ls)"
    by (rule map_filter_cong) (rule msb_first_newline)
  finally have "map (msb_first bit_len)
       (filter (valid_line bit_len) (map (\<lambda>l. l @ [CHR 0x0A]) ls)) =
     map (line_value bit_len) (filter (well_formed bit_len) ls)" .
  with chunks_lines_text [OF assms] show ?thesis
    by (simp add: binary_words_def accepted_def)
qed

section \<open>Lines of hexadecimal digits\<close>

definition hex_line :: "string \<Rightarrow> bool" where
  "hex_line l \<longleftrightarrow> l \<noteq> [] \<and> length l \<le> 8 \<and> list_all (\<lambda>c. hex_digit c \<noteq> None) l"

definition hex_value :: "string \<Rightarrow> nat" where
  "hex_value l = foldl (\<lambda>a c. 16 * a + the (hex_digit c)) 0 l"

lemma hex_digit_not [simp]:
  "hex_digit (CHR 0x0A) = None" "hex_digit (CHR ''x'') = None" "hex_digit (CHR ''X'') = None"
  "hex_digit (CHR ''-'') = None" "hex_digit (CHR ''+'') = None"
  by (simp_all add: hex_digit_def)

lemma hex_digit_not_space: "is_space c \<Longrightarrow> hex_digit c = None"
  by (auto simp: is_space_def hex_digit_def)

lemma hex_digit_less: "hex_digit c = Some d \<Longrightarrow> d < 16"
  by (auto simp: hex_digit_def Let_def split: if_splits)

lemma hex_acc_digits:
  "list_all (\<lambda>c. hex_digit c \<noteq> None) l \<Longrightarrow>
   hex_acc a (l @ r) = hex_acc (foldl (\<lambda>a c. 16 * a + the (hex_digit c)) a l) r"
  by (induction l arbitrary: a) auto

lemma hex_value_less:
  "list_all (\<lambda>c. hex_digit c \<noteq> None) l \<Longrightarrow> hex_value l < 16 ^ length l"
proof (induction l rule: rev_induct)
  case Nil
  show ?case by (simp add: hex_value_def)
next
  case (snoc c l)
  then obtain d where d: "hex_digit c = Some d" by auto
  from snoc have "hex_value l < 16 ^ length l" by simp
  with hex_digit_less [OF d] d show ?case
    by (simp add: hex_value_def)
qed

lemma strtoul16_hex_line:
  assumes "hex_line l"
  shows "strtoul16 (l @ [CHR 0x0A]) = of_nat (hex_value l)"
proof -
  from assms obtain a r where l: "l = a # r" and a: "hex_digit a \<noteq> None"
    and dig: "list_all (\<lambda>c. hex_digit c \<noteq> None) l" and len: "length l \<le> 8"
    by (cases l) (auto simp: hex_line_def)
  from a have ns: "\<not> is_space a" "a \<noteq> CHR ''-''" "a \<noteq> CHR ''+''"
    using hex_digit_not_space [of a] by auto
  have x: "\<not> (hd (r @ [CHR 0x0A]) = CHR ''x'' \<or> hd (r @ [CHR 0x0A]) = CHR ''X'')"
    using dig l by (cases r) auto
  have s3: "(case a # r @ [CHR 0x0A] of
               a # b # d # cs \<Rightarrow>
                 if a = CHR ''0'' \<and> (b = CHR ''x'' \<or> b = CHR ''X'') \<and> hex_digit d \<noteq> None
                 then d # cs else a # r @ [CHR 0x0A]
             | _ \<Rightarrow> a # r @ [CHR 0x0A]) = a # r @ [CHR 0x0A]"
    using x by (cases "r @ [CHR 0x0A]"; cases "tl (r @ [CHR 0x0A])") auto
  have n: "hex_acc 0 (l @ [CHR 0x0A]) = hex_value l"
    by (simp add: hex_acc_digits [OF dig] hex_value_def)
  have "(16 :: nat) ^ length l \<le> 16 ^ 8"
    using len by (intro power_increasing) simp_all
  with hex_value_less [OF dig] have small: "\<not> 2 ^ 32 \<le> hex_value l" by simp
  from ns s3 n small show ?thesis
    by (simp add: strtoul16_def l Let_def)
qed

lemma hex_words_text:
  assumes "list_all (text_line 32) ls"
  shows "hex_words max_lines (lines_text ls) =
         take max_lines (map (\<lambda>l. strtoul16 (l @ [CHR 0x0A])) ls)"
  using chunks_lines_text [OF assms] by (simp add: hex_words_def comp_def)

lemma unat_line_value:
  "bit_len \<le> 32 \<Longrightarrow> unat (line_value bit_len l) = bin_value (take bit_len l)"
  by (simp add: line_value_def unat_of_nat_bin_value)

lemma line_value_less:
  assumes "bit_len \<le> 32"
  shows "unat (line_value bit_len l) < 2 ^ bit_len"
proof -
  have "bin_value (take bit_len l) < 2 ^ length (take bit_len l)"
    by (rule bin_value_less)
  also have "\<dots> \<le> 2 ^ bit_len"
    by (intro power_increasing) simp_all
  finally show ?thesis
    using assms by (simp add: unat_line_value)
qed

end
