(* ===== verification/Bank_Loader.thy ===== *)
theory Bank_Loader
  imports TF_Card
begin

text \<open>
  The loader of src/src_sw/spi_config.c and the catalog of
  src/src_sw/spi_config.h: the file names, the capacities \<open>LEN_*\<close>, the
  address tokens, the fourteen buffers as the record \<open>model_buffers\<close>,
  \<open>read_model_data\<close> (every return value of a reader is dropped, as in the
  source), \<open>SPIWrite\<close> and \<open>initial_TMA\<close>. The link is the list of the bursts
  sent so far: \<open>XSpiPs_PolledTransfer\<close>, library code, appends one burst.
  \<open>send_token\<close> and \<open>send_bank\<close> are the block the source repeats for every
  bank: decode the token, store its four bytes, send them, send the buffer.
\<close>

section \<open>The catalog\<close>

definition CONF_REG_FILE_NAME :: string where "CONF_REG_FILE_NAME = ''spi_config_reg.txt''"
definition CONF_BLOCK_BANK_FILE_NAME :: string where "CONF_BLOCK_BANK_FILE_NAME = ''block_idx_bank.dat''"
definition CONF_ROW_BANK0_FILE_NAME :: string where "CONF_ROW_BANK0_FILE_NAME = ''row_cnt_bank0.dat''"
definition CONF_ROW_BANK1_FILE_NAME :: string where "CONF_ROW_BANK1_FILE_NAME = ''row_cnt_bank1.dat''"
definition CONF_ROW_BANK2_FILE_NAME :: string where "CONF_ROW_BANK2_FILE_NAME = ''row_cnt_bank2.dat''"
definition CONF_ROW_BANK3_FILE_NAME :: string where "CONF_ROW_BANK3_FILE_NAME = ''row_cnt_bank3.dat''"
definition CONF_ROW_BANK4_FILE_NAME :: string where "CONF_ROW_BANK4_FILE_NAME = ''row_cnt_bank4.dat''"
definition CONF_CCL_BANK0_FILE_NAME :: string where "CONF_CCL_BANK0_FILE_NAME = ''col_cla_idx_bank0.dat''"
definition CONF_CCL_BANK1_FILE_NAME :: string where "CONF_CCL_BANK1_FILE_NAME = ''col_cla_idx_bank1.dat''"
definition CONF_CCL_BANK2_FILE_NAME :: string where "CONF_CCL_BANK2_FILE_NAME = ''col_cla_idx_bank2.dat''"
definition CONF_CCL_BANK3_FILE_NAME :: string where "CONF_CCL_BANK3_FILE_NAME = ''col_cla_idx_bank3.dat''"
definition CONF_CCL_BANK4_FILE_NAME :: string where "CONF_CCL_BANK4_FILE_NAME = ''col_cla_idx_bank4.dat''"
definition CONF_WEIGHT_BANK_FILE_NAME :: string where "CONF_WEIGHT_BANK_FILE_NAME = ''weight_bank.dat''"

definition LEN_CONF_REG :: nat where "LEN_CONF_REG = 28"
definition LEN_BLOCK_BANK :: nat where "LEN_BLOCK_BANK = 1152"
definition LEN_ROW_BANK0 :: nat where "LEN_ROW_BANK0 = 1592"
definition LEN_ROW_BANK1 :: nat where "LEN_ROW_BANK1 = 1618"
definition LEN_ROW_BANK2 :: nat where "LEN_ROW_BANK2 = 1627"
definition LEN_ROW_BANK3 :: nat where "LEN_ROW_BANK3 = 1614"
definition LEN_ROW_BANK4 :: nat where "LEN_ROW_BANK4 = 1668"
definition LEN_CCL_BANK0 :: nat where "LEN_CCL_BANK0 = 3127"
definition LEN_CCL_BANK1 :: nat where "LEN_CCL_BANK1 = 3114"
definition LEN_CCL_BANK2 :: nat where "LEN_CCL_BANK2 = 3099"
definition LEN_CCL_BANK3 :: nat where "LEN_CCL_BANK3 = 3108"
definition LEN_CCL_BANK4 :: nat where "LEN_CCL_BANK4 = 3186"
definition LEN_WEIGHT_BANK :: nat where "LEN_WEIGHT_BANK = 1440"

definition BLOCK_IDX_BANK_CONFIG_ADDR :: string where
  "BLOCK_IDX_BANK_CONFIG_ADDR = ''10010000010001111111000000000000''"
definition ROW_CNT_BANK0_CONFIG_ADDR :: string where
  "ROW_CNT_BANK0_CONFIG_ADDR = ''10100000011000110111000000000000''"
definition ROW_CNT_BANK1_CONFIG_ADDR :: string where
  "ROW_CNT_BANK1_CONFIG_ADDR = ''10100010011001010001000000000000''"
definition ROW_CNT_BANK2_CONFIG_ADDR :: string where
  "ROW_CNT_BANK2_CONFIG_ADDR = ''10100100011001011010000000000000''"
definition ROW_CNT_BANK3_CONFIG_ADDR :: string where
  "ROW_CNT_BANK3_CONFIG_ADDR = ''10100110011001001101000000000000''"
definition ROW_CNT_BANK4_CONFIG_ADDR :: string where
  "ROW_CNT_BANK4_CONFIG_ADDR = ''10101000011010000011000000000000''"
definition CCL_IDX_BANK0_CONFIG_ADDR :: string where
  "CCL_IDX_BANK0_CONFIG_ADDR = ''10110000110000110110000000000000''"
definition CCL_IDX_BANK1_CONFIG_ADDR :: string where
  "CCL_IDX_BANK1_CONFIG_ADDR = ''10110010110000101001000000000000''"
definition CCL_IDX_BANK2_CONFIG_ADDR :: string where
  "CCL_IDX_BANK2_CONFIG_ADDR = ''10110100110000011010000000000000''"
definition CCL_IDX_BANK3_CONFIG_ADDR :: string where
  "CCL_IDX_BANK3_CONFIG_ADDR = ''10110110110000100011000000000000''"
definition CCL_IDX_BANK4_CONFIG_ADDR :: string where
  "CCL_IDX_BANK4_CONFIG_ADDR = ''10111000110001110001000000000000''"
definition WEIGHT_BANK0_CONFIG_ADDR :: string where
  "WEIGHT_BANK0_CONFIG_ADDR = ''11000000010110011111000000000000''"
definition CONF_SPI_EN_INF_ADDR :: string where
  "CONF_SPI_EN_INF_ADDR = ''10000000000000000000000000000001''"
definition CONF_SPI_EN_INF_DATA :: string where
  "CONF_SPI_EN_INF_DATA = ''00000000000000000000000000000001''"

lemmas file_names =
  CONF_REG_FILE_NAME_def CONF_BLOCK_BANK_FILE_NAME_def CONF_ROW_BANK0_FILE_NAME_def
  CONF_ROW_BANK1_FILE_NAME_def CONF_ROW_BANK2_FILE_NAME_def CONF_ROW_BANK3_FILE_NAME_def
  CONF_ROW_BANK4_FILE_NAME_def CONF_CCL_BANK0_FILE_NAME_def CONF_CCL_BANK1_FILE_NAME_def
  CONF_CCL_BANK2_FILE_NAME_def CONF_CCL_BANK3_FILE_NAME_def CONF_CCL_BANK4_FILE_NAME_def
  CONF_WEIGHT_BANK_FILE_NAME_def

lemmas capacities =
  LEN_CONF_REG_def LEN_BLOCK_BANK_def LEN_ROW_BANK0_def LEN_ROW_BANK1_def LEN_ROW_BANK2_def
  LEN_ROW_BANK3_def LEN_ROW_BANK4_def LEN_CCL_BANK0_def LEN_CCL_BANK1_def LEN_CCL_BANK2_def
  LEN_CCL_BANK3_def LEN_CCL_BANK4_def LEN_WEIGHT_BANK_def

lemmas tokens =
  BLOCK_IDX_BANK_CONFIG_ADDR_def ROW_CNT_BANK0_CONFIG_ADDR_def ROW_CNT_BANK1_CONFIG_ADDR_def
  ROW_CNT_BANK2_CONFIG_ADDR_def ROW_CNT_BANK3_CONFIG_ADDR_def ROW_CNT_BANK4_CONFIG_ADDR_def
  CCL_IDX_BANK0_CONFIG_ADDR_def CCL_IDX_BANK1_CONFIG_ADDR_def CCL_IDX_BANK2_CONFIG_ADDR_def
  CCL_IDX_BANK3_CONFIG_ADDR_def CCL_IDX_BANK4_CONFIG_ADDR_def WEIGHT_BANK0_CONFIG_ADDR_def
  CONF_SPI_EN_INF_ADDR_def CONF_SPI_EN_INF_DATA_def

section \<open>The buffers\<close>

record model_buffers =
  Conf_reg_Buffer :: "u8 list"
  Conf_block_Buffer :: "u8 list"
  Conf_row_Buffer0 :: "u8 list"
  Conf_row_Buffer1 :: "u8 list"
  Conf_row_Buffer2 :: "u8 list"
  Conf_row_Buffer3 :: "u8 list"
  Conf_row_Buffer4 :: "u8 list"
  Conf_ccl_Buffer0 :: "u8 list"
  Conf_ccl_Buffer1 :: "u8 list"
  Conf_ccl_Buffer2 :: "u8 list"
  Conf_ccl_Buffer3 :: "u8 list"
  Conf_ccl_Buffer4 :: "u8 list"
  Conf_weight_Buffer :: "u8 list"
  Conf_feature_bank_Buffer :: "u8 list"

definition init_buffers :: model_buffers where
  "init_buffers =
     \<lparr>Conf_reg_Buffer = replicate (LEN_CONF_REG * 4) 0,
      Conf_block_Buffer = replicate (LEN_BLOCK_BANK * 4) 0,
      Conf_row_Buffer0 = replicate (LEN_ROW_BANK0 * 4) 0,
      Conf_row_Buffer1 = replicate (LEN_ROW_BANK1 * 4) 0,
      Conf_row_Buffer2 = replicate (LEN_ROW_BANK2 * 4) 0,
      Conf_row_Buffer3 = replicate (LEN_ROW_BANK3 * 4) 0,
      Conf_row_Buffer4 = replicate (LEN_ROW_BANK4 * 4) 0,
      Conf_ccl_Buffer0 = replicate (LEN_CCL_BANK0 * 4) 0,
      Conf_ccl_Buffer1 = replicate (LEN_CCL_BANK1 * 4) 0,
      Conf_ccl_Buffer2 = replicate (LEN_CCL_BANK2 * 4) 0,
      Conf_ccl_Buffer3 = replicate (LEN_CCL_BANK3 * 4) 0,
      Conf_ccl_Buffer4 = replicate (LEN_CCL_BANK4 * 4) 0,
      Conf_weight_Buffer = replicate (LEN_WEIGHT_BANK * 4) 0,
      Conf_feature_bank_Buffer = replicate (129 * 4) 0\<rparr>"

section \<open>Reading the model\<close>

definition read_model_data :: "card \<Rightarrow> model_buffers \<Rightarrow> mem_fault + model_buffers" where
  "read_model_data c m =
     seq_result (sd_read_binary c ''feature_bank_data.txt'' (Conf_feature_bank_Buffer m) 32 129)
       (\<lambda>(r, fb).
     seq_result (sd_read_binary c CONF_REG_FILE_NAME (Conf_reg_Buffer m) 32 LEN_CONF_REG)
       (\<lambda>(r, rg).
     seq_result (sd_read_binary c CONF_BLOCK_BANK_FILE_NAME (Conf_block_Buffer m) 20 LEN_BLOCK_BANK)
       (\<lambda>(r, bl).
     seq_result (sd_read_binary c CONF_ROW_BANK0_FILE_NAME (Conf_row_Buffer0 m) 6 LEN_ROW_BANK0)
       (\<lambda>(r, r0).
     seq_result (sd_read_binary c CONF_ROW_BANK1_FILE_NAME (Conf_row_Buffer1 m) 6 LEN_ROW_BANK1)
       (\<lambda>(r, r1).
     seq_result (sd_read_binary c CONF_ROW_BANK2_FILE_NAME (Conf_row_Buffer2 m) 6 LEN_ROW_BANK2)
       (\<lambda>(r, r2).
     seq_result (sd_read_binary c CONF_ROW_BANK3_FILE_NAME (Conf_row_Buffer3 m) 6 LEN_ROW_BANK3)
       (\<lambda>(r, r3).
     seq_result (sd_read_binary c CONF_ROW_BANK4_FILE_NAME (Conf_row_Buffer4 m) 6 LEN_ROW_BANK4)
       (\<lambda>(r, r4).
     seq_result (sd_read_binary c CONF_CCL_BANK0_FILE_NAME (Conf_ccl_Buffer0 m) 5 LEN_CCL_BANK0)
       (\<lambda>(r, c0).
     seq_result (sd_read_binary c CONF_CCL_BANK1_FILE_NAME (Conf_ccl_Buffer1 m) 5 LEN_CCL_BANK1)
       (\<lambda>(r, c1).
     seq_result (sd_read_binary c CONF_CCL_BANK2_FILE_NAME (Conf_ccl_Buffer2 m) 5 LEN_CCL_BANK2)
       (\<lambda>(r, c2).
     seq_result (sd_read_binary c CONF_CCL_BANK3_FILE_NAME (Conf_ccl_Buffer3 m) 5 LEN_CCL_BANK3)
       (\<lambda>(r, c3).
     seq_result (sd_read_binary c CONF_CCL_BANK4_FILE_NAME (Conf_ccl_Buffer4 m) 5 LEN_CCL_BANK4)
       (\<lambda>(r, c4).
     seq_result (sd_read_hex c CONF_WEIGHT_BANK_FILE_NAME (Conf_weight_Buffer m) LEN_WEIGHT_BANK)
       (\<lambda>(r, w).
     Inr \<lparr>Conf_reg_Buffer = rg, Conf_block_Buffer = bl,
          Conf_row_Buffer0 = r0, Conf_row_Buffer1 = r1, Conf_row_Buffer2 = r2,
          Conf_row_Buffer3 = r3, Conf_row_Buffer4 = r4,
          Conf_ccl_Buffer0 = c0, Conf_ccl_Buffer1 = c1, Conf_ccl_Buffer2 = c2,
          Conf_ccl_Buffer3 = c3, Conf_ccl_Buffer4 = c4,
          Conf_weight_Buffer = w, Conf_feature_bank_Buffer = fb\<rparr>))))))))))))))"

section \<open>Sending the model\<close>

type_synonym link = "u8 list list"

definition SPIWrite :: "nat \<Rightarrow> nat \<Rightarrow> u8 list \<Rightarrow> link \<Rightarrow> mem_fault + link" where
  "SPIWrite Offset ByteCount Buffer l =
     (if length Buffer < Offset + ByteCount then Inl (BufferIndex (length Buffer))
      else Inr (l @ [take ByteCount (drop Offset Buffer)]))"

definition send_token :: "string \<Rightarrow> link \<Rightarrow> mem_fault + link" where
  "send_token tok l =
     seq_result (binary_str_to_uint32 tok) (\<lambda>addr_uint32. SPIWrite 0 4 (be_bytes addr_uint32) l)"

definition send_bank :: "string \<Rightarrow> nat \<Rightarrow> u8 list \<Rightarrow> link \<Rightarrow> mem_fault + link" where
  "send_bank tok len buf l = seq_result (send_token tok l) (SPIWrite 0 (len * 4) buf)"

definition initial_TMA :: "model_buffers \<Rightarrow> link \<Rightarrow> mem_fault + int \<times> link" where
  "initial_TMA m l0 =
     seq_result (SPIWrite 0 (LEN_CONF_REG * 4) (Conf_reg_Buffer m) l0) (\<lambda>l.
     seq_result (send_bank BLOCK_IDX_BANK_CONFIG_ADDR LEN_BLOCK_BANK (Conf_block_Buffer m) l) (\<lambda>l.
     seq_result (send_bank ROW_CNT_BANK0_CONFIG_ADDR LEN_ROW_BANK0 (Conf_row_Buffer0 m) l) (\<lambda>l.
     seq_result (send_bank ROW_CNT_BANK1_CONFIG_ADDR LEN_ROW_BANK1 (Conf_row_Buffer1 m) l) (\<lambda>l.
     seq_result (send_bank ROW_CNT_BANK2_CONFIG_ADDR LEN_ROW_BANK2 (Conf_row_Buffer2 m) l) (\<lambda>l.
     seq_result (send_bank ROW_CNT_BANK3_CONFIG_ADDR LEN_ROW_BANK3 (Conf_row_Buffer3 m) l) (\<lambda>l.
     seq_result (send_bank ROW_CNT_BANK4_CONFIG_ADDR LEN_ROW_BANK4 (Conf_row_Buffer4 m) l) (\<lambda>l.
     seq_result (send_bank CCL_IDX_BANK0_CONFIG_ADDR LEN_CCL_BANK0 (Conf_ccl_Buffer0 m) l) (\<lambda>l.
     seq_result (send_bank CCL_IDX_BANK1_CONFIG_ADDR LEN_CCL_BANK1 (Conf_ccl_Buffer1 m) l) (\<lambda>l.
     seq_result (send_bank CCL_IDX_BANK2_CONFIG_ADDR LEN_CCL_BANK2 (Conf_ccl_Buffer2 m) l) (\<lambda>l.
     seq_result (send_bank CCL_IDX_BANK3_CONFIG_ADDR LEN_CCL_BANK3 (Conf_ccl_Buffer3 m) l) (\<lambda>l.
     seq_result (send_bank CCL_IDX_BANK4_CONFIG_ADDR LEN_CCL_BANK4 (Conf_ccl_Buffer4 m) l) (\<lambda>l.
     seq_result (send_bank WEIGHT_BANK0_CONFIG_ADDR LEN_WEIGHT_BANK (Conf_weight_Buffer m) l) (\<lambda>l.
     seq_result (send_token CONF_SPI_EN_INF_ADDR l) (\<lambda>l.
     seq_result (send_token CONF_SPI_EN_INF_DATA l) (\<lambda>l.
     Inr (XST_SUCCESS, l))))))))))))))))"

lemmas bank_loader_ops [kws_ops] = SPIWrite_def send_token_def send_bank_def

section \<open>The promise: sizes, payloads, image\<close>

text \<open>
  \<open>buffers_ok\<close>: every buffer has the size its declaration gives it.
  \<open>payloads c m\<close>: the buffers after \<open>read_model_data\<close> on card \<open>c\<close>.
  \<open>token_word\<close>: a token as the decoder reads it. \<open>image m\<close>: the bursts a
  complete load puts on the link, in order.
\<close>

definition buffers_ok :: "model_buffers \<Rightarrow> bool" where
  "buffers_ok m \<longleftrightarrow>
     length (Conf_reg_Buffer m) = LEN_CONF_REG * 4 \<and>
     length (Conf_block_Buffer m) = LEN_BLOCK_BANK * 4 \<and>
     length (Conf_row_Buffer0 m) = LEN_ROW_BANK0 * 4 \<and>
     length (Conf_row_Buffer1 m) = LEN_ROW_BANK1 * 4 \<and>
     length (Conf_row_Buffer2 m) = LEN_ROW_BANK2 * 4 \<and>
     length (Conf_row_Buffer3 m) = LEN_ROW_BANK3 * 4 \<and>
     length (Conf_row_Buffer4 m) = LEN_ROW_BANK4 * 4 \<and>
     length (Conf_ccl_Buffer0 m) = LEN_CCL_BANK0 * 4 \<and>
     length (Conf_ccl_Buffer1 m) = LEN_CCL_BANK1 * 4 \<and>
     length (Conf_ccl_Buffer2 m) = LEN_CCL_BANK2 * 4 \<and>
     length (Conf_ccl_Buffer3 m) = LEN_CCL_BANK3 * 4 \<and>
     length (Conf_ccl_Buffer4 m) = LEN_CCL_BANK4 * 4 \<and>
     length (Conf_weight_Buffer m) = LEN_WEIGHT_BANK * 4 \<and>
     length (Conf_feature_bank_Buffer m) = 129 * 4"

definition payloads :: "card \<Rightarrow> model_buffers \<Rightarrow> model_buffers" where
  "payloads c m =
     \<lparr>Conf_reg_Buffer = binary_payload c CONF_REG_FILE_NAME 32 LEN_CONF_REG (Conf_reg_Buffer m),
      Conf_block_Buffer =
        binary_payload c CONF_BLOCK_BANK_FILE_NAME 20 LEN_BLOCK_BANK (Conf_block_Buffer m),
      Conf_row_Buffer0 = binary_payload c CONF_ROW_BANK0_FILE_NAME 6 LEN_ROW_BANK0 (Conf_row_Buffer0 m),
      Conf_row_Buffer1 = binary_payload c CONF_ROW_BANK1_FILE_NAME 6 LEN_ROW_BANK1 (Conf_row_Buffer1 m),
      Conf_row_Buffer2 = binary_payload c CONF_ROW_BANK2_FILE_NAME 6 LEN_ROW_BANK2 (Conf_row_Buffer2 m),
      Conf_row_Buffer3 = binary_payload c CONF_ROW_BANK3_FILE_NAME 6 LEN_ROW_BANK3 (Conf_row_Buffer3 m),
      Conf_row_Buffer4 = binary_payload c CONF_ROW_BANK4_FILE_NAME 6 LEN_ROW_BANK4 (Conf_row_Buffer4 m),
      Conf_ccl_Buffer0 = binary_payload c CONF_CCL_BANK0_FILE_NAME 5 LEN_CCL_BANK0 (Conf_ccl_Buffer0 m),
      Conf_ccl_Buffer1 = binary_payload c CONF_CCL_BANK1_FILE_NAME 5 LEN_CCL_BANK1 (Conf_ccl_Buffer1 m),
      Conf_ccl_Buffer2 = binary_payload c CONF_CCL_BANK2_FILE_NAME 5 LEN_CCL_BANK2 (Conf_ccl_Buffer2 m),
      Conf_ccl_Buffer3 = binary_payload c CONF_CCL_BANK3_FILE_NAME 5 LEN_CCL_BANK3 (Conf_ccl_Buffer3 m),
      Conf_ccl_Buffer4 = binary_payload c CONF_CCL_BANK4_FILE_NAME 5 LEN_CCL_BANK4 (Conf_ccl_Buffer4 m),
      Conf_weight_Buffer = hex_payload c CONF_WEIGHT_BANK_FILE_NAME LEN_WEIGHT_BANK (Conf_weight_Buffer m),
      Conf_feature_bank_Buffer =
        binary_payload c ''feature_bank_data.txt'' 32 129 (Conf_feature_bank_Buffer m)\<rparr>"

definition token_word :: "string \<Rightarrow> u32" where
  "token_word tok = of_nat (bin_value (take 32 tok))"

definition image :: "model_buffers \<Rightarrow> link" where
  "image m =
     [Conf_reg_Buffer m,
      be_bytes (token_word BLOCK_IDX_BANK_CONFIG_ADDR), Conf_block_Buffer m,
      be_bytes (token_word ROW_CNT_BANK0_CONFIG_ADDR), Conf_row_Buffer0 m,
      be_bytes (token_word ROW_CNT_BANK1_CONFIG_ADDR), Conf_row_Buffer1 m,
      be_bytes (token_word ROW_CNT_BANK2_CONFIG_ADDR), Conf_row_Buffer2 m,
      be_bytes (token_word ROW_CNT_BANK3_CONFIG_ADDR), Conf_row_Buffer3 m,
      be_bytes (token_word ROW_CNT_BANK4_CONFIG_ADDR), Conf_row_Buffer4 m,
      be_bytes (token_word CCL_IDX_BANK0_CONFIG_ADDR), Conf_ccl_Buffer0 m,
      be_bytes (token_word CCL_IDX_BANK1_CONFIG_ADDR), Conf_ccl_Buffer1 m,
      be_bytes (token_word CCL_IDX_BANK2_CONFIG_ADDR), Conf_ccl_Buffer2 m,
      be_bytes (token_word CCL_IDX_BANK3_CONFIG_ADDR), Conf_ccl_Buffer3 m,
      be_bytes (token_word CCL_IDX_BANK4_CONFIG_ADDR), Conf_ccl_Buffer4 m,
      be_bytes (token_word WEIGHT_BANK0_CONFIG_ADDR), Conf_weight_Buffer m,
      be_bytes (token_word CONF_SPI_EN_INF_ADDR),
      be_bytes (token_word CONF_SPI_EN_INF_DATA)]"

lemma buffers_ok_init: "buffers_ok init_buffers"
  by (simp add: buffers_ok_def init_buffers_def)

lemma buffers_okD:
  assumes "buffers_ok m"
  shows "4 * LEN_CONF_REG \<le> length (Conf_reg_Buffer m)"
    and "4 * LEN_BLOCK_BANK \<le> length (Conf_block_Buffer m)"
    and "4 * LEN_ROW_BANK0 \<le> length (Conf_row_Buffer0 m)"
    and "4 * LEN_ROW_BANK1 \<le> length (Conf_row_Buffer1 m)"
    and "4 * LEN_ROW_BANK2 \<le> length (Conf_row_Buffer2 m)"
    and "4 * LEN_ROW_BANK3 \<le> length (Conf_row_Buffer3 m)"
    and "4 * LEN_ROW_BANK4 \<le> length (Conf_row_Buffer4 m)"
    and "4 * LEN_CCL_BANK0 \<le> length (Conf_ccl_Buffer0 m)"
    and "4 * LEN_CCL_BANK1 \<le> length (Conf_ccl_Buffer1 m)"
    and "4 * LEN_CCL_BANK2 \<le> length (Conf_ccl_Buffer2 m)"
    and "4 * LEN_CCL_BANK3 \<le> length (Conf_ccl_Buffer3 m)"
    and "4 * LEN_CCL_BANK4 \<le> length (Conf_ccl_Buffer4 m)"
    and "4 * LEN_WEIGHT_BANK \<le> length (Conf_weight_Buffer m)"
    and "516 \<le> length (Conf_feature_bank_Buffer m)"
  using assms by (simp_all add: buffers_ok_def)

lemma read_model_data_eq:
  assumes "buffers_ok m"
  shows "read_model_data c m = Inr (payloads c m)"
  unfolding read_model_data_def payloads_def
  by (simp add: sd_read_binary_payload sd_read_hex_payload buffers_okD [OF assms])

lemma buffers_ok_payloads:
  assumes "buffers_ok m"
  shows "buffers_ok (payloads c m)"
  using assms buffers_okD [OF assms]
  by (simp add: buffers_ok_def payloads_def)

lemma SPIWrite_whole:
  "length buf = n \<Longrightarrow> SPIWrite 0 n buf l = Inr (l @ [buf])"
  by (simp add: SPIWrite_def)

lemma SPIWrite_short:
  "length buf < off + n \<Longrightarrow> SPIWrite off n buf l = Inl (BufferIndex (length buf))"
  by (simp add: SPIWrite_def)

lemma send_token_eq:
  "32 \<le> length tok \<Longrightarrow> send_token tok l = Inr (l @ [be_bytes (token_word tok)])"
  by (simp add: send_token_def token_word_def binary_str_to_uint32_bin_value SPIWrite_whole)

lemma send_bank_eq:
  "32 \<le> length tok \<Longrightarrow> length buf = len * 4 \<Longrightarrow>
   send_bank tok len buf l = Inr (l @ [be_bytes (token_word tok), buf])"
  by (simp add: send_bank_def send_token_eq SPIWrite_whole)

lemma length_tokens [simp]:
  "length BLOCK_IDX_BANK_CONFIG_ADDR = 32" "length ROW_CNT_BANK0_CONFIG_ADDR = 32"
  "length ROW_CNT_BANK1_CONFIG_ADDR = 32" "length ROW_CNT_BANK2_CONFIG_ADDR = 32"
  "length ROW_CNT_BANK3_CONFIG_ADDR = 32" "length ROW_CNT_BANK4_CONFIG_ADDR = 32"
  "length CCL_IDX_BANK0_CONFIG_ADDR = 32" "length CCL_IDX_BANK1_CONFIG_ADDR = 32"
  "length CCL_IDX_BANK2_CONFIG_ADDR = 32" "length CCL_IDX_BANK3_CONFIG_ADDR = 32"
  "length CCL_IDX_BANK4_CONFIG_ADDR = 32" "length WEIGHT_BANK0_CONFIG_ADDR = 32"
  "length CONF_SPI_EN_INF_ADDR = 32" "length CONF_SPI_EN_INF_DATA = 32"
  by (simp_all add: tokens)

lemma initial_TMA_eq:
  assumes "buffers_ok m"
  shows "initial_TMA m l = Inr (XST_SUCCESS, l @ image m)"
  using assms unfolding initial_TMA_def image_def buffers_ok_def
  by (simp add: send_bank_eq send_token_eq SPIWrite_whole)

end
