(* ===== verification/Loader_Props.thy ===== *)
theory Loader_Props
  imports Text_Files Bank_Loader
begin

text \<open>
  What the loader guarantees: the wire format loses nothing, the readers stay
  inside their buffers and store the values of the well-formed lines in file
  order, the load puts a fixed sequence of bursts on the link, and the burst of
  a bank carries the words of its file (\<open>banks\<close>). Three theorems record what the
  loader does when the card is not what it expects: a missing file is not an
  error, a short file is padded to the full capacity, and a card that does not
  mount is formatted.
\<close>

section \<open>Wire format\<close>

text \<open>
  C16. The four bytes written for a 32-bit value are the value, most
  significant byte first: reading them back as a big-endian word gives the
  value again, for every value.
\<close>

theorem be_bytes_roundtrip: "be_word (be_bytes v) = v \<and> length (be_bytes v) = 4"
  by simp

text \<open>
  C17. \<open>binary_str_to_uint32\<close> on a string of at least 32 characters returns
  the number whose binary digits, most significant first, are the first 32
  characters (a character other than \<open>1\<close> counts as \<open>0\<close>).
\<close>

theorem binary_str_to_uint32_value:
  assumes "32 \<le> length str"
  shows "binary_str_to_uint32 str = Inr (of_nat (bin_value (take 32 str)))"
  using assms by (rule binary_str_to_uint32_bin_value)

theorem binary_str_to_uint32_value_witness:
  "binary_str_to_uint32 BLOCK_IDX_BANK_CONFIG_ADDR = Inr 0x9047F000"
  using binary_str_to_uint32_value [of BLOCK_IDX_BANK_CONFIG_ADDR]
  by (simp add: BLOCK_IDX_BANK_CONFIG_ADDR_def bin_value_def)

section \<open>Readers\<close>

lemma put_words_front:
  assumes "4 * length ws \<le> length buf"
  shows "be_words (take (4 * length ws) (put_words buf 0 ws)) = ws"
    and "drop (4 * length ws) (put_words buf 0 ws) = drop (4 * length ws) buf"
    and "length (put_words buf 0 ws) = length buf"
  using assms by (simp_all add: put_words_def)

text \<open>
  C18. \<open>sd_read_binary\<close> on a text file (lines ended by a line feed, each at
  most 126 characters) with room for \<open>max_lines\<close> words in the buffer returns
  0 and stores, from the start of the buffer and in file order, one big-endian
  word per well-formed line: the value of the line's first \<open>bit_len\<close>
  characters read as a binary number. Lines that are not well formed store
  nothing and are not counted; at most \<open>max_lines\<close> words are stored; the rest
  of the buffer is unchanged.
\<close>

theorem sd_read_binary_text:
  assumes "files c file_name = Some (lines_text ls)" and "list_all (text_line 128) ls"
    and "4 * max_lines \<le> length dest_buf"
  shows "\<exists>buf ws. sd_read_binary c file_name dest_buf bit_len max_lines = Inr (0, buf) \<and>
           ws = take max_lines (map (line_value bit_len) (filter (well_formed bit_len) ls)) \<and>
           be_words (take (4 * length ws) buf) = ws \<and>
           drop (4 * length ws) buf = drop (4 * length ws) dest_buf \<and>
           length buf = length dest_buf"
proof -
  let ?ws = "take max_lines (map (line_value bit_len) (filter (well_formed bit_len) ls))"
  have "length ?ws \<le> max_lines" by simp
  with assms(3) have room: "4 * length ?ws \<le> length dest_buf" by linarith
  from sd_read_binary_eq [OF assms(1,3)] binary_words_text [OF assms(2)]
  have "sd_read_binary c file_name dest_buf bit_len max_lines =
        Inr (0, put_words dest_buf 0 ?ws)"
    by simp
  with put_words_front [OF room] show ?thesis by blast
qed

theorem sd_read_binary_text_witness:
  "\<exists>buf. sd_read_binary \<lparr>fat_volume = True, mkfs_works = True, mounts_after_format = True,
                   files = [''row.dat'' \<mapsto> lines_text [''000101'', ''# rows'', ''0011'', ''111111 x'']]\<rparr>
     ''row.dat'' (replicate 12 0xAA) 6 3 =
   Inr (0, buf) \<and>
   be_words (take 8 buf) = [5, 63] \<and> drop 8 buf = replicate 4 0xAA \<and> length buf = 12"
proof -
  let ?ls = "[''000101'', ''# rows'', ''0011'', ''111111 x'']"
  let ?c = "\<lparr>fat_volume = True, mkfs_works = True, mounts_after_format = True,
             files = [''row.dat'' \<mapsto> lines_text ?ls]\<rparr>"
  have ws: "take 3 (map (line_value 6) (filter (well_formed 6) ?ls)) = [5, 63]"
    by (simp add: well_formed_def is_bit_def line_value_def bin_value_def)
  have "files ?c ''row.dat'' = Some (lines_text ?ls)" "list_all (text_line 128) ?ls"
    "4 * 3 \<le> length (replicate 12 (0xAA :: u8))"
    by (simp_all add: text_line_def)
  from sd_read_binary_text [OF this, of 6] show ?thesis
    unfolding ws by auto
qed

text \<open>
  C19. With room for \<open>max_lines\<close> words, \<open>sd_read_binary\<close> never writes
  outside the buffer, whatever the file holds: it returns a status and a
  buffer of the same length; the status is \<open>-1\<close> exactly when the file cannot
  be opened, and then the buffer is untouched.
\<close>

theorem sd_read_binary_in_bounds:
  assumes "4 * max_lines \<le> length dest_buf"
  shows "\<exists>buf. sd_read_binary c file_name dest_buf bit_len max_lines =
                  Inr (if files c file_name = None then - 1 else 0, buf) \<and>
               length buf = length dest_buf \<and>
               (files c file_name = None \<longrightarrow> buf = dest_buf)"
proof -
  have "files c file_name = None \<Longrightarrow>
        binary_payload c file_name bit_len max_lines dest_buf = dest_buf"
    by (simp add: binary_payload_def)
  with sd_read_binary_payload [OF assms, of c file_name bit_len]
    length_binary_payload [OF assms, of c file_name bit_len]
  show ?thesis by simp
qed

theorem sd_read_binary_in_bounds_witness:
  "\<exists>buf. sd_read_binary \<lparr>fat_volume = True, mkfs_works = True, mounts_after_format = True,
                          files = [''a'' \<mapsto> ''1011'']\<rparr> ''a'' (replicate 8 0) 4 2 =
            Inr (0, buf) \<and> length buf = 8"
  using sd_read_binary_in_bounds [of 2 "replicate 8 0"
      "\<lparr>fat_volume = True, mkfs_works = True, mounts_after_format = True,
        files = [''a'' \<mapsto> ''1011'']\<rparr>" "''a''" 4]
  by simp

section \<open>The load\<close>

text \<open>
  C20. \<open>read_model_data\<close> on buffers of the declared sizes never writes
  outside a buffer, whatever the card holds, and leaves every buffer at its
  declared size: the sizes are an invariant of the read step.
\<close>

theorem read_model_data_buffers_ok:
  assumes "buffers_ok m"
  shows "\<exists>m'. read_model_data c m = Inr m' \<and> buffers_ok m'"
  using read_model_data_eq [OF assms] buffers_ok_payloads [OF assms] by simp

theorem read_model_data_buffers_ok_witness:
  "\<exists>m'. read_model_data \<lparr>fat_volume = True, mkfs_works = True, mounts_after_format = True,
                           files = [CONF_ROW_BANK0_FILE_NAME \<mapsto> lines_text [''000101'']]\<rparr>
            init_buffers = Inr m' \<and> buffers_ok m'"
  using read_model_data_buffers_ok [OF buffers_ok_init] by simp

lemma length_image [simp]: "length (image m) = 27"
  by (simp add: image_def)

text \<open>
  C21. \<open>initial_TMA\<close> on buffers of the declared sizes returns \<open>XST_SUCCESS\<close>
  and appends to the link exactly 27 bursts in catalog order: the
  configuration registers without a token, then for the block bank, the row
  banks 0 to 4, the column-class banks 0 to 4 and the weight bank the four
  token bytes followed by the whole buffer, then the inference-enable token
  and its data word. The bursts depend on the buffers only.
\<close>

theorem initial_TMA_image:
  assumes "buffers_ok m"
  shows "initial_TMA m l = Inr (XST_SUCCESS, l @ image m) \<and> length (image m) = 27"
  using initial_TMA_eq [OF assms] by simp

theorem initial_TMA_image_witness:
  "initial_TMA init_buffers [] = Inr (XST_SUCCESS, image init_buffers) \<and>
   length (image init_buffers) = 27"
  using initial_TMA_image [OF buffers_ok_init, of "[]"] by simp

section \<open>Tokens\<close>

lemma token_words:
  "token_word BLOCK_IDX_BANK_CONFIG_ADDR = 0x9047F000"
  "token_word ROW_CNT_BANK0_CONFIG_ADDR = 0xA0637000"
  "token_word ROW_CNT_BANK1_CONFIG_ADDR = 0xA2651000"
  "token_word ROW_CNT_BANK2_CONFIG_ADDR = 0xA465A000"
  "token_word ROW_CNT_BANK3_CONFIG_ADDR = 0xA664D000"
  "token_word ROW_CNT_BANK4_CONFIG_ADDR = 0xA8683000"
  "token_word CCL_IDX_BANK0_CONFIG_ADDR = 0xB0C36000"
  "token_word CCL_IDX_BANK1_CONFIG_ADDR = 0xB2C29000"
  "token_word CCL_IDX_BANK2_CONFIG_ADDR = 0xB4C1A000"
  "token_word CCL_IDX_BANK3_CONFIG_ADDR = 0xB6C23000"
  "token_word CCL_IDX_BANK4_CONFIG_ADDR = 0xB8C71000"
  "token_word WEIGHT_BANK0_CONFIG_ADDR = 0xC059F000"
  "token_word CONF_SPI_EN_INF_ADDR = 0x80000001"
  "token_word CONF_SPI_EN_INF_DATA = 0x00000001"
  by (simp_all add: token_word_def tokens bin_value_def)

section \<open>From the files to the link\<close>

text \<open>
  The banks that \<open>read_model_data\<close> fills and \<open>initial_TMA\<close> sends after a
  token, as the calls of the two functions name them: the file, how its lines
  are read (\<open>Binary n\<close> by \<open>sd_read_binary\<close> with \<open>n\<close> bits, \<open>Hex\<close> by
  \<open>sd_read_hex\<close>), the capacity, the buffer, the token, and the position of
  the token among the 27 bursts of a load. The configuration registers, sent
  first and without a token, are not in the table. \<open>file_words\<close> is what a
  reader stores for a text file, \<open>line_limit\<close> the size of its line buffer.
\<close>

datatype line_format = Binary nat | Hex

record bank =
  bank_file :: string
  bank_format :: line_format
  bank_len :: nat
  bank_buffer :: "model_buffers \<Rightarrow> u8 list"
  bank_token :: string
  bank_slot :: nat

definition banks :: "bank list" where
  "banks =
     [\<lparr>bank_file = CONF_BLOCK_BANK_FILE_NAME, bank_format = Binary 20, bank_len = LEN_BLOCK_BANK,
       bank_buffer = Conf_block_Buffer, bank_token = BLOCK_IDX_BANK_CONFIG_ADDR, bank_slot = 1\<rparr>,
      \<lparr>bank_file = CONF_ROW_BANK0_FILE_NAME, bank_format = Binary 6, bank_len = LEN_ROW_BANK0,
       bank_buffer = Conf_row_Buffer0, bank_token = ROW_CNT_BANK0_CONFIG_ADDR, bank_slot = 3\<rparr>,
      \<lparr>bank_file = CONF_ROW_BANK1_FILE_NAME, bank_format = Binary 6, bank_len = LEN_ROW_BANK1,
       bank_buffer = Conf_row_Buffer1, bank_token = ROW_CNT_BANK1_CONFIG_ADDR, bank_slot = 5\<rparr>,
      \<lparr>bank_file = CONF_ROW_BANK2_FILE_NAME, bank_format = Binary 6, bank_len = LEN_ROW_BANK2,
       bank_buffer = Conf_row_Buffer2, bank_token = ROW_CNT_BANK2_CONFIG_ADDR, bank_slot = 7\<rparr>,
      \<lparr>bank_file = CONF_ROW_BANK3_FILE_NAME, bank_format = Binary 6, bank_len = LEN_ROW_BANK3,
       bank_buffer = Conf_row_Buffer3, bank_token = ROW_CNT_BANK3_CONFIG_ADDR, bank_slot = 9\<rparr>,
      \<lparr>bank_file = CONF_ROW_BANK4_FILE_NAME, bank_format = Binary 6, bank_len = LEN_ROW_BANK4,
       bank_buffer = Conf_row_Buffer4, bank_token = ROW_CNT_BANK4_CONFIG_ADDR, bank_slot = 11\<rparr>,
      \<lparr>bank_file = CONF_CCL_BANK0_FILE_NAME, bank_format = Binary 5, bank_len = LEN_CCL_BANK0,
       bank_buffer = Conf_ccl_Buffer0, bank_token = CCL_IDX_BANK0_CONFIG_ADDR, bank_slot = 13\<rparr>,
      \<lparr>bank_file = CONF_CCL_BANK1_FILE_NAME, bank_format = Binary 5, bank_len = LEN_CCL_BANK1,
       bank_buffer = Conf_ccl_Buffer1, bank_token = CCL_IDX_BANK1_CONFIG_ADDR, bank_slot = 15\<rparr>,
      \<lparr>bank_file = CONF_CCL_BANK2_FILE_NAME, bank_format = Binary 5, bank_len = LEN_CCL_BANK2,
       bank_buffer = Conf_ccl_Buffer2, bank_token = CCL_IDX_BANK2_CONFIG_ADDR, bank_slot = 17\<rparr>,
      \<lparr>bank_file = CONF_CCL_BANK3_FILE_NAME, bank_format = Binary 5, bank_len = LEN_CCL_BANK3,
       bank_buffer = Conf_ccl_Buffer3, bank_token = CCL_IDX_BANK3_CONFIG_ADDR, bank_slot = 19\<rparr>,
      \<lparr>bank_file = CONF_CCL_BANK4_FILE_NAME, bank_format = Binary 5, bank_len = LEN_CCL_BANK4,
       bank_buffer = Conf_ccl_Buffer4, bank_token = CCL_IDX_BANK4_CONFIG_ADDR, bank_slot = 21\<rparr>,
      \<lparr>bank_file = CONF_WEIGHT_BANK_FILE_NAME, bank_format = Hex, bank_len = LEN_WEIGHT_BANK,
       bank_buffer = Conf_weight_Buffer, bank_token = WEIGHT_BANK0_CONFIG_ADDR, bank_slot = 23\<rparr>]"

fun file_words :: "line_format \<Rightarrow> nat \<Rightarrow> string list \<Rightarrow> u32 list" where
  "file_words (Binary bit_len) max_lines ls =
     take max_lines (map (line_value bit_len) (filter (well_formed bit_len) ls))"
| "file_words Hex max_lines ls = take max_lines (map (\<lambda>l. strtoul16 (l @ [CHR 0x0A])) ls)"

fun line_limit :: "line_format \<Rightarrow> nat" where
  "line_limit (Binary bit_len) = 128"
| "line_limit Hex = 32"

fun payload :: "line_format \<Rightarrow> card \<Rightarrow> string \<Rightarrow> nat \<Rightarrow> u8 list \<Rightarrow> u8 list" where
  "payload (Binary bit_len) c file_name max_lines buf =
     binary_payload c file_name bit_len max_lines buf"
| "payload Hex c file_name max_lines buf = hex_payload c file_name max_lines buf"

lemma image_bank:
  assumes "b \<in> set banks"
  shows "image m ! bank_slot b = be_bytes (token_word (bank_token b))"
    and "image m ! Suc (bank_slot b) = bank_buffer b m"
  using assms by (auto simp: banks_def image_def)

lemma payloads_bank:
  assumes "b \<in> set banks"
  shows "bank_buffer b (payloads c m) =
         payload (bank_format b) c (bank_file b) (bank_len b) (bank_buffer b m)"
  using assms by (auto simp: banks_def payloads_def)

lemma buffers_ok_bank:
  assumes "buffers_ok m" and "b \<in> set banks"
  shows "length (bank_buffer b m) = 4 * bank_len b"
  using assms by (auto simp: banks_def buffers_ok_def)

lemma payload_text:
  assumes "files c file_name = Some (lines_text ls)"
    and "list_all (text_line (line_limit fmt)) ls"
  shows "payload fmt c file_name max_lines buf =
         concat (map be_bytes (file_words fmt max_lines ls)) @
         drop (4 * length (file_words fmt max_lines ls)) buf"
proof (cases fmt)
  case (Binary bit_len)
  with assms show ?thesis
    by (simp add: binary_payload_def binary_words_text put_words_def)
next
  case Hex
  with assms show ?thesis
    by (simp add: hex_payload_def hex_words_text put_words_def)
qed

text \<open>
  C22. From a file to the link. For every bank of the table whose file is a
  text file (lines ended by a line feed and shorter than the line buffer of
  its reader), \<open>read_model_data\<close> followed by \<open>initial_TMA\<close> puts on the link,
  at the bank's position, the four bytes of the bank's token and then one
  burst of the bank's full size: the big-endian words the reader stores for
  the lines of the file, in file order and at most as many as the capacity,
  followed by what the buffer held before at the places after them.
\<close>

theorem file_to_link:
  assumes "buffers_ok m" and "b \<in> set banks"
    and "files c (bank_file b) = Some (lines_text ls)"
    and "list_all (text_line (line_limit (bank_format b))) ls"
  shows "\<exists>m' l' ws. read_model_data c m = Inr m' \<and>
           initial_TMA m' l = Inr (XST_SUCCESS, l @ l') \<and>
           ws = file_words (bank_format b) (bank_len b) ls \<and>
           l' ! bank_slot b = be_bytes (token_word (bank_token b)) \<and>
           l' ! Suc (bank_slot b) =
             concat (map be_bytes ws) @ drop (4 * length ws) (bank_buffer b m) \<and>
           length (l' ! Suc (bank_slot b)) = 4 * bank_len b"
proof -
  let ?m = "payloads c m"
  let ?ws = "file_words (bank_format b) (bank_len b) ls"
  from assms(1) have ok: "buffers_ok ?m" by (rule buffers_ok_payloads)
  have content: "image ?m ! Suc (bank_slot b) =
      concat (map be_bytes ?ws) @ drop (4 * length ?ws) (bank_buffer b m)"
    by (simp only: image_bank(2) [OF assms(2)] payloads_bank [OF assms(2)]
        payload_text [OF assms(3,4)])
  have size: "length (image ?m ! Suc (bank_slot b)) = 4 * bank_len b"
    by (simp only: image_bank(2) [OF assms(2)] buffers_ok_bank [OF ok assms(2)])
  from read_model_data_eq [OF assms(1), of c] initial_TMA_eq [OF ok, of l]
    image_bank(1) [OF assms(2), of ?m] content size
  show ?thesis by blast
qed

theorem file_to_link_witness:
  "\<exists>m' l'. read_model_data \<lparr>fat_volume = True, mkfs_works = True,
               mounts_after_format = True,
               files = [CONF_ROW_BANK0_FILE_NAME \<mapsto>
                          lines_text [''000101'', ''# rows'', ''111111'']]\<rparr>
             init_buffers = Inr m' \<and>
           initial_TMA m' [] = Inr (XST_SUCCESS, l') \<and>
           l' ! 3 = [0xA0, 0x63, 0x70, 0] \<and>
           l' ! 4 = [0, 0, 0, 5, 0, 0, 0, 63] @ replicate 6360 0"
proof -
  let ?ls = "[''000101'', ''# rows'', ''111111'']"
  let ?c = "\<lparr>fat_volume = True, mkfs_works = True, mounts_after_format = True,
             files = [CONF_ROW_BANK0_FILE_NAME \<mapsto> lines_text ?ls]\<rparr>"
  let ?b = "banks ! 1"
  have ws: "file_words (bank_format ?b) (bank_len ?b) ?ls = [5, 63]"
    by (simp add: banks_def well_formed_def is_bit_def line_value_def bin_value_def
        LEN_ROW_BANK0_def)
  have "?b \<in> set banks" "files ?c (bank_file ?b) = Some (lines_text ?ls)"
    "list_all (text_line (line_limit (bank_format ?b))) ?ls"
    by (simp_all add: banks_def text_line_def)
  from file_to_link [OF buffers_ok_init this, of "[]"] show ?thesis
    unfolding ws
    by (auto simp: banks_def init_buffers_def LEN_ROW_BANK0_def token_words
        be_bytes_unfold drop_bit_eq_div)
qed

section \<open>When the card is not what the loader expects\<close>

lemma payloads_no_files: "files c = Map.empty \<Longrightarrow> payloads c m = m"
  by (simp add: payloads_def binary_payload_def hex_payload_def)

text \<open>
  C23. A missing file does not stop the load. On a card without any of the
  files \<open>read_model_data\<close> returns normally with every buffer as it was, and
  \<open>initial_TMA\<close> then sends the complete image, inference-enable token included,
  and returns \<open>XST_SUCCESS\<close>: the status \<open>-1\<close> of the readers is never looked at.
\<close>

theorem missing_files_not_fatal:
  assumes "files c = Map.empty" and "buffers_ok m"
  shows "read_model_data c m = Inr m \<and>
         initial_TMA m [] = Inr (XST_SUCCESS, image m) \<and>
         last (image m) = be_bytes (token_word CONF_SPI_EN_INF_DATA)"
  using read_model_data_eq [OF assms(2), of c] initial_TMA_eq [OF assms(2), of "[]"]
  by (simp add: payloads_no_files [OF assms(1)] image_def)

theorem missing_files_not_fatal_witness:
  "read_model_data \<lparr>fat_volume = True, mkfs_works = True, mounts_after_format = True,
                    files = Map.empty\<rparr> init_buffers = Inr init_buffers \<and>
   initial_TMA init_buffers [] = Inr (XST_SUCCESS, image init_buffers) \<and>
   last (image init_buffers) = [0, 0, 0, 1]"
  using missing_files_not_fatal [OF _ buffers_ok_init,
      of "\<lparr>fat_volume = True, mkfs_works = True, mounts_after_format = True,
           files = Map.empty\<rparr>"]
  by (simp add: token_words be_bytes_unfold drop_bit_eq_div)

text \<open>
  C24. The size of every burst is fixed by the catalog and does not depend on
  the files: \<open>read_model_data\<close> on any card followed by \<open>initial_TMA\<close> appends
  27 bursts to the link, of the lengths \<open>4 * LEN_*\<close> of the capacities (and 4
  for a token), however many lines each file had.
\<close>

theorem burst_sizes_fixed:
  assumes "buffers_ok m"
  shows "\<exists>m' l'. read_model_data c m = Inr m' \<and>
           initial_TMA m' l = Inr (XST_SUCCESS, l @ l') \<and>
           map length l' =
             [112, 4, 4608, 4, 6368, 4, 6472, 4, 6508, 4, 6456, 4, 6672,
              4, 12508, 4, 12456, 4, 12396, 4, 12432, 4, 12744, 4, 5760, 4, 4]"
proof -
  from assms have ok: "buffers_ok (payloads c m)" by (rule buffers_ok_payloads)
  then have "map length (image (payloads c m)) =
      [112, 4, 4608, 4, 6368, 4, 6472, 4, 6508, 4, 6456, 4, 6672,
       4, 12508, 4, 12456, 4, 12396, 4, 12432, 4, 12744, 4, 5760, 4, 4]"
    by (simp add: image_def buffers_ok_def capacities)
  with read_model_data_eq [OF assms, of c] initial_TMA_eq [OF ok, of l]
  show ?thesis by simp
qed

theorem burst_sizes_fixed_witness:
  "\<exists>m' l'. read_model_data \<lparr>fat_volume = True, mkfs_works = True,
               mounts_after_format = True,
               files = [CONF_ROW_BANK0_FILE_NAME \<mapsto> lines_text [''000101'']]\<rparr>
             init_buffers = Inr m' \<and>
           initial_TMA m' [] = Inr (XST_SUCCESS, l') \<and>
           map length l' =
             [112, 4, 4608, 4, 6368, 4, 6472, 4, 6508, 4, 6456, 4, 6672,
              4, 12508, 4, 12456, 4, 12396, 4, 12432, 4, 12744, 4, 5760, 4, 4]"
  using burst_sizes_fixed [OF buffers_ok_init, of _ "[]"] by simp

text \<open>
  C25. A card whose volume does not mount is formatted. When the first
  \<open>f_mount\<close> fails and \<open>f_mkfs\<close> succeeds, \<open>sd_mount\<close> leaves a card without
  files, and returns \<open>XST_SUCCESS\<close> when the fresh volume mounts: the model
  files that were on the card are gone and the load goes on with empty
  buffers.
\<close>

theorem sd_mount_formats:
  assumes "\<not> fat_volume c" and "mkfs_works c"
  shows "files (snd (sd_mount c)) = Map.empty \<and>
         fst (sd_mount c) = (if mounts_after_format c then XST_SUCCESS else XST_FAILURE)"
  using assms by (simp add: sd_mount_cases)

theorem sd_mount_formats_witness:
  "sd_mount \<lparr>fat_volume = False, mkfs_works = True, mounts_after_format = True,
             files = [CONF_REG_FILE_NAME \<mapsto> ''0101'']\<rparr> =
   (XST_SUCCESS, \<lparr>fat_volume = True, mkfs_works = True, mounts_after_format = True,
                  files = Map.empty\<rparr>)"
  using sd_mount_formats [of "\<lparr>fat_volume = False, mkfs_works = True,
      mounts_after_format = True, files = [CONF_REG_FILE_NAME \<mapsto> ''0101'']\<rparr>"]
  by (simp add: sd_mount_cases)

section \<open>The weight file\<close>

text \<open>
  C26. \<open>sd_read_hex\<close> on a text file (lines of at most 30 characters) with room
  for \<open>max_lines\<close> words returns 0 and stores one big-endian word per line, in
  file order, for the first \<open>max_lines\<close> lines: the value of the line as
  \<open>strtoul\<close> reads it in base 16, which for a line of one to eight hexadecimal
  digits is the number they write. No line is skipped: a line that is not a
  number takes a slot like any other.
\<close>

theorem sd_read_hex_text:
  assumes "files c file_name = Some (lines_text ls)" and "list_all (text_line 32) ls"
    and "4 * max_lines \<le> length dest_buf"
  shows "\<exists>buf ws. sd_read_hex c file_name dest_buf max_lines = Inr (0, buf) \<and>
           ws = take max_lines (map (\<lambda>l. strtoul16 (l @ [CHR 0x0A])) ls) \<and>
           length ws = min max_lines (length ls) \<and>
           (\<forall>i<length ws. hex_line (ls ! i) \<longrightarrow> ws ! i = of_nat (hex_value (ls ! i))) \<and>
           be_words (take (4 * length ws) buf) = ws \<and>
           drop (4 * length ws) buf = drop (4 * length ws) dest_buf \<and>
           length buf = length dest_buf"
proof -
  let ?ws = "take max_lines (map (\<lambda>l. strtoul16 (l @ [CHR 0x0A])) ls)"
  have len: "length ?ws = min max_lines (length ls)" by simp
  with assms(3) have room: "4 * length ?ws \<le> length dest_buf" by simp
  from sd_read_hex_eq [OF assms(1,3)] hex_words_text [OF assms(2)]
  have r: "sd_read_hex c file_name dest_buf max_lines = Inr (0, put_words dest_buf 0 ?ws)"
    by simp
  have "\<forall>i<length ?ws. hex_line (ls ! i) \<longrightarrow> ?ws ! i = of_nat (hex_value (ls ! i))"
    by (simp add: strtoul16_hex_line)
  with r len put_words_front [OF room] show ?thesis by blast
qed

theorem sd_read_hex_text_witness:
  "\<exists>buf. sd_read_hex \<lparr>fat_volume = True, mkfs_works = True, mounts_after_format = True,
            files = [''w.dat'' \<mapsto> lines_text [''00FF12ab'', '''', ''7'']]\<rparr>
          ''w.dat'' (replicate 16 0xEE) 4 = Inr (0, buf) \<and>
        be_words (take 12 buf) = [0x00FF12AB, 0, 7] \<and> drop 12 buf = replicate 4 0xEE"
proof -
  let ?ls = "[''00FF12ab'', '''', ''7'']"
  let ?c = "\<lparr>fat_volume = True, mkfs_works = True, mounts_after_format = True,
             files = [''w.dat'' \<mapsto> lines_text ?ls]\<rparr>"
  have h: "hex_line ''00FF12ab''" "hex_line ''7''"
    by (simp_all add: hex_line_def hex_digit_def)
  have a: "strtoul16 (''00FF12ab'' @ [CHR 0x0A]) = 0x00FF12AB"
    "strtoul16 (''7'' @ [CHR 0x0A]) = 7"
    by (simp_all only: strtoul16_hex_line [OF h(1)] strtoul16_hex_line [OF h(2)])
       (simp_all add: hex_value_def hex_digit_def)
  have b: "strtoul16 ('''' @ [CHR 0x0A]) = 0"
    by (simp add: strtoul16_def is_space_def)
  have ws: "take 4 (map (\<lambda>l. strtoul16 (l @ [CHR 0x0A])) ?ls) = [0x00FF12AB, 0, 7]"
    by (simp add: a [simplified] b [simplified])
  have "files ?c ''w.dat'' = Some (lines_text ?ls)" "list_all (text_line 32) ?ls"
    "4 * 4 \<le> length (replicate 16 (0xEE :: u8))"
    by (simp_all add: text_line_def)
  from sd_read_hex_text [OF this] show ?thesis
    unfolding ws by auto
qed

end
