(* ===== verification/Aggregator.thy ===== *)
theory Aggregator
  imports KWS_Prelude
begin

text \<open>
  The result aggregator of \<^verbatim>\<open>main_codec.c\<close>: the body that \<^verbatim>\<open>main\<close> runs once per
  completion notification (lines 164--268). Its state is the variables that
  survive from one notification to the next: the circular window and its write
  index, the per-class occupancy counts, the previous raw code, the detection
  state and the globals \<^verbatim>\<open>print_flag\<close>, \<^verbatim>\<open>fill_silence_cnt\<close>,
  \<^verbatim>\<open>consecutive_time\<close>, \<^verbatim>\<open>consecutive_result\<close>. Each block of the loop body is
  one definition, named after the comment that heads it in the source, and
  \<open>process_result\<close> composes them in the order of the code. An access to
  \<^verbatim>\<open>result_count\<close>, \<^verbatim>\<open>result_window\<close> or \<^verbatim>\<open>label\<close> outside the array is a
  \<open>fault\<close>: C leaves it undefined, and the model stops there.
\<close>

section \<open>Constants and data\<close>

definition WINDOW_SIZE :: nat where
  "WINDOW_SIZE = 40"

definition FILL_SILENCE_MAX_CNT :: u8 where
  "FILL_SILENCE_MAX_CNT = 40"

definition DETECTING_CONS_RESULT_CNT :: u8 where
  "DETECTING_CONS_RESULT_CNT = 20"

text \<open>The size of \<^verbatim>\<open>result_count\<close> and \<^verbatim>\<open>label\<close>, and the code of silence (the
  literals 12 and 10 of the source).\<close>

definition NUM_CLASSES :: nat where
  "NUM_CLASSES = 12"

definition SILENCE :: u8 where
  "SILENCE = 10"

definition label :: "string list" where
  "label = [''yes'', ''no'', ''up'', ''down'', ''left'', ''right'',
            ''on'', ''off'', ''stop'', ''go'', ''silence'', ''unknown'']"

text \<open>
  The enumeration \<^verbatim>\<open>sys_state\<close>. An object of a C enumeration type can hold any
  value of its integer type; the second \<^verbatim>\<open>switch\<close> of the loop has a
  \<^verbatim>\<open>default\<close> branch for that case, which \<open>out_of_enum\<close> makes reachable in
  the model.
\<close>

datatype sys_state = detecting | fill_silence | out_of_enum int

datatype fault =
    WindowIndex nat
  | CountIndex u8
  | LabelIndex u8

text \<open>The two \<^verbatim>\<open>printf\<close> calls of a detection: the twelve counts, then the label.\<close>

datatype printed =
    CountsLine "u8 list"
  | DetectLine string

record aggregator =
  window_idx :: nat
  result_window :: "u8 list"
  result_count :: "u8 list"
  max_result :: u8
  max_result_count :: u8
  last_result :: u8
  current_state :: sys_state
  print_flag :: u8
  fill_silence_cnt :: u8
  consecutive_time :: u8
  consecutive_result :: u8

text \<open>
  The state before the first notification (lines 66--71 and 77--92).
  \<^verbatim>\<open>max_result\<close> and \<^verbatim>\<open>max_result_count\<close> are not initialised by the source;
  every notification writes them before it reads them, so the model starts them
  at 0.
\<close>

definition init_aggregator :: aggregator where
  "init_aggregator =
     \<lparr>window_idx = 0,
      result_window = replicate WINDOW_SIZE SILENCE,
      result_count = (replicate NUM_CLASSES 0)[unat SILENCE := of_nat WINDOW_SIZE],
      max_result = 0,
      max_result_count = 0,
      last_result = SILENCE,
      current_state = detecting,
      print_flag = 0,
      fill_silence_cnt = 0,
      consecutive_time = 0,
      consecutive_result = 0\<rparr>"

section \<open>The blocks of the loop body\<close>

text \<open>Lines 168--172: the four result pins, assembled into one code.\<close>

definition get_result :: "u8 \<Rightarrow> u8 \<Rightarrow> u8 \<Rightarrow> u8 \<Rightarrow> u8" where
  "get_result b0 b1 b2 b3 =
     (push_bit 3 b3 OR push_bit 2 b2 OR push_bit 1 b1 OR push_bit 0 b0)"

text \<open>Line 175: the class in the slot about to be overwritten loses one count.\<close>

definition pop_element :: "aggregator \<Rightarrow> fault + aggregator" where
  "pop_element s =
     (if window_idx s < WINDOW_SIZE then
        let c = result_window s ! window_idx s in
        if unat c < NUM_CLASSES then
          Inr (s\<lparr>result_count := (result_count s)[unat c := result_count s ! unat c - 1]\<rparr>)
        else Inl (CountIndex c)
      else Inl (WindowIndex (window_idx s)))"

text \<open>Lines 178--188: the slot takes the new code if it repeats the previous raw
  code and silence otherwise; in the state \<open>fill_silence\<close> it takes silence.\<close>

definition update_element :: "u8 \<Rightarrow> aggregator \<Rightarrow> aggregator" where
  "update_element result s =
     (let w1 = (if result = last_result s
                then (result_window s)[window_idx s := result]
                else (result_window s)[window_idx s := SILENCE]);
          w2 = (if current_state s = fill_silence
                then w1[window_idx s := SILENCE]
                else w1)
      in s\<lparr>result_window := w2\<rparr>)"

text \<open>Line 191: the class now in the slot gains one count.\<close>

definition update_count :: "aggregator \<Rightarrow> fault + aggregator" where
  "update_count s =
     (let c = result_window s ! window_idx s in
      if unat c < NUM_CLASSES then
        Inr (s\<lparr>result_count := (result_count s)[unat c := result_count s ! unat c + 1]\<rparr>)
      else Inl (CountIndex c))"

text \<open>Lines 194--197: the write index moves on and wraps at the window size.\<close>

definition update_index :: "aggregator \<Rightarrow> aggregator" where
  "update_index s =
     (let i = window_idx s + 1 in
      s\<lparr>window_idx := (if i = WINDOW_SIZE then 0 else i)\<rparr>)"

text \<open>Lines 200--207: the most frequent class, the first one found under a
  strict comparison. The loop runs over the indices below 12.\<close>

function average_loop :: "u8 list \<Rightarrow> nat \<Rightarrow> u8 \<times> u8 \<Rightarrow> u8 \<times> u8" where
  "average_loop cnt i (m, mc) =
     (if i < NUM_CLASSES then
        (if cnt ! i > mc
         then average_loop cnt (Suc i) (of_nat i, cnt ! i)
         else average_loop cnt (Suc i) (m, mc))
      else (m, mc))"
  by pat_completeness auto
termination
  by (relation "measure (\<lambda>(cnt, i, p). NUM_CLASSES - i)") auto

declare average_loop.simps [simp del]

definition calc_average_result :: "aggregator \<Rightarrow> aggregator" where
  "calc_average_result s =
     (let (m, mc) = average_loop (result_count s) 0 (0, 0)
      in s\<lparr>max_result := m, max_result_count := mc\<rparr>)"

text \<open>
  Lines 209--233: the consensus scan. The loop state is the iteration number,
  \<^verbatim>\<open>start_idx\<close>, \<^verbatim>\<open>consecutive_time\<close> and \<^verbatim>\<open>consecutive_result\<close>; the result is
  the last two and whether the loop left through its \<^verbatim>\<open>break\<close>.
\<close>

function consecutive_loop ::
  "u8 list \<Rightarrow> sys_state \<Rightarrow> nat \<Rightarrow> nat \<Rightarrow> u8 \<Rightarrow> u8 \<Rightarrow> u8 \<times> u8 \<times> bool" where
  "consecutive_loop w st i start_idx ct cr =
     (if i < WINDOW_SIZE then
        (let (ct', cr') = (if cr = w ! start_idx then (ct + 1, cr)
                            else (0, w ! start_idx))
         in if ct' = DETECTING_CONS_RESULT_CNT \<and> cr' \<noteq> SILENCE \<and> st = detecting
            then (ct', cr', True)
            else consecutive_loop w st (Suc i)
                   (if Suc start_idx = WINDOW_SIZE then 0 else Suc start_idx) ct' cr')
      else (ct, cr, False))"
  by pat_completeness auto
termination
  by (relation "measure (\<lambda>(w, st, i, start_idx, ct, cr). WINDOW_SIZE - i)") auto

declare consecutive_loop.simps [simp del]

definition consecutive_scan :: "aggregator \<Rightarrow> aggregator" where
  "consecutive_scan s =
     (let (ct, cr, hit) =
            consecutive_loop (result_window s) (current_state s) 0 (window_idx s)
              0 (result_window s ! window_idx s)
      in s\<lparr>consecutive_time := ct, consecutive_result := cr,
           print_flag := (if hit then 1 else print_flag s)\<rparr>)"

text \<open>Lines 236--253: the first \<^verbatim>\<open>switch\<close>, which prints a detection.\<close>

definition report :: "aggregator \<Rightarrow> fault + aggregator \<times> printed list" where
  "report s =
     (case current_state s of
        detecting \<Rightarrow>
          (let s' = s\<lparr>fill_silence_cnt := 0\<rparr> in
           if print_flag s \<noteq> 0 then
             (if unat (consecutive_result s) < NUM_CLASSES
              then Inr (s', [CountsLine (result_count s),
                             DetectLine (label ! unat (consecutive_result s))])
              else Inl (LabelIndex (consecutive_result s)))
           else Inr (s', []))
      | fill_silence \<Rightarrow>
          Inr (s\<lparr>fill_silence_cnt := fill_silence_cnt s + 1, print_flag := 0\<rparr>, [])
      | out_of_enum v \<Rightarrow> Inr (s, []))"

text \<open>Lines 255--265: the second \<^verbatim>\<open>switch\<close>, which advances the state.\<close>

definition next_state :: "aggregator \<Rightarrow> aggregator" where
  "next_state s =
     (case current_state s of
        detecting \<Rightarrow>
          (if print_flag s = 1 then s\<lparr>current_state := fill_silence\<rparr> else s)
      | fill_silence \<Rightarrow>
          (if fill_silence_cnt s = FILL_SILENCE_MAX_CNT
           then s\<lparr>current_state := detecting\<rparr> else s)
      | out_of_enum v \<Rightarrow> s\<lparr>current_state := detecting\<rparr>)"

section \<open>One notification, and a run of notifications\<close>

text \<open>Lines 174--267, for the code read from the pins.\<close>

definition process_result :: "u8 \<Rightarrow> aggregator \<Rightarrow> fault + aggregator \<times> printed list" where
  "process_result result s =
     seq_result (pop_element s) (\<lambda>s1.
     seq_result (update_count (update_element result s1)) (\<lambda>s2.
     seq_result (report (consecutive_scan (calc_average_result (update_index s2))))
       (\<lambda>(s3, out). Inr ((next_state s3)\<lparr>last_result := result\<rparr>, out))))"

text \<open>The notifications of a list of codes, oldest first, with what they print.\<close>

fun run_results :: "u8 list \<Rightarrow> aggregator \<Rightarrow> fault + aggregator \<times> printed list" where
  "run_results [] s = Inr (s, [])"
| "run_results (r # rs) s =
     seq_result (process_result r s) (\<lambda>(s', out).
     seq_result (run_results rs s') (\<lambda>(s'', out'). Inr (s'', out @ out')))"

lemma init_aggregator_fields [simp]:
  "window_idx init_aggregator = 0"
  "result_window init_aggregator = replicate WINDOW_SIZE SILENCE"
  "last_result init_aggregator = SILENCE"
  "current_state init_aggregator = detecting"
  "print_flag init_aggregator = 0"
  "fill_silence_cnt init_aggregator = 0"
  by (simp_all add: init_aggregator_def)

lemmas aggregator_consts [kws_consts] =
  WINDOW_SIZE_def FILL_SILENCE_MAX_CNT_def DETECTING_CONS_RESULT_CNT_def
  NUM_CLASSES_def SILENCE_def

lemmas aggregator_ops [kws_ops] =
  pop_element_def update_element_def update_count_def update_index_def
  calc_average_result_def consecutive_scan_def report_def next_state_def

end
