(* ===== verification/Aggregator_Window.thy ===== *)
theory Aggregator_Window
  imports Aggregator
begin

text \<open>
  The data path of a notification: the circular window and the occupancy
  counts. The abstract view of the window is \<open>chrono\<close>, its codes oldest first;
  the abstract view of the counts is \<open>occupancy\<close>, a recount of the window from
  scratch. \<open>store_result\<close> is the specification of lines 174--197: it writes the
  value the debounce rule selects, recounts, and advances the index. The
  lemmas show that the code's decrement and increment implement the recount
  (\<open>store_refines\<close>), that the circular write is a sliding window
  (\<open>chrono_store_result\<close>) and that the counts always add up to the window size.
\<close>

section \<open>Specification of the data path\<close>

definition occupancy :: "u8 list \<Rightarrow> u8 list" where
  "occupancy w = map (\<lambda>c. of_nat (count_list w (of_nat c))) [0..<NUM_CLASSES]"

definition chrono :: "aggregator \<Rightarrow> u8 list" where
  "chrono s = rotate (window_idx s) (result_window s)"

definition written_value :: "u8 \<Rightarrow> aggregator \<Rightarrow> u8" where
  "written_value result s =
     (if current_state s = fill_silence then SILENCE
      else if result = last_result s then result else SILENCE)"

definition store_result :: "u8 \<Rightarrow> aggregator \<Rightarrow> aggregator" where
  "store_result result s =
     (let w = (result_window s)[window_idx s := written_value result s]
      in s\<lparr>window_idx := Suc (window_idx s) mod WINDOW_SIZE,
           result_window := w,
           result_count := occupancy w\<rparr>)"

definition window_inv :: "aggregator \<Rightarrow> bool" where
  "window_inv s \<longleftrightarrow>
     window_idx s < WINDOW_SIZE \<and>
     length (result_window s) = WINDOW_SIZE \<and>
     list_all (\<lambda>x. unat x < NUM_CLASSES) (result_window s) \<and>
     result_count s = occupancy (result_window s)"

section \<open>Occupancy\<close>

lemma length_occupancy [simp]: "length (occupancy w) = NUM_CLASSES"
  by (simp add: occupancy_def)

lemma occupancy_nth:
  "c < NUM_CLASSES \<Longrightarrow> occupancy w ! c = of_nat (count_list w (of_nat c))"
  by (simp add: occupancy_def)

lemma occupancy_replicate:
  "unat x < NUM_CLASSES \<Longrightarrow>
   occupancy (replicate n x) = (replicate NUM_CLASSES 0)[unat x := of_nat n]"
  by (rule nth_equalityI)
    (auto simp: occupancy_nth nth_list_update word_unat_eq_iff unat_of_nat_u8 NUM_CLASSES_def)

lemma count_list_rotate1 [simp]: "count_list (rotate1 xs) c = count_list xs c"
  by (cases xs) simp_all

lemma count_list_rotate [simp]: "count_list (rotate n xs) c = count_list xs c"
  by (induction n) simp_all

lemma occupancy_rotate [simp]: "occupancy (rotate n w) = occupancy w"
  by (simp add: occupancy_def)

lemma occupancy_update_word:
  assumes "i < length w"
  shows "(of_nat (count_list (w[i := v]) x) :: u8) =
         of_nat (count_list w x) - (if w ! i = x then 1 else 0) + (if v = x then 1 else 0)"
proof -
  have "of_nat (count_list (w[i := v]) x + (if w ! i = x then 1 else 0)) =
        (of_nat (count_list w x + (if v = x then 1 else 0)) :: u8)"
    using count_list_update [OF assms, of v x] by simp
  then show ?thesis by (simp split: if_splits add: algebra_simps)
qed

text \<open>One decrement and one increment turn the recount of a window into the
  recount of the window with one slot rewritten.\<close>

lemma occupancy_update:
  assumes i: "i < length w" and old: "unat (w ! i) < NUM_CLASSES"
    and new: "unat v < NUM_CLASSES"
  shows "occupancy (w[i := v]) =
     (let o1 = (occupancy w)[unat (w ! i) := occupancy w ! unat (w ! i) - 1]
      in o1[unat v := o1 ! unat v + 1])" (is "?l = ?r")
proof (rule nth_equalityI)
  show "length ?l = length ?r"
    by (simp add: Let_def)
next
  fix c assume "c < length ?l"
  then have c: "c < NUM_CLASSES" by simp
  define x :: u8 where "x = of_nat c"
  have ux: "unat x = c"
    using c by (simp add: x_def NUM_CLASSES_def unat_of_nat_u8)
  have cls: "unat y = c \<longleftrightarrow> y = x" "c = unat y \<longleftrightarrow> y = x" for y
    using ux by (auto simp: word_unat_eq_iff)
  have "?r ! c = occupancy w ! c - (if w ! i = x then 1 else 0) + (if v = x then 1 else 0)"
    using c old new by (simp add: Let_def nth_list_update cls ux)
  also have "\<dots> = ?l ! c"
    using c by (simp add: occupancy_nth occupancy_update_word [OF i] flip: x_def)
  finally show "?l ! c = ?r ! c" by simp
qed

lemma unat_occupancy_nth:
  assumes "c < NUM_CLASSES" and "length w < 256"
  shows "unat (occupancy w ! c) = count_list (map unat w) c"
proof -
  have "count_list w (of_nat c :: u8) = count_list (map unat w) (unat (of_nat c :: u8))"
    by (rule count_list_map_conv [symmetric]) (simp add: inj_on_def word_unat_eq_iff)
  moreover have "count_list w (of_nat c :: u8) < 256"
    using count_list_le_length [of w "of_nat c"] assms(2) by simp
  ultimately show ?thesis
    using assms(1) by (simp add: occupancy_nth unat_of_nat_u8 NUM_CLASSES_def)
qed

lemma sum_occupancy:
  assumes "list_all (\<lambda>x. unat x < NUM_CLASSES) w" and "length w < 256"
  shows "(\<Sum>c\<leftarrow>occupancy w. unat c) = length w"
proof -
  have "(\<Sum>c\<leftarrow>occupancy w. unat c) = (\<Sum>c<NUM_CLASSES. unat (occupancy w ! c))"
    by (simp add: sum_list_sum_nth atLeast0LessThan)
  also have "\<dots> = (\<Sum>c<NUM_CLASSES. count_list (map unat w) c)"
    using assms(2) by (intro sum.cong) (simp_all add: unat_occupancy_nth)
  also have "\<dots> = length w"
    using assms(1) by (intro sum_count_list_range) (simp add: list_all_iff)
  finally show ?thesis .
qed

section \<open>The blocks of the data path\<close>

lemma written_value_class:
  "unat r < NUM_CLASSES \<Longrightarrow> unat (written_value r s) < NUM_CLASSES"
  by (auto simp: written_value_def kws_consts)

lemma written_value_frame [simp]:
  "written_value r (result_count_update f s) = written_value r s"
  "written_value r (result_window_update g s) = written_value r s"
  "written_value r (window_idx_update h s) = written_value r s"
  by (simp_all add: written_value_def)

lemma update_element_eq:
  "update_element r s =
   s\<lparr>result_window := (result_window s)[window_idx s := written_value r s]\<rparr>"
  by (simp add: update_element_def written_value_def Let_def)

lemma update_index_eq:
  "window_idx s < WINDOW_SIZE \<Longrightarrow>
   update_index s = s\<lparr>window_idx := Suc (window_idx s) mod WINDOW_SIZE\<rparr>"
  by (auto simp: update_index_def Let_def mod_Suc)

lemma window_inv_nth:
  "window_inv s \<Longrightarrow> unat (result_window s ! window_idx s) < NUM_CLASSES"
  by (simp add: window_inv_def list_all_length)

lemma window_inv_init: "window_inv init_aggregator"
  by (simp add: window_inv_def init_aggregator_def occupancy_replicate list_all_length
      kws_consts)

text \<open>The three statements of the code that touch the window and the counts
  compute \<open>store_result\<close>, without a fault, whenever the written value is a class.\<close>

lemma store_refines:
  assumes inv: "window_inv s" and v: "unat (written_value r s) < NUM_CLASSES"
  shows "seq_result (pop_element s) (\<lambda>s1.
           seq_result (update_count (update_element r s1)) (\<lambda>s2. Inr (update_index s2)))
         = Inr (store_result r s)"
proof -
  let ?i = "window_idx s" and ?w = "result_window s" and ?v = "written_value r s"
  from inv have i: "?i < length ?w" and iw: "?i < WINDOW_SIZE"
    and old: "unat (?w ! ?i) < NUM_CLASSES" and cnt: "result_count s = occupancy ?w"
    by (simp_all add: window_inv_def window_inv_nth)
  have pop: "pop_element s =
      Inr (s\<lparr>result_count :=
        (occupancy ?w)[unat (?w ! ?i) := occupancy ?w ! unat (?w ! ?i) - 1]\<rparr>)"
    using iw old cnt by (simp add: pop_element_def Let_def)
  show ?thesis
    using i iw v
    by (simp add: pop update_element_eq update_count_def update_index_eq store_result_def
        Let_def occupancy_update [OF i old v])
qed

lemma store_result_window_inv:
  assumes "window_inv s" and "unat (written_value r s) < NUM_CLASSES"
  shows "window_inv (store_result r s)"
  using assms
  by (auto simp: window_inv_def store_result_def Let_def list_all_length nth_list_update
      WINDOW_SIZE_def)

section \<open>The window as a sliding list\<close>

lemma rotate_update_slide:
  assumes "i < length w"
  shows "rotate (Suc i mod length w) (w[i := v]) = tl (rotate i w) @ [v]"
proof -
  have "rotate (Suc i mod length w) (w[i := v]) = rotate (Suc i) (w[i := v])"
    by (metis length_list_update rotate_conv_mod)
  also have "\<dots> = drop (Suc i) (w[i := v]) @ take (Suc i) (w[i := v])"
  proof (cases "Suc i = length w")
    case True
    then show ?thesis by (simp add: rotate_conv_mod [of "length w"])
  next
    case False
    with assms have "Suc i < length (w[i := v])" by simp
    then show ?thesis by (simp add: rotate_drop_take del: rotate_Suc)
  qed
  also have "\<dots> = drop (Suc i) w @ take i w @ [v]"
    using assms by (simp add: take_Suc_conv_app_nth)
  also have "\<dots> = tl (drop i w @ take i w) @ [v]"
    using assms by (simp add: drop_Suc tl_drop)
  also have "drop i w @ take i w = rotate i w"
    using assms by (simp add: rotate_drop_take)
  finally show ?thesis .
qed

lemma chrono_store_result:
  assumes "window_inv s"
  shows "chrono (store_result r s) = tl (chrono s) @ [written_value r s]"
  using assms rotate_update_slide [of "window_idx s" "result_window s" "written_value r s"]
  by (simp add: chrono_def store_result_def Let_def window_inv_def)

lemma length_chrono [simp]: "length (chrono s) = length (result_window s)"
  by (simp add: chrono_def)

lemma chrono_init: "chrono init_aggregator = replicate WINDOW_SIZE SILENCE"
  by (simp add: chrono_def init_aggregator_def)

lemma occupancy_chrono [simp]: "occupancy (chrono s) = occupancy (result_window s)"
  by (simp add: chrono_def)

end
