(* ===== verification/Aggregator_Scan.thy ===== *)
theory Aggregator_Scan
  imports Aggregator_Window
begin

text \<open>
  The two scans of a notification. \<open>scan_chrono\<close> is the reference definition of
  the consensus scan: the loop body of lines 214--233 run over the window as a
  list, oldest code first. \<open>consecutive_loop_chrono\<close> shows that the loop of the
  code, which walks the circular buffer by index, computes it. The lemmas on
  \<open>scan_chrono\<close> then say when the scan raises the flag: never outside the state
  \<open>detecting\<close>, only for a class that is in the window and is not silence, and,
  on a window made of blocks of equal codes, exactly when a block is long
  enough. \<open>average_loop\<close> is shown to return the first index of a maximal count.
\<close>

section \<open>The consensus scan over the chronological window\<close>

fun scan_chrono :: "sys_state \<Rightarrow> u8 list \<Rightarrow> u8 \<Rightarrow> u8 \<Rightarrow> u8 \<times> u8 \<times> bool" where
  "scan_chrono st [] ct cr = (ct, cr, False)"
| "scan_chrono st (x # xs) ct cr =
     (let (ct', cr') = (if cr = x then (ct + 1, cr) else (0, x))
      in if ct' = DETECTING_CONS_RESULT_CNT \<and> cr' \<noteq> SILENCE \<and> st = detecting
         then (ct', cr', True)
         else scan_chrono st xs ct' cr')"

definition scan_hit :: "aggregator \<Rightarrow> bool" where
  "scan_hit s = snd (snd (scan_chrono (current_state s) (chrono s) 0 (hd (chrono s))))"

lemma take_rotate_Suc:
  assumes "j < length w" and "m < length w"
  shows "take (Suc m) (rotate j w) = w ! j # take m (rotate (Suc j mod length w) w)"
proof -
  let ?r = "rotate j w"
  from assms have ne: "?r \<noteq> []" by auto
  from assms have "w \<noteq> []" by auto
  then have hd: "hd ?r = w ! j"
    using assms by (simp add: hd_rotate_conv_nth)
  have "rotate (Suc j mod length w) w = tl ?r @ [hd ?r]"
    using ne by (metis rotate1_hd_tl rotate_Suc rotate_conv_mod)
  moreover have "m \<le> length (tl ?r)"
    using assms by simp
  ultimately have "take m (rotate (Suc j mod length w) w) = take m (tl ?r)"
    by simp
  moreover have "take (Suc m) ?r = hd ?r # take m (tl ?r)"
    using ne by (cases ?r) simp_all
  ultimately show ?thesis by (simp add: hd)
qed

text \<open>The next index of the loop, wrapped, is the next code of the window.\<close>

lemma take_rotate_window:
  assumes "length w = WINDOW_SIZE" and "j < WINDOW_SIZE" and "i < WINDOW_SIZE"
  shows "take (WINDOW_SIZE - i) (rotate j w) =
         w ! j # take (WINDOW_SIZE - Suc i)
                   (rotate (if Suc j = WINDOW_SIZE then 0 else Suc j) w)"
    and "(if Suc j = WINDOW_SIZE then 0 else Suc j) < WINDOW_SIZE"
proof -
  from assms have j': "(if Suc j = WINDOW_SIZE then 0 else Suc j) = Suc j mod length w"
    by (auto simp: mod_Suc)
  from assms(3) have "WINDOW_SIZE - i = Suc (WINDOW_SIZE - Suc i)" by simp
  with take_rotate_Suc [of j w "WINDOW_SIZE - Suc i"] assms
  show "take (WINDOW_SIZE - i) (rotate j w) =
         w ! j # take (WINDOW_SIZE - Suc i)
                   (rotate (if Suc j = WINDOW_SIZE then 0 else Suc j) w)"
    by (simp add: j')
  from assms(2) show "(if Suc j = WINDOW_SIZE then 0 else Suc j) < WINDOW_SIZE"
    by simp
qed

text \<open>The loop over indices is the scan over the rotated window.\<close>

lemma consecutive_loop_chrono:
  assumes "length w = WINDOW_SIZE" and "j < WINDOW_SIZE" and "i \<le> WINDOW_SIZE"
  shows "consecutive_loop w st i j ct cr =
         scan_chrono st (take (WINDOW_SIZE - i) (rotate j w)) ct cr"
  using assms
proof (induction w st i j ct cr rule: consecutive_loop.induct)
  case (1 w st i j ct cr)
  show ?case
  proof (cases "i < WINDOW_SIZE")
    case False
    with "1.prems" show ?thesis
      by (subst consecutive_loop.simps) simp
  next
    case True
    let ?j' = "if Suc j = WINDOW_SIZE then 0 else Suc j"
    obtain ct' cr' where p: "(ct', cr') = (if cr = w ! j then (ct + 1, cr) else (0, w ! j))"
      by (metis surj_pair)
    note win = take_rotate_window [OF "1.prems"(1,2) True]
    have code: "consecutive_loop w st i j ct cr =
        (if ct' = DETECTING_CONS_RESULT_CNT \<and> cr' \<noteq> SILENCE \<and> st = detecting
         then (ct', cr', True) else consecutive_loop w st (Suc i) ?j' ct' cr')"
      using True by (subst consecutive_loop.simps) (simp flip: p)
    have spec: "scan_chrono st (take (WINDOW_SIZE - i) (rotate j w)) ct cr =
        (if ct' = DETECTING_CONS_RESULT_CNT \<and> cr' \<noteq> SILENCE \<and> st = detecting
         then (ct', cr', True)
         else scan_chrono st (take (WINDOW_SIZE - Suc i) (rotate ?j' w)) ct' cr')"
      by (simp add: win(1) flip: p)
    show ?thesis
    proof (cases "ct' = DETECTING_CONS_RESULT_CNT \<and> cr' \<noteq> SILENCE \<and> st = detecting")
      case hit: True
      show ?thesis
        unfolding code spec by (simp add: hit)
    next
      case miss: False
      from True "1.prems" win(2)
      have "consecutive_loop w st (Suc i) ?j' ct' cr' =
          scan_chrono st (take (WINDOW_SIZE - Suc i) (rotate ?j' w)) ct' cr'"
        by (intro "1.IH" [OF True refl p miss]) simp_all
      then show ?thesis
        unfolding code spec by (simp add: miss)
    qed
  qed
qed

lemma consecutive_scan_eq:
  assumes "window_inv s"
  shows "consecutive_scan s =
     (let (ct, cr, hit) = scan_chrono (current_state s) (chrono s) 0 (hd (chrono s))
      in s\<lparr>consecutive_time := ct, consecutive_result := cr,
           print_flag := (if hit then 1 else print_flag s)\<rparr>)"
proof -
  from assms have l: "length (result_window s) = WINDOW_SIZE" and i: "window_idx s < WINDOW_SIZE"
    by (simp_all add: window_inv_def)
  then have "result_window s \<noteq> []"
    by (auto simp: WINDOW_SIZE_def)
  with l i have "hd (chrono s) = result_window s ! window_idx s"
    by (simp add: chrono_def hd_rotate_conv_nth)
  with l i show ?thesis
    by (simp add: consecutive_scan_def consecutive_loop_chrono chrono_def)
qed

section \<open>When the scan raises the flag\<close>

lemma scan_chrono_not_detecting:
  "st \<noteq> detecting \<Longrightarrow> snd (snd (scan_chrono st xs ct cr)) = False"
  by (induction xs arbitrary: ct cr) (simp_all add: Let_def split: prod.splits)

lemma scan_chrono_hit:
  "scan_chrono st xs ct cr = (ct', cr', True) \<Longrightarrow>
   st = detecting \<and> ct' = DETECTING_CONS_RESULT_CNT \<and> cr' \<noteq> SILENCE \<and> cr' \<in> set xs"
proof (induction xs arbitrary: ct cr)
  case Nil
  then show ?case by simp
next
  case (Cons x xs)
  show ?case
  proof (cases "cr = x")
    case True
    with Cons.prems Cons.IH [of "ct + 1" x] show ?thesis
      by (auto simp: Let_def split: if_splits)
  next
    case False
    with Cons.prems Cons.IH [of 0 x] show ?thesis
      by (auto simp: Let_def split: if_splits)
  qed
qed

text \<open>Blocks of equal codes: silence never raises the flag; a change of code
  restarts the count at 0, not at 1; a block of a class raises the flag when
  the count reaches the threshold inside it.\<close>

lemma scan_chrono_silence:
  "scan_chrono st (replicate n SILENCE @ ys) ct SILENCE =
   scan_chrono st ys (ct + of_nat n) SILENCE"
  by (induction n arbitrary: ct) (simp_all add: Let_def algebra_simps)

lemma scan_chrono_change:
  "x \<noteq> cr \<Longrightarrow> scan_chrono st (x # ys) ct cr = scan_chrono st ys 0 x"
  by (simp add: DETECTING_CONS_RESULT_CNT_def)

lemma scan_chrono_block_miss:
  "unat ct + n < unat DETECTING_CONS_RESULT_CNT \<Longrightarrow>
   scan_chrono st (replicate n c @ ys) ct c = scan_chrono st ys (ct + of_nat n) c"
proof (induction n arbitrary: ct)
  case 0
  then show ?case by simp
next
  case (Suc n)
  then have small: "unat ct < 19"
    by (simp add: DETECTING_CONS_RESULT_CNT_def)
  then have u: "unat (ct + 1) = Suc (unat ct)"
    by (simp add: unat_u8_succ)
  with Suc.prems have "ct + 1 \<noteq> DETECTING_CONS_RESULT_CNT"
    by (auto simp: word_unat_eq_iff)
  moreover from Suc.prems u have "unat (ct + 1) + n < unat DETECTING_CONS_RESULT_CNT"
    by simp
  ultimately show ?case
    using Suc.IH [of "ct + 1"] by (simp add: Let_def algebra_simps)
qed

lemma scan_chrono_block_hit:
  assumes "unat ct < unat DETECTING_CONS_RESULT_CNT"
    and "unat DETECTING_CONS_RESULT_CNT \<le> unat ct + n" and "c \<noteq> SILENCE"
  shows "scan_chrono detecting (replicate n c @ ys) ct c =
         (DETECTING_CONS_RESULT_CNT, c, True)"
  using assms
proof (induction n arbitrary: ct)
  case 0
  then show ?case by simp
next
  case (Suc n)
  from Suc.prems(1) have u: "unat (ct + 1) = Suc (unat ct)"
    by (simp add: unat_u8_succ DETECTING_CONS_RESULT_CNT_def)
  show ?case
  proof (cases "ct + 1 = DETECTING_CONS_RESULT_CNT")
    case True
    with Suc.prems(3) show ?thesis by (simp add: Let_def)
  next
    case False
    with u Suc.prems have "unat (ct + 1) < unat DETECTING_CONS_RESULT_CNT"
      and "unat DETECTING_CONS_RESULT_CNT \<le> unat (ct + 1) + n"
      by (auto simp: word_unat_eq_iff)
    from Suc.IH [OF this Suc.prems(3)] False show ?thesis
      by (simp add: Let_def)
  qed
qed

section \<open>The most frequent class\<close>

text \<open>
  \<open>first_max cnt n m mc\<close>: among the first \<open>n\<close> counts \<open>mc\<close> is the largest, and
  \<open>m\<close> is the first index that holds it; before any count above 0 is seen the
  pair is \<open>(0, 0)\<close>, the values the loop starts from.
\<close>

definition first_max :: "u8 list \<Rightarrow> nat \<Rightarrow> u8 \<Rightarrow> u8 \<Rightarrow> bool" where
  "first_max cnt n m mc \<longleftrightarrow>
     (\<forall>j<n. cnt ! j \<le> mc) \<and>
     ((mc = 0 \<and> m = 0) \<or> (unat m < n \<and> cnt ! unat m = mc \<and> (\<forall>j<unat m. cnt ! j < mc)))"

lemma first_max_start: "first_max cnt 0 0 0"
  by (simp add: first_max_def)

lemma first_max_step:
  assumes "first_max cnt i m mc" and "i < NUM_CLASSES"
  shows "first_max cnt (Suc i) (if cnt ! i > mc then of_nat i else m)
           (if cnt ! i > mc then cnt ! i else mc)"
proof (cases "cnt ! i > mc")
  case True
  from assms(2) have u: "unat (of_nat i :: u8) = i"
    by (simp add: unat_of_nat_u8 NUM_CLASSES_def)
  from assms(1) True have "\<forall>j<i. cnt ! j < cnt ! i"
    by (auto simp: first_max_def)
  with True u show ?thesis
    by (auto simp: first_max_def less_Suc_eq intro: less_imp_le)
next
  case False
  with assms(1) show ?thesis
    by (auto simp: first_max_def less_Suc_eq not_less)
qed

lemma average_loop_first_max:
  assumes "first_max cnt i m mc" and "i \<le> NUM_CLASSES"
  shows "first_max cnt NUM_CLASSES (fst (average_loop cnt i (m, mc)))
           (snd (average_loop cnt i (m, mc)))"
  using assms
proof (induction cnt i "(m, mc)" arbitrary: m mc rule: average_loop.induct)
  case (1 cnt i m mc)
  show ?case
  proof (cases "i < NUM_CLASSES")
    case False
    with "1.prems" show ?thesis
      by (subst (1 2) average_loop.simps) simp
  next
    case True
    note st = first_max_step [OF "1.prems"(1) True]
    from True have le: "Suc i \<le> NUM_CLASSES" by simp
    show ?thesis
    proof (cases "cnt ! i > mc")
      case gt: True
      from "1.hyps"(1) [OF True gt] st gt le show ?thesis
        by (subst (1 2) average_loop.simps) (simp add: True)
    next
      case le': False
      from "1.hyps"(2) [OF True le'] st le' le show ?thesis
        by (subst (1 2) average_loop.simps) (simp add: True)
    qed
  qed
qed

lemma calc_average_result_first_max:
  "first_max (result_count s) NUM_CLASSES (max_result (calc_average_result s))
     (max_result_count (calc_average_result s))"
  using average_loop_first_max [OF first_max_start, of "result_count s"]
  by (simp add: calc_average_result_def split_def Let_def)

end
