(* ===== verification/Aggregator_Step.thy ===== *)
theory Aggregator_Step
  imports Aggregator_Scan
begin

text \<open>
  One notification as a whole. \<open>finish\<close> names the second half of
  \<open>process_result\<close> (lines 199--267: the two scans, the two \<^verbatim>\<open>switch\<close>
  statements, the store of the raw code), so that a notification is
  \<open>store_result\<close> followed by \<open>finish\<close>. The lemmas give what \<open>finish\<close> does in
  each detection state; from them follow the invariant \<open>agg_inv\<close>, the absence
  of faults for codes below 12, the fault for a repeated code of 12 or more,
  and the debounce law.
\<close>

section \<open>Invariant of the control variables\<close>

definition control_inv :: "aggregator \<Rightarrow> bool" where
  "control_inv s \<longleftrightarrow>
     (current_state s \<noteq> fill_silence \<longrightarrow> print_flag s = 0) \<and>
     (print_flag s = 0 \<or> print_flag s = 1) \<and>
     (current_state s = fill_silence \<longrightarrow> fill_silence_cnt s < FILL_SILENCE_MAX_CNT)"

definition agg_inv :: "aggregator \<Rightarrow> bool" where
  "agg_inv s \<longleftrightarrow> window_inv s \<and> control_inv s"

definition finish :: "u8 \<Rightarrow> aggregator \<Rightarrow> fault + aggregator \<times> printed list" where
  "finish r d =
     seq_result (report (consecutive_scan (calc_average_result d)))
       (\<lambda>(s3, out). Inr ((next_state s3)\<lparr>last_result := r\<rparr>, out))"

definition scan_class :: "aggregator \<Rightarrow> u8" where
  "scan_class s = fst (snd (scan_chrono (current_state s) (chrono s) 0 (hd (chrono s))))"

lemma agg_inv_init: "agg_inv init_aggregator"
  using window_inv_init by (simp add: agg_inv_def control_inv_def init_aggregator_def)

lemma agg_invD:
  "agg_inv s \<Longrightarrow> window_inv s"
  "agg_inv s \<Longrightarrow> control_inv s"
  by (simp_all add: agg_inv_def)

section \<open>A notification is a store followed by the decision\<close>

lemma process_result_finish:
  assumes "window_inv s" and "unat (written_value r s) < NUM_CLASSES"
  shows "process_result r s = finish r (store_result r s)"
proof -
  from store_refines [OF assms] obtain s1 s2 where
    "pop_element s = Inr s1" "update_count (update_element r s1) = Inr s2"
    "update_index s2 = store_result r s"
    by (auto simp: seq_result_eq_Inr)
  then show ?thesis
    by (simp add: process_result_def finish_def)
qed

lemma calc_average_result_frame:
  "calc_average_result s =
   s\<lparr>max_result := fst (average_loop (result_count s) 0 (0, 0)),
     max_result_count := snd (average_loop (result_count s) 0 (0, 0))\<rparr>"
  by (simp add: calc_average_result_def split_def Let_def)

lemma window_inv_calc [simp]: "window_inv (calc_average_result s) = window_inv s"
  by (simp add: calc_average_result_frame window_inv_def)

lemma chrono_calc [simp]: "chrono (calc_average_result s) = chrono s"
  by (simp add: calc_average_result_frame chrono_def)

lemma scan_after_calc:
  assumes "window_inv d"
  shows "consecutive_scan (calc_average_result d) =
     (calc_average_result d)
       \<lparr>consecutive_time := fst (scan_chrono (current_state d) (chrono d) 0 (hd (chrono d))),
        consecutive_result := scan_class d,
        print_flag := (if scan_hit d then 1 else print_flag d)\<rparr>"
  using assms
  by (simp add: consecutive_scan_eq split_def Let_def scan_class_def scan_hit_def)
    (simp add: calc_average_result_frame)

text \<open>What the blocks leave unchanged.\<close>

lemma next_state_frame [simp]:
  "window_idx (next_state s) = window_idx s"
  "result_window (next_state s) = result_window s"
  "result_count (next_state s) = result_count s"
  "print_flag (next_state s) = print_flag s"
  "fill_silence_cnt (next_state s) = fill_silence_cnt s"
  "consecutive_result (next_state s) = consecutive_result s"
  by (simp_all add: next_state_def split: sys_state.splits)

lemma consecutive_scan_frame [simp]:
  "window_idx (consecutive_scan s) = window_idx s"
  "result_window (consecutive_scan s) = result_window s"
  "result_count (consecutive_scan s) = result_count s"
  "current_state (consecutive_scan s) = current_state s"
  "fill_silence_cnt (consecutive_scan s) = fill_silence_cnt s"
  by (simp_all add: consecutive_scan_def split_def Let_def)

lemma calc_average_result_fields [simp]:
  "window_idx (calc_average_result s) = window_idx s"
  "result_window (calc_average_result s) = result_window s"
  "result_count (calc_average_result s) = result_count s"
  "current_state (calc_average_result s) = current_state s"
  "fill_silence_cnt (calc_average_result s) = fill_silence_cnt s"
  "print_flag (calc_average_result s) = print_flag s"
  by (simp_all add: calc_average_result_frame)

lemma report_frame:
  assumes "report s = Inr (s', out)"
  shows "window_idx s' = window_idx s" and "result_window s' = result_window s"
    and "result_count s' = result_count s" and "current_state s' = current_state s"
    and "consecutive_result s' = consecutive_result s"
  using assms
  by (auto simp: report_def Let_def split: sys_state.splits if_splits)

lemma finish_Inr:
  "finish r d = Inr (s', out) \<longleftrightarrow>
   (\<exists>s3. report (consecutive_scan (calc_average_result d)) = Inr (s3, out) \<and>
         s' = (next_state s3)\<lparr>last_result := r\<rparr>)"
  by (auto simp: finish_def seq_result_eq_Inr)

lemma finish_frame:
  assumes "finish r d = Inr (s', out)"
  shows "window_idx s' = window_idx d" and "result_window s' = result_window d"
    and "result_count s' = result_count d" and "last_result s' = r"
proof -
  from assms obtain s3 where
    r: "report (consecutive_scan (calc_average_result d)) = Inr (s3, out)"
    and s': "s' = (next_state s3)\<lparr>last_result := r\<rparr>"
    by (auto simp: finish_Inr)
  from report_frame [OF r] s'
  show "window_idx s' = window_idx d" and "result_window s' = result_window d"
    and "result_count s' = result_count d" and "last_result s' = r"
    by simp_all
qed

section \<open>The decision in each state\<close>

lemma finish_fill_silence:
  assumes "current_state d = fill_silence"
  shows "\<exists>s'. finish r d = Inr (s', []) \<and>
     current_state s' =
       (if fill_silence_cnt d + 1 = FILL_SILENCE_MAX_CNT then detecting else fill_silence) \<and>
     fill_silence_cnt s' = fill_silence_cnt d + 1 \<and> print_flag s' = 0"
  using assms
  by (simp add: finish_def report_def next_state_def)

lemma scan_hit_detecting: "scan_hit d \<Longrightarrow> current_state d = detecting"
  using scan_chrono_not_detecting [of "current_state d"]
  by (auto simp: scan_hit_def)

lemma scan_class_window:
  assumes "scan_hit d" and "window_inv d"
  shows "unat (scan_class d) < NUM_CLASSES" and "scan_class d \<noteq> SILENCE"
proof -
  obtain ct cr where "scan_chrono (current_state d) (chrono d) 0 (hd (chrono d)) = (ct, cr, True)"
    using assms(1) by (cases "scan_chrono (current_state d) (chrono d) 0 (hd (chrono d))")
      (simp add: scan_hit_def)
  then have "cr \<in> set (chrono d)" "cr \<noteq> SILENCE" "scan_class d = cr"
    using scan_chrono_hit by (auto simp: scan_class_def)
  with assms(2) show "unat (scan_class d) < NUM_CLASSES" and "scan_class d \<noteq> SILENCE"
    by (auto simp: chrono_def window_inv_def list_all_iff)
qed

lemma finish_out_of_enum:
  assumes "current_state d = out_of_enum v" and "window_inv d"
  shows "\<exists>s'. finish r d = Inr (s', []) \<and> current_state s' = detecting \<and>
     fill_silence_cnt s' = fill_silence_cnt d \<and> print_flag s' = print_flag d"
proof -
  from assms(1) scan_hit_detecting [of d] have "\<not> scan_hit d" by auto
  with assms show ?thesis
    by (simp add: finish_def scan_after_calc report_def next_state_def)
qed

lemma finish_detecting_miss:
  assumes "current_state d = detecting" and "window_inv d" and "\<not> scan_hit d"
    and "print_flag d = 0"
  shows "\<exists>s'. finish r d = Inr (s', []) \<and> current_state s' = detecting \<and>
     fill_silence_cnt s' = 0 \<and> print_flag s' = 0"
  using assms
  by (simp add: finish_def scan_after_calc report_def next_state_def)

lemma finish_detecting_hit:
  assumes "current_state d = detecting" and "window_inv d" and "scan_hit d"
  shows "\<exists>s'. finish r d =
       Inr (s', [CountsLine (result_count d), DetectLine (label ! unat (scan_class d))]) \<and>
     current_state s' = fill_silence \<and> fill_silence_cnt s' = 0 \<and> print_flag s' = 1"
  using assms scan_class_window [OF assms(3,2)]
  by (simp add: finish_def scan_after_calc report_def next_state_def)

lemmas finish_cases =
  finish_fill_silence finish_out_of_enum finish_detecting_miss finish_detecting_hit

section \<open>Invariant and absence of faults\<close>

lemma store_result_control [simp]:
  "current_state (store_result r s) = current_state s"
  "print_flag (store_result r s) = print_flag s"
  "fill_silence_cnt (store_result r s) = fill_silence_cnt s"
  "last_result (store_result r s) = last_result s"
  by (simp_all add: store_result_def Let_def)

lemma cnt_succ_below:
  "c < FILL_SILENCE_MAX_CNT \<Longrightarrow> c + 1 \<noteq> FILL_SILENCE_MAX_CNT \<Longrightarrow>
   c + 1 < FILL_SILENCE_MAX_CNT"
  by (simp add: FILL_SILENCE_MAX_CNT_def word_less_nat_alt word_unat_eq_iff unat_u8_succ)

lemma finish_control_inv:
  assumes "window_inv d" and "control_inv d" and "finish r d = Inr (s', out)"
  shows "control_inv s'"
proof (cases "current_state d")
  case detecting
  show ?thesis
  proof (cases "scan_hit d")
    case True
    from finish_detecting_hit [OF detecting assms(1) True, of r] assms(3)
    show ?thesis by (auto simp: control_inv_def FILL_SILENCE_MAX_CNT_def)
  next
    case False
    from assms(2) detecting have "print_flag d = 0"
      by (simp add: control_inv_def)
    from finish_detecting_miss [OF detecting assms(1) False this, of r] assms(3)
    show ?thesis by (auto simp: control_inv_def)
  qed
next
  case fill_silence
  from finish_fill_silence [OF fill_silence, of r] assms(2,3) fill_silence
  show ?thesis by (auto simp: control_inv_def cnt_succ_below)
next
  case (out_of_enum v)
  from finish_out_of_enum [OF out_of_enum assms(1), of r] assms(2,3) out_of_enum
  show ?thesis by (auto simp: control_inv_def)
qed

lemma finish_window_inv:
  assumes "window_inv d" and "finish r d = Inr (s', out)"
  shows "window_inv s'"
  using assms(1) finish_frame [OF assms(2)] by (simp add: window_inv_def)

lemma finish_ok:
  assumes "window_inv d" and "control_inv d"
  shows "is_ok (finish r d)"
proof (cases "current_state d")
  case detecting
  with assms show ?thesis
    using finish_detecting_hit [OF detecting assms(1), of r]
      finish_detecting_miss [OF detecting assms(1), of r]
    by (cases "scan_hit d") (auto simp: control_inv_def)
next
  case fill_silence
  then show ?thesis
    using finish_fill_silence [of d r] by auto
next
  case (out_of_enum v)
  then show ?thesis
    using finish_out_of_enum [OF out_of_enum assms(1), of r] by auto
qed

section \<open>Faults\<close>

lemma process_result_fault:
  assumes "window_inv s" and "\<not> unat (written_value r s) < NUM_CLASSES"
  shows "process_result r s = Inl (CountIndex (written_value r s))"
proof -
  from assms(1) have "window_idx s < WINDOW_SIZE" "window_idx s < length (result_window s)"
    and "unat (result_window s ! window_idx s) < NUM_CLASSES"
    by (simp_all add: window_inv_def window_inv_nth)
  with assms(2) show ?thesis
    by (simp add: process_result_def pop_element_def update_element_eq update_count_def Let_def)
qed

lemma process_result_Inr:
  assumes "agg_inv s" and "process_result r s = Inr (s', out)"
  shows "unat (written_value r s) < NUM_CLASSES" and "finish r (store_result r s) = Inr (s', out)"
proof -
  show v: "unat (written_value r s) < NUM_CLASSES"
    using process_result_fault [of s r] assms by (auto simp: agg_inv_def)
  from process_result_finish [OF agg_invD(1) [OF assms(1)] v] assms(2)
  show "finish r (store_result r s) = Inr (s', out)" by simp
qed

lemma store_result_control_inv [simp]: "control_inv (store_result r s) = control_inv s"
  by (simp add: control_inv_def)

text \<open>The fields of the state after a notification that did not fault.\<close>

lemma process_result_fields:
  assumes "agg_inv s" and "process_result r s = Inr (s', out)"
  shows "window_idx s' = Suc (window_idx s) mod WINDOW_SIZE"
    and "result_window s' = (result_window s)[window_idx s := written_value r s]"
    and "result_count s' = occupancy (result_window s')"
    and "last_result s' = r"
    and "chrono s' = tl (chrono s) @ [written_value r s]"
proof -
  note fin = process_result_Inr [OF assms]
  from finish_frame [OF fin(2)]
  show "window_idx s' = Suc (window_idx s) mod WINDOW_SIZE"
    and w: "result_window s' = (result_window s)[window_idx s := written_value r s]"
    and "result_count s' = occupancy (result_window s')"
    and "last_result s' = r"
    by (simp_all add: store_result_def Let_def)
  from finish_frame [OF fin(2)] chrono_store_result [OF agg_invD(1) [OF assms(1)], of r]
  show "chrono s' = tl (chrono s) @ [written_value r s]"
    by (simp add: chrono_def)
qed

lemma process_result_ok:
  assumes "agg_inv s" and "unat (written_value r s) < NUM_CLASSES"
  shows "is_ok (process_result r s)"
  using assms process_result_finish [of s r] finish_ok [of "store_result r s" r]
  by (simp add: agg_inv_def store_result_window_inv)

lemma process_result_init:
  "unat r < NUM_CLASSES \<Longrightarrow> \<exists>s' out. process_result r init_aggregator = Inr (s', out)"
  using process_result_ok [OF agg_inv_init, of r]
  by (simp add: written_value_class is_ok_iff)

end
