(* ===== verification/Aggregator_Props.thy ===== *)
theory Aggregator_Props
  imports Aggregator_Step
begin

text \<open>
  The properties of a single notification and of the states the aggregator can
  reach: the invariant, the sum of the occupancy counts, the refinement of the
  recount by the code's decrement and increment, the sliding window, the
  equivalence of the index loop with the scan of the chronological window, the
  faults, and the debounce law.
\<close>

section \<open>Reachable states\<close>

inductive reachable :: "aggregator \<Rightarrow> bool" where
  init: "reachable init_aggregator"
| step: "reachable s \<Longrightarrow> process_result r s = Inr (s', out) \<Longrightarrow> reachable s'"

inductive_cases reachable_cases: "reachable s"

lemma process_result_preserves:
  assumes "agg_inv s" and "process_result r s = Inr (s', out)"
  shows "agg_inv s'"
proof -
  note fin = process_result_Inr [OF assms]
  from assms(1) fin(1) have w: "window_inv (store_result r s)"
    by (simp add: agg_inv_def store_result_window_inv)
  moreover from assms(1) have "control_inv (store_result r s)"
    by (simp add: agg_inv_def)
  ultimately show ?thesis
    using finish_window_inv [OF w fin(2)] finish_control_inv [OF w _ fin(2)]
    by (simp add: agg_inv_def)
qed

lemma reachable_agg_inv: "reachable s \<Longrightarrow> agg_inv s"
  by (induction rule: reachable.induct) (auto intro: agg_inv_init process_result_preserves)

lemma agg_inv_counts_sum:
  "agg_inv s \<Longrightarrow> (\<Sum>c\<leftarrow>result_count s. unat c) = WINDOW_SIZE"
  using sum_occupancy [of "result_window s"]
  by (simp add: agg_inv_def window_inv_def WINDOW_SIZE_def)

lemma run_results_reachable:
  "reachable s \<Longrightarrow> run_results rs s = Inr (s', out) \<Longrightarrow> reachable s'"
proof (induction rs arbitrary: s out)
  case Nil
  then show ?case by simp
next
  case (Cons r rs)
  from Cons.prems(2) obtain s1 o1 o2 where
    "process_result r s = Inr (s1, o1)" "run_results rs s1 = Inr (s', o2)"
    by (auto simp: seq_result_eq_Inr)
  with Cons.prems(1) Cons.IH show ?case
    by (blast intro: reachable.step)
qed

section \<open>Invariant\<close>

text \<open>
  C1. In every state the aggregator reaches from its initial state, the twelve
  occupancy counts add up to the window size.
\<close>

theorem counts_sum_window_size:
  "reachable s \<Longrightarrow> (\<Sum>c\<leftarrow>result_count s. unat c) = WINDOW_SIZE"
proof -
  assume "reachable s"
  then have "window_inv s"
    by (simp add: reachable_agg_inv agg_invD)
  then show ?thesis
    using sum_occupancy [of "result_window s"]
    by (simp add: window_inv_def WINDOW_SIZE_def)
qed

theorem counts_sum_window_size_witness:
  "reachable init_aggregator \<and> (\<Sum>c\<leftarrow>result_count init_aggregator. unat c) = WINDOW_SIZE"
  using counts_sum_window_size [OF reachable.init] by (simp add: reachable.init)

text \<open>
  C2. A notification with a code below 12 never faults, and it takes a state
  that satisfies the invariant (window of 40 classes, counts equal to the
  recount of the window, flag and cooldown counter consistent with the
  detection state) to a state that satisfies it.
\<close>

theorem process_result_agg_inv:
  assumes "agg_inv s" and "unat r < NUM_CLASSES"
  shows "\<exists>s' out. process_result r s = Inr (s', out) \<and> agg_inv s'"
proof -
  from assms have "is_ok (process_result r s)"
    by (simp add: process_result_ok written_value_class)
  then obtain s' out where "process_result r s = Inr (s', out)"
    by (auto simp: is_ok_iff)
  with assms(1) show ?thesis
    by (blast intro: process_result_preserves)
qed

theorem process_result_agg_inv_witness:
  "agg_inv init_aggregator \<and> unat (0 :: u8) < NUM_CLASSES \<and>
   (\<exists>s' out. process_result 0 init_aggregator = Inr (s', out) \<and> agg_inv s')"
  using process_result_agg_inv [OF agg_inv_init, of 0]
  by (simp add: agg_inv_init NUM_CLASSES_def)

section \<open>Refinement of the data path\<close>

text \<open>
  C3. Under the window invariant, the code's decrement of the leaving class,
  write of the slot, increment of the written class and advance of the index
  produce exactly the window with that slot rewritten, its recount from
  scratch, and the next index modulo the window size.
\<close>

theorem counts_refine_recount:
  assumes "window_inv s" and "unat (written_value r s) < NUM_CLASSES"
  shows "seq_result (pop_element s) (\<lambda>s1.
           seq_result (update_count (update_element r s1)) (\<lambda>s2. Inr (update_index s2)))
         = Inr (s\<lparr>window_idx := Suc (window_idx s) mod WINDOW_SIZE,
                  result_window := (result_window s)[window_idx s := written_value r s],
                  result_count :=
                    occupancy ((result_window s)[window_idx s := written_value r s])\<rparr>)"
  using store_refines [OF assms] by (simp add: store_result_def Let_def)

theorem counts_refine_recount_witness:
  "window_inv init_aggregator \<and> unat (written_value 3 init_aggregator) < NUM_CLASSES \<and>
   seq_result (pop_element init_aggregator) (\<lambda>s1.
     seq_result (update_count (update_element 3 s1)) (\<lambda>s2. Inr (update_index s2)))
   = Inr (init_aggregator\<lparr>window_idx := 1,
            result_window := (replicate WINDOW_SIZE SILENCE)[0 := SILENCE],
            result_count := occupancy ((replicate WINDOW_SIZE SILENCE)[0 := SILENCE])\<rparr>)"
proof -
  have v: "written_value 3 init_aggregator = SILENCE"
    by (simp add: written_value_def init_aggregator_def SILENCE_def)
  then have c: "unat (written_value 3 init_aggregator) < NUM_CLASSES"
    by (simp add: kws_consts)
  from counts_refine_recount [OF window_inv_init c]
  have "seq_result (pop_element init_aggregator) (\<lambda>s1.
     seq_result (update_count (update_element 3 s1)) (\<lambda>s2. Inr (update_index s2)))
   = Inr (init_aggregator\<lparr>window_idx := 1,
            result_window := (replicate WINDOW_SIZE SILENCE)[0 := SILENCE],
            result_count := occupancy ((replicate WINDOW_SIZE SILENCE)[0 := SILENCE])\<rparr>)"
    by (simp add: v WINDOW_SIZE_def)
  with window_inv_init c show ?thesis by simp
qed

text \<open>
  C4. The circular buffer is a sliding window: after a notification that does
  not fault, the codes of the window in chronological order are those before
  it without the oldest, followed by the value the notification wrote.
\<close>

theorem window_slides:
  assumes "agg_inv s" and "process_result r s = Inr (s', out)"
  shows "chrono s' = tl (chrono s) @ [written_value r s]"
  using process_result_fields(5) [OF assms] .

theorem window_slides_witness:
  "agg_inv init_aggregator \<and>
   (\<exists>s' out. process_result 0 init_aggregator = Inr (s', out) \<and>
      chrono s' = tl (chrono init_aggregator) @ [written_value 0 init_aggregator])"
proof -
  obtain s' out where p: "process_result 0 init_aggregator = Inr (s', out)"
    using process_result_init [of 0] by (auto simp: NUM_CLASSES_def)
  from window_slides [OF agg_inv_init p] p show ?thesis
    by (auto simp: agg_inv_init)
qed

section \<open>The consensus scan\<close>

text \<open>
  C5. The consensus loop of the code, which walks the circular buffer by index
  from the write index and wraps at 40, computes the scan of the window in
  chronological order: same final count, same class, same flag.
\<close>

theorem consecutive_scan_chrono:
  assumes "window_inv s"
  shows "consecutive_loop (result_window s) (current_state s) 0 (window_idx s) 0
           (result_window s ! window_idx s) =
         scan_chrono (current_state s) (chrono s) 0 (hd (chrono s))"
proof -
  from assms have l: "length (result_window s) = WINDOW_SIZE" and i: "window_idx s < WINDOW_SIZE"
    by (simp_all add: window_inv_def)
  then have "result_window s \<noteq> []"
    by (auto simp: WINDOW_SIZE_def)
  with l i have "hd (chrono s) = result_window s ! window_idx s"
    by (simp add: chrono_def hd_rotate_conv_nth)
  with l i show ?thesis
    by (simp add: consecutive_loop_chrono chrono_def)
qed

theorem consecutive_scan_chrono_witness:
  "window_inv init_aggregator \<and>
   consecutive_loop (result_window init_aggregator) (current_state init_aggregator) 0
     (window_idx init_aggregator) 0
     (result_window init_aggregator ! window_idx init_aggregator) =
   scan_chrono detecting (replicate WINDOW_SIZE SILENCE) 0 SILENCE"
  using consecutive_scan_chrono [OF window_inv_init]
  by (simp add: window_inv_init chrono_init) (simp add: init_aggregator_def WINDOW_SIZE_def)

section \<open>Debounce\<close>

text \<open>
  C6. Debounce law: when the new code differs from the previous raw code, the
  slot the notification writes holds silence afterwards, whatever the code; the
  new code enters the window only when it repeats the previous raw code and
  the state is not the cooldown.
\<close>

theorem debounce_law:
  assumes "agg_inv s" and "process_result r s = Inr (s', out)"
  shows "result_window s' ! window_idx s =
     (if r = last_result s \<and> current_state s \<noteq> fill_silence then r else SILENCE)"
proof -
  from assms(1) have "window_idx s < length (result_window s)"
    by (simp add: agg_inv_def window_inv_def)
  with process_result_fields(2) [OF assms] show ?thesis
    by (simp add: written_value_def)
qed

theorem debounce_law_witness:
  "agg_inv init_aggregator \<and>
   (\<exists>s' out. process_result 0 init_aggregator = Inr (s', out) \<and>
      result_window s' ! window_idx init_aggregator = SILENCE)"
proof -
  obtain s' out where p: "process_result 0 init_aggregator = Inr (s', out)"
    using process_result_init [of 0] by (auto simp: NUM_CLASSES_def)
  from debounce_law [OF agg_inv_init p]
  have "result_window s' ! window_idx init_aggregator = SILENCE"
    by (simp add: SILENCE_def)
  with p agg_inv_init show ?thesis by blast
qed

section \<open>Faults\<close>

text \<open>
  C7. Under the invariant a notification faults exactly when the value it
  writes is not a class: the code is 12 or more, repeats the previous raw code,
  and the state is not the cooldown. The fault is the access to
  \<^verbatim>\<open>result_count\<close> at that code.
\<close>

theorem process_result_fault_iff:
  assumes "agg_inv s"
  shows "process_result r s = Inl (CountIndex r) \<longleftrightarrow>
         \<not> unat r < NUM_CLASSES \<and> r = last_result s \<and> current_state s \<noteq> fill_silence"
proof
  assume f: "process_result r s = Inl (CountIndex r)"
  have "\<not> unat (written_value r s) < NUM_CLASSES"
  proof
    assume "unat (written_value r s) < NUM_CLASSES"
    with assms have "is_ok (process_result r s)"
      by (simp add: process_result_ok)
    with f show False by simp
  qed
  then show "\<not> unat r < NUM_CLASSES \<and> r = last_result s \<and> current_state s \<noteq> fill_silence"
    by (auto simp: written_value_def kws_consts split: if_splits)
next
  assume a: "\<not> unat r < NUM_CLASSES \<and> r = last_result s \<and> current_state s \<noteq> fill_silence"
  then have wv: "written_value r s = r"
    by (simp add: written_value_def)
  from a have "\<not> unat (written_value r s) < NUM_CLASSES"
    unfolding wv by blast
  from process_result_fault [OF agg_invD(1) [OF assms] this] wv
  show "process_result r s = Inl (CountIndex r)"
    by simp
qed

theorem process_result_fault_iff_witness:
  "agg_inv (init_aggregator\<lparr>last_result := 12\<rparr>) \<and>
   process_result 12 (init_aggregator\<lparr>last_result := 12\<rparr>) = Inl (CountIndex 12)"
proof -
  have i: "agg_inv (init_aggregator\<lparr>last_result := 12\<rparr>)"
    using agg_inv_init by (simp add: agg_inv_def window_inv_def control_inv_def)
  from process_result_fault_iff [OF i, of 12]
  have "process_result 12 (init_aggregator\<lparr>last_result := 12\<rparr>) = Inl (CountIndex 12)"
    by (simp add: NUM_CLASSES_def)
  with i show ?thesis by simp
qed

end
