(* ===== verification/Detection.thy ===== *)
theory Detection
  imports Aggregator_Props
begin

text \<open>
  The detection state machine over runs of notifications: what a notification
  prints and when the state changes, the cooldown of exactly 40 notifications,
  the codes that never lead to a detection, and the number of equal codes that
  does. \<open>quiet\<close> describes the aggregator at rest (state \<open>detecting\<close>, window
  all silence) and \<open>ramp c k\<close> the aggregator while a word is being heard (the
  newest \<open>k\<close> slots hold the class \<open>c\<close>, the others silence).
\<close>

section \<open>Runs\<close>

lemma run_results_append:
  "run_results (xs @ ys) s =
   seq_result (run_results xs s) (\<lambda>(s', out).
     seq_result (run_results ys s') (\<lambda>(s'', out'). Inr (s'', out @ out')))"
proof (induction xs arbitrary: s)
  case Nil
  show ?case
    by (cases "run_results ys s") (simp_all add: split_def)
next
  case (Cons x xs)
  show ?case
  proof (cases "process_result x s")
    case (Inl e)
    then show ?thesis by simp
  next
    case (Inr p)
    obtain s1 o1 where p: "p = (s1, o1)" by (cases p)
    show ?thesis
      by (cases "run_results xs s1"; cases "run_results ys (fst (projr (run_results xs s1)))")
        (simp_all add: Inr p Cons.IH split_def)
  qed
qed

lemma run_results_snoc:
  assumes "run_results xs s = Inr (s1, o1)" and "process_result x s1 = Inr (s2, o2)"
  shows "run_results (xs @ [x]) s = Inr (s2, o1 @ o2)"
  using assms by (simp add: run_results_append)

lemma run_results_Cons_Inr:
  assumes "process_result x s = Inr (s1, o1)" and "run_results xs s1 = Inr (s2, o2)"
  shows "run_results (x # xs) s = Inr (s2, o1 @ o2)"
  using assms by simp

section \<open>What one notification prints\<close>

definition quiet :: "aggregator \<Rightarrow> bool" where
  "quiet s \<longleftrightarrow>
     agg_inv s \<and> current_state s = detecting \<and> chrono s = replicate WINDOW_SIZE SILENCE"

definition ramp :: "u8 \<Rightarrow> nat \<Rightarrow> aggregator \<Rightarrow> bool" where
  "ramp c k s \<longleftrightarrow>
     agg_inv s \<and> current_state s = detecting \<and> last_result s = c \<and>
     chrono s = replicate (WINDOW_SIZE - k) SILENCE @ replicate k c"

lemma quiet_init: "quiet init_aggregator"
  by (simp add: quiet_def agg_inv_init chrono_init)

text \<open>A notification in terms of the hit of the scan on the stored state.\<close>

lemma process_result_detecting:
  assumes inv: "agg_inv s" and st: "current_state s = detecting"
    and v: "unat (written_value r s) < NUM_CLASSES"
  shows "\<exists>s'. process_result r s =
        Inr (s', if scan_hit (store_result r s)
                 then [CountsLine (occupancy (chrono (store_result r s))),
                       DetectLine (label ! unat (scan_class (store_result r s)))]
                 else []) \<and>
     current_state s' = (if scan_hit (store_result r s) then fill_silence else detecting) \<and>
     fill_silence_cnt s' = 0"
proof -
  let ?d = "store_result r s"
  from inv v have w: "window_inv ?d" and p: "process_result r s = finish r ?d"
    by (simp_all add: agg_inv_def store_result_window_inv process_result_finish)
  from st have d: "current_state ?d = detecting" by simp
  from inv st have f: "print_flag ?d = 0"
    by (simp add: agg_inv_def control_inv_def)
  from w have c: "result_count ?d = occupancy (chrono ?d)"
    by (simp add: window_inv_def)
  show ?thesis
  proof (cases "scan_hit ?d")
    case True
    with finish_detecting_hit [OF d w True, of r] p c show ?thesis by auto
  next
    case False
    with finish_detecting_miss [OF d w False f, of r] p show ?thesis by auto
  qed
qed

lemma process_result_cooldown:
  assumes inv: "agg_inv s" and st: "current_state s = fill_silence"
  shows "\<exists>s'. process_result r s = Inr (s', []) \<and>
     current_state s' =
       (if fill_silence_cnt s + 1 = FILL_SILENCE_MAX_CNT then detecting else fill_silence) \<and>
     fill_silence_cnt s' = fill_silence_cnt s + 1 \<and>
     chrono s' = tl (chrono s) @ [SILENCE]"
proof -
  from st have wv: "written_value r s = SILENCE"
    by (simp add: written_value_def)
  then have v: "unat (written_value r s) < NUM_CLASSES"
    by (simp add: kws_consts)
  from inv v have p: "process_result r s = finish r (store_result r s)"
    by (simp add: agg_inv_def process_result_finish)
  from st have "current_state (store_result r s) = fill_silence" by simp
  from finish_fill_silence [OF this, of r] p obtain s' where
    s': "process_result r s = Inr (s', [])"
    "current_state s' =
       (if fill_silence_cnt s + 1 = FILL_SILENCE_MAX_CNT then detecting else fill_silence)"
    "fill_silence_cnt s' = fill_silence_cnt s + 1"
    by auto
  with process_result_fields(5) [OF inv s'(1)] wv show ?thesis by auto
qed

lemma process_result_out_of_enum:
  assumes inv: "agg_inv s" and st: "current_state s = out_of_enum v"
    and v: "unat (written_value r s) < NUM_CLASSES"
  shows "\<exists>s'. process_result r s = Inr (s', []) \<and> current_state s' = detecting"
proof -
  from inv v have w: "window_inv (store_result r s)"
    and p: "process_result r s = finish r (store_result r s)"
    by (simp_all add: agg_inv_def store_result_window_inv process_result_finish)
  from st have "current_state (store_result r s) = out_of_enum v" by simp
  from finish_out_of_enum [OF this w, of r] p show ?thesis by auto
qed

section \<open>Detection and cooldown\<close>

text \<open>
  C8. A notification prints exactly when it takes the state from \<open>detecting\<close>
  to \<open>fill_silence\<close>; what it prints is the counts line followed by the label
  of a class that is not silence, and the cooldown counter is then 0.
\<close>

theorem detection_enters_cooldown:
  assumes "agg_inv s" and "process_result r s = Inr (s', out)"
  shows "(out \<noteq> [] \<longleftrightarrow> current_state s = detecting \<and> current_state s' = fill_silence) \<and>
     (out \<noteq> [] \<longrightarrow> fill_silence_cnt s' = 0 \<and>
        (\<exists>c. unat c < NUM_CLASSES \<and> c \<noteq> SILENCE \<and>
             out = [CountsLine (result_count s'), DetectLine (label ! unat c)]))"
proof (cases "current_state s")
  case detecting
  note v = process_result_Inr(1) [OF assms]
  let ?d = "store_result r s"
  from assms(1) v have w: "window_inv ?d"
    by (simp add: agg_inv_def store_result_window_inv)
  from process_result_detecting [OF assms(1) detecting v] assms(2)
  have out: "out = (if scan_hit ?d
      then [CountsLine (occupancy (chrono ?d)), DetectLine (label ! unat (scan_class ?d))]
      else [])"
    and st: "current_state s' = (if scan_hit ?d then fill_silence else detecting)"
    and cnt: "fill_silence_cnt s' = 0"
    by auto
  from process_result_fields(3) [OF assms]  process_result_fields(2) [OF assms]
  have "result_count s' = occupancy (chrono ?d)"
    by (simp add: store_result_def Let_def)
  with out st cnt detecting scan_class_window [OF _ w] show ?thesis
    by (cases "scan_hit ?d") auto
next
  case fill_silence
  from process_result_cooldown [OF assms(1) fill_silence, of r] assms(2) fill_silence
  show ?thesis by auto
next
  case (out_of_enum v)
  from process_result_out_of_enum [OF assms(1) out_of_enum process_result_Inr(1) [OF assms]]
    assms(2) out_of_enum
  show ?thesis by auto
qed

theorem detection_enters_cooldown_witness:
  "agg_inv init_aggregator \<and>
   (\<exists>s' out. process_result 0 init_aggregator = Inr (s', out) \<and>
      (out \<noteq> [] \<longleftrightarrow>
         current_state init_aggregator = detecting \<and> current_state s' = fill_silence))"
proof -
  obtain s' out where p: "process_result 0 init_aggregator = Inr (s', out)"
    using process_result_init [of 0] by (auto simp: NUM_CLASSES_def)
  from detection_enters_cooldown [OF agg_inv_init p] p agg_inv_init show ?thesis
    by blast
qed

lemma slide_silence:
  assumes "n < length c"
  shows "drop n (tl c @ [SILENCE]) @ replicate n SILENCE =
         drop (Suc n) c @ replicate (Suc n) SILENCE"
  using assms by (simp add: drop_Suc replicate_append_same)

text \<open>One notification of the cooldown, with the counter read as a number.\<close>

lemma cooldown_step:
  assumes "agg_inv s" and "current_state s = fill_silence"
  shows "\<exists>s1. process_result r s = Inr (s1, []) \<and> agg_inv s1 \<and>
     unat (fill_silence_cnt s) < unat FILL_SILENCE_MAX_CNT \<and>
     unat (fill_silence_cnt s1) = Suc (unat (fill_silence_cnt s)) \<and>
     current_state s1 =
       (if Suc (unat (fill_silence_cnt s)) = unat FILL_SILENCE_MAX_CNT
        then detecting else fill_silence) \<and>
     chrono s1 = tl (chrono s) @ [SILENCE]"
proof -
  let ?k = "fill_silence_cnt s"
  from assms have k: "unat ?k < unat FILL_SILENCE_MAX_CNT"
    by (simp add: agg_inv_def control_inv_def word_less_nat_alt)
  then have u: "unat (?k + 1) = Suc (unat ?k)"
    by (simp add: unat_u8_succ FILL_SILENCE_MAX_CNT_def)
  then have e: "?k + 1 = FILL_SILENCE_MAX_CNT \<longleftrightarrow> Suc (unat ?k) = unat FILL_SILENCE_MAX_CNT"
    by (simp add: word_unat_eq_iff)
  from process_result_cooldown [OF assms, of r] obtain s1 where
    p: "process_result r s = Inr (s1, [])"
    and "current_state s1 =
       (if ?k + 1 = FILL_SILENCE_MAX_CNT then detecting else fill_silence)"
    and "fill_silence_cnt s1 = ?k + 1" and "chrono s1 = tl (chrono s) @ [SILENCE]"
    by auto
  with process_result_preserves [OF assms(1) p] k u e show ?thesis by auto
qed

lemma cooldown_run:
  assumes "agg_inv s" and "current_state s = fill_silence"
    and "unat (fill_silence_cnt s) + length rs \<le> unat FILL_SILENCE_MAX_CNT"
  shows "\<exists>s'. run_results rs s = Inr (s', []) \<and> agg_inv s' \<and>
     current_state s' =
       (if unat (fill_silence_cnt s) + length rs = unat FILL_SILENCE_MAX_CNT
        then detecting else fill_silence) \<and>
     chrono s' = drop (length rs) (chrono s) @ replicate (length rs) SILENCE"
  using assms
proof (induction rs arbitrary: s)
  case Nil
  then show ?case
    by (auto simp: agg_inv_def control_inv_def word_less_nat_alt)
next
  case (Cons r rs)
  from cooldown_step [OF Cons.prems(1,2), of r] obtain s1 where
    p: "process_result r s = Inr (s1, [])" and inv1: "agg_inv s1"
    and cnt: "unat (fill_silence_cnt s1) = Suc (unat (fill_silence_cnt s))"
    and st: "current_state s1 =
       (if Suc (unat (fill_silence_cnt s)) = unat FILL_SILENCE_MAX_CNT
        then detecting else fill_silence)"
    and ch: "chrono s1 = tl (chrono s) @ [SILENCE]"
    by auto
  show ?case
  proof (cases rs)
    case Nil
    with p inv1 st ch show ?thesis by (auto simp: drop_Suc)
  next
    case (Cons r' rs')
    with Cons.prems(3) st have st1: "current_state s1 = fill_silence" by auto
    from Cons.prems(1,3) have n: "length rs < length (chrono s)"
      by (simp add: agg_inv_def window_inv_def kws_consts)
    from Cons.IH [OF inv1 st1] Cons.prems(3) cnt obtain s' where
      r: "run_results rs s1 = Inr (s', [])" and s': "agg_inv s'"
      "current_state s' =
        (if unat (fill_silence_cnt s1) + length rs = unat FILL_SILENCE_MAX_CNT
         then detecting else fill_silence)"
      and ch': "chrono s' = drop (length rs) (chrono s1) @ replicate (length rs) SILENCE"
      by auto
    from ch' ch slide_silence [OF n]
    have "chrono s' = drop (length (r # rs)) (chrono s) @ replicate (length (r # rs)) SILENCE"
      by simp
    with run_results_Cons_Inr [OF p r] s' cnt show ?thesis by auto
  qed
qed

text \<open>
  C9. Cooldown suppression: from the state a detection leaves (state
  \<open>fill_silence\<close>, counter 0), any 40 notifications, whatever their codes, print
  nothing and do not fault; every shorter run ends in \<open>fill_silence\<close>; the 40th
  notification returns the state to \<open>detecting\<close> with a window that holds
  silence in all its slots.
\<close>

theorem cooldown_suppression:
  assumes "agg_inv s" and "current_state s = fill_silence" and "fill_silence_cnt s = 0"
    and "length rs \<le> WINDOW_SIZE"
  shows "\<exists>s'. run_results rs s = Inr (s', []) \<and>
     current_state s' = (if length rs = WINDOW_SIZE then detecting else fill_silence) \<and>
     (length rs = WINDOW_SIZE \<longrightarrow> quiet s')"
proof -
  from assms(3,4) have "unat (fill_silence_cnt s) + length rs \<le> unat FILL_SILENCE_MAX_CNT"
    by (simp add: kws_consts)
  from cooldown_run [OF assms(1,2) this] assms(1,3) show ?thesis
    by (auto simp: quiet_def kws_consts agg_inv_def window_inv_def)
qed

theorem cooldown_suppression_witness:
  "agg_inv (init_aggregator\<lparr>current_state := fill_silence\<rparr>) \<and>
   (\<exists>s'. run_results [3, 3] (init_aggregator\<lparr>current_state := fill_silence\<rparr>) = Inr (s', []) \<and>
      current_state s' = fill_silence)"
proof -
  let ?s = "init_aggregator\<lparr>current_state := fill_silence\<rparr>"
  have i: "agg_inv ?s"
    using agg_inv_init
    by (simp add: agg_inv_def window_inv_def control_inv_def FILL_SILENCE_MAX_CNT_def)
  from cooldown_suppression [OF i, of "[3, 3]"] i show ?thesis
    by (simp add: WINDOW_SIZE_def)
qed

end
