(* ===== verification/Scenarios.thy ===== *)
theory Scenarios
  imports Detection
begin

text \<open>
  Whole utterances. \<open>blips\<close> are the code sequences the debounce rule filters
  out: every code is silence or differs from the code before it; they include
  the all-silence input. A word is a run of one class: the theorems count the
  notifications such a run needs before the scan raises the flag, and follow
  the aggregator through the detection and the cooldown back to rest.
\<close>

section \<open>Codes that never register\<close>

fun blips :: "u8 \<Rightarrow> u8 list \<Rightarrow> bool" where
  "blips l [] = True"
| "blips l (r # rs) = ((r = SILENCE \<or> r \<noteq> l) \<and> blips r rs)"

lemma hd_replicate_window [simp]: "hd (replicate WINDOW_SIZE x) = x"
  by (simp add: WINDOW_SIZE_def)

lemma tl_replicate_snoc: "0 < n \<Longrightarrow> tl (replicate n x) @ [x] = replicate n x"
  by (cases n) (simp_all add: replicate_append_same)

lemma scan_all_silence:
  "scan_chrono st (replicate n SILENCE) ct SILENCE = (ct + of_nat n, SILENCE, False)"
  using scan_chrono_silence [of st n "[]" ct] by simp

lemma quiet_step:
  assumes "quiet s" and "r = SILENCE \<or> r \<noteq> last_result s"
  shows "\<exists>s'. process_result r s = Inr (s', []) \<and> quiet s' \<and> last_result s' = r"
proof -
  let ?d = "store_result r s"
  from assms have inv: "agg_inv s" and st: "current_state s = detecting"
    and ch: "chrono s = replicate WINDOW_SIZE SILENCE"
    by (simp_all add: quiet_def)
  from assms(2) st have wv: "written_value r s = SILENCE"
    by (auto simp: written_value_def)
  then have v: "unat (written_value r s) < NUM_CLASSES"
    by (simp add: kws_consts)
  have sh: "tl (chrono s) @ [written_value r s] = replicate WINDOW_SIZE SILENCE"
    unfolding ch wv by (rule tl_replicate_snoc) (simp add: WINDOW_SIZE_def)
  with inv have chd: "chrono ?d = replicate WINDOW_SIZE SILENCE"
    by (simp add: agg_inv_def chrono_store_result)
  then have "\<not> scan_hit ?d"
    by (simp add: scan_hit_def scan_all_silence)
  with process_result_detecting [OF inv st v] obtain s' where
    p: "process_result r s = Inr (s', [])" and st': "current_state s' = detecting"
    by auto
  from process_result_fields(4,5) [OF inv p] sh process_result_preserves [OF inv p] st'
  have "quiet s'" and "last_result s' = r"
    by (simp_all add: quiet_def)
  with p show ?thesis by blast
qed

text \<open>
  C10. At rest (state \<open>detecting\<close>, window all silence), a sequence of codes in
  which every code is silence or differs from its predecessor prints nothing
  and leaves the aggregator at rest, whatever the codes are: isolated codes
  never enter the window. Silence only is such a sequence.
\<close>

theorem blips_never_detect:
  assumes "quiet s" and "blips (last_result s) rs"
  shows "\<exists>s'. run_results rs s = Inr (s', []) \<and> quiet s'"
  using assms
proof (induction rs arbitrary: s)
  case Nil
  then show ?case by simp
next
  case (Cons r rs)
  from Cons.prems(2) have "r = SILENCE \<or> r \<noteq> last_result s" and b: "blips r rs"
    by simp_all
  from quiet_step [OF Cons.prems(1) this(1)] obtain s1 where
    p: "process_result r s = Inr (s1, [])" and q: "quiet s1" and l: "last_result s1 = r"
    by auto
  from Cons.IH [OF q] b l obtain s' where "run_results rs s1 = Inr (s', [])" "quiet s'"
    by auto
  with run_results_Cons_Inr [OF p this(1)] show ?case by auto
qed

theorem blips_never_detect_witness:
  "quiet init_aggregator \<and> blips (last_result init_aggregator) [3, 10, 10, 5, 14, 7] \<and>
   (\<exists>s'. run_results [3, 10, 10, 5, 14, 7] init_aggregator = Inr (s', []) \<and> quiet s')"
proof -
  have b: "blips (last_result init_aggregator) [3, 10, 10, 5, 14, 7]"
    by (simp add: SILENCE_def)
  from blips_never_detect [OF quiet_init b] b quiet_init show ?thesis by blast
qed

lemma blips_silence: "blips l (replicate n SILENCE)"
  by (induction n arbitrary: l) simp_all

section \<open>A word: how many equal codes make a detection\<close>

lemma ramp_store:
  assumes "ramp c k s" and "k < WINDOW_SIZE - 1"
  shows "chrono (store_result c s) =
         replicate (WINDOW_SIZE - Suc k) SILENCE @ replicate (Suc k) c"
    and "hd (chrono (store_result c s)) = SILENCE"
    and "written_value c s = c"
proof -
  from assms(1) have inv: "agg_inv s" and st: "current_state s = detecting"
    and l: "last_result s = c"
    and ch: "chrono s = replicate (WINDOW_SIZE - k) SILENCE @ replicate k c"
    by (simp_all add: ramp_def)
  from st l show wv: "written_value c s = c"
    by (simp add: written_value_def)
  from assms(2) have "WINDOW_SIZE - k = Suc (WINDOW_SIZE - Suc k)"
    and pos: "0 < WINDOW_SIZE - Suc k"
    by simp_all
  with inv ch wv
  show chd: "chrono (store_result c s) =
      replicate (WINDOW_SIZE - Suc k) SILENCE @ replicate (Suc k) c"
    by (simp add: agg_inv_def chrono_store_result replicate_append_same)
  from pos show "hd (chrono (store_result c s)) = SILENCE"
    by (cases "WINDOW_SIZE - Suc k") (simp_all add: chd)
qed

lemma ramp_scan:
  assumes "c \<noteq> SILENCE"
  shows "scan_chrono detecting (replicate m SILENCE @ replicate (Suc k) c) 0 SILENCE =
     (if k < unat DETECTING_CONS_RESULT_CNT then (of_nat k, c, False)
      else (DETECTING_CONS_RESULT_CNT, c, True))"
proof -
  have "scan_chrono detecting (replicate m SILENCE @ replicate (Suc k) c) 0 SILENCE =
      scan_chrono detecting (replicate k c @ []) 0 c"
    using assms by (simp add: scan_chrono_silence DETECTING_CONS_RESULT_CNT_def)
  also have "\<dots> = (if k < unat DETECTING_CONS_RESULT_CNT then (of_nat k, c, False)
      else (DETECTING_CONS_RESULT_CNT, c, True))"
  proof (cases "k < unat DETECTING_CONS_RESULT_CNT")
    case True
    then show ?thesis
      using scan_chrono_block_miss [of 0 k detecting c "[]"] by simp
  next
    case False
    then show ?thesis
      using scan_chrono_block_hit [of 0 k c "[]"] assms
      by (simp add: DETECTING_CONS_RESULT_CNT_def)
  qed
  finally show ?thesis .
qed

lemma ramp_step:
  assumes r: "ramp c k s" and k: "k < WINDOW_SIZE - 1"
    and c: "c \<noteq> SILENCE" "unat c < NUM_CLASSES"
  shows "\<exists>s'. process_result c s =
       Inr (s', if k < unat DETECTING_CONS_RESULT_CNT then []
                else [CountsLine (occupancy
                        (replicate (WINDOW_SIZE - Suc k) SILENCE @ replicate (Suc k) c)),
                      DetectLine (label ! unat c)]) \<and>
     agg_inv s' \<and> fill_silence_cnt s' = 0 \<and>
     (if k < unat DETECTING_CONS_RESULT_CNT then ramp c (Suc k) s'
      else current_state s' = fill_silence)"
proof -
  let ?d = "store_result c s"
  note st = ramp_store [OF r k]
  from r have inv: "agg_inv s" and det: "current_state s = detecting"
    by (simp_all add: ramp_def)
  from st(3) c(2) have v: "unat (written_value c s) < NUM_CLASSES" by simp
  have scan: "scan_chrono detecting (chrono ?d) 0 (hd (chrono ?d)) =
     (if k < unat DETECTING_CONS_RESULT_CNT then (of_nat k, c, False)
      else (DETECTING_CONS_RESULT_CNT, c, True))"
    by (subst st(2), subst st(1)) (rule ramp_scan [OF c(1)])
  with det have hit: "scan_hit ?d \<longleftrightarrow> \<not> k < unat DETECTING_CONS_RESULT_CNT"
    and cls: "scan_class ?d = c"
    by (simp_all add: scan_hit_def scan_class_def)
  from process_result_detecting [OF inv det v] obtain s' where
    p: "process_result c s =
        Inr (s', if scan_hit ?d
                 then [CountsLine (occupancy (chrono ?d)), DetectLine (label ! unat (scan_class ?d))]
                 else [])"
    and st': "current_state s' = (if scan_hit ?d then fill_silence else detecting)"
    and cnt: "fill_silence_cnt s' = 0"
    by auto
  from process_result_preserves [OF inv p] have inv': "agg_inv s'" .
  from process_result_fields(4,5) [OF inv p] chrono_store_result [of s c] inv
  have "last_result s' = c" "chrono s' = chrono ?d"
    by (simp_all add: agg_inv_def)
  with p st' cnt inv' hit cls st(1) show ?thesis
    by (auto simp: ramp_def)
qed

lemma ramp_run:
  assumes "ramp c k s" and "k + n \<le> unat DETECTING_CONS_RESULT_CNT"
    and "c \<noteq> SILENCE" "unat c < NUM_CLASSES"
  shows "\<exists>s'. run_results (replicate n c) s = Inr (s', []) \<and> ramp c (k + n) s'"
  using assms(1,2)
proof (induction n arbitrary: k s)
  case 0
  then show ?case by simp
next
  case (Suc n)
  from Suc.prems(2) have k: "k < unat DETECTING_CONS_RESULT_CNT" "k < WINDOW_SIZE - 1"
    by (simp_all add: kws_consts)
  from ramp_step [OF Suc.prems(1) k(2) assms(3,4)] k(1) obtain s1 where
    p: "process_result c s = Inr (s1, [])" and r: "ramp c (Suc k) s1"
    by auto
  from Suc.IH [OF r] Suc.prems(2) obtain s' where
    "run_results (replicate n c) s1 = Inr (s', [])" "ramp c (Suc k + n) s'"
    by auto
  with run_results_Cons_Inr [OF p this(1)] show ?case by auto
qed

lemma quiet_ramp:
  assumes "quiet s" and "last_result s \<noteq> c"
  shows "\<exists>s'. process_result c s = Inr (s', []) \<and> ramp c 0 s'"
proof -
  from quiet_step [of s c] assms obtain s' where
    "process_result c s = Inr (s', [])" "quiet s'" "last_result s' = c"
    by auto
  then show ?thesis by (auto simp: quiet_def ramp_def)
qed

lemma word_quiet_run:
  assumes q: "quiet s" and l: "last_result s \<noteq> c"
    and c: "c \<noteq> SILENCE" "unat c < NUM_CLASSES"
    and n: "n \<le> unat DETECTING_CONS_RESULT_CNT"
  shows "\<exists>s'. run_results (replicate (Suc n) c) s = Inr (s', []) \<and> ramp c n s'"
proof -
  from quiet_ramp [OF q l] obtain s1 where
    p: "process_result c s = Inr (s1, [])" and r: "ramp c 0 s1"
    by auto
  from ramp_run [OF r _ c, of n] n obtain s' where
    "run_results (replicate n c) s1 = Inr (s', [])" "ramp c n s'"
    by auto
  with run_results_Cons_Inr [OF p this(1)] show ?thesis by auto
qed

lemma word_detected_run:
  assumes q: "quiet s" and l: "last_result s \<noteq> c"
    and c: "c \<noteq> SILENCE" "unat c < NUM_CLASSES"
  shows "\<exists>s'. run_results (replicate (unat DETECTING_CONS_RESULT_CNT + 2) c) s =
       Inr (s', [CountsLine (occupancy
                   (replicate (WINDOW_SIZE - Suc (unat DETECTING_CONS_RESULT_CNT)) SILENCE @
                    replicate (Suc (unat DETECTING_CONS_RESULT_CNT)) c)),
                 DetectLine (label ! unat c)]) \<and>
     agg_inv s' \<and> current_state s' = fill_silence \<and> fill_silence_cnt s' = 0"
proof -
  let ?T = "unat DETECTING_CONS_RESULT_CNT"
  from word_quiet_run [OF q l c order_refl] obtain s1 where
    r1: "run_results (replicate (Suc ?T) c) s = Inr (s1, [])" and r: "ramp c ?T s1"
    by auto
  have "?T < WINDOW_SIZE - 1" by (simp add: kws_consts)
  from ramp_step [OF r this c] obtain s' where
    p: "process_result c s1 =
        Inr (s', [CountsLine (occupancy (replicate (WINDOW_SIZE - Suc ?T) SILENCE @
                                        replicate (Suc ?T) c)),
                  DetectLine (label ! unat c)])"
    and s': "agg_inv s'" "current_state s' = fill_silence" "fill_silence_cnt s' = 0"
    by auto
  have "replicate (?T + 2) c = replicate (Suc ?T) c @ [c]"
    by (simp add: replicate_append_same)
  with run_results_snoc [OF r1 p] s' show ?thesis by simp
qed

text \<open>
  C11. The consensus threshold as the code has it. From rest, with the code
  before the word different from the word's class \<open>c\<close> (a real class, not
  silence), the first 21 equal codes print nothing, and the 22nd prints the
  counts line (19 silence, 21 of \<open>c\<close>) and the detection of \<open>label[c]\<close> and
  enters the cooldown. The first code is debounced away and the counter
  restarts from 0 at the class change, so the run in the window is
  \<open>DETECTING_CONS_RESULT_CNT + 1\<close> long when the flag is raised.
\<close>

theorem consensus_threshold:
  assumes "quiet s" and "last_result s \<noteq> c" and "c \<noteq> SILENCE" and "unat c < NUM_CLASSES"
  shows "(\<forall>n \<le> unat DETECTING_CONS_RESULT_CNT + 1.
            \<exists>s'. run_results (replicate n c) s = Inr (s', [])) \<and>
         (\<exists>s'. run_results (replicate (unat DETECTING_CONS_RESULT_CNT + 2) c) s =
            Inr (s', [CountsLine (occupancy (replicate 19 SILENCE @ replicate 21 c)),
                      DetectLine (label ! unat c)]) \<and>
            current_state s' = fill_silence)"
proof (intro conjI allI impI)
  fix n assume n: "n \<le> unat DETECTING_CONS_RESULT_CNT + 1"
  show "\<exists>s'. run_results (replicate n c) s = Inr (s', [])"
  proof (cases n)
    case 0
    then show ?thesis by simp
  next
    case (Suc m)
    with n word_quiet_run [OF assms, of m] show ?thesis by auto
  qed
next
  from word_detected_run [OF assms]
  show "\<exists>s'. run_results (replicate (unat DETECTING_CONS_RESULT_CNT + 2) c) s =
            Inr (s', [CountsLine (occupancy (replicate 19 SILENCE @ replicate 21 c)),
                      DetectLine (label ! unat c)]) \<and>
            current_state s' = fill_silence"
    by (auto simp: kws_consts)
qed

theorem consensus_threshold_witness:
  "\<exists>s'. run_results (replicate 22 0) init_aggregator =
      Inr (s', [CountsLine [21, 0, 0, 0, 0, 0, 0, 0, 0, 0, 19, 0], DetectLine ''yes'']) \<and>
      current_state s' = fill_silence"
proof -
  have "last_result init_aggregator \<noteq> 0" "(0 :: u8) \<noteq> SILENCE" "unat (0 :: u8) < NUM_CLASSES"
    by (simp_all add: kws_consts)
  from consensus_threshold [OF quiet_init this]
  have "\<exists>s'. run_results (replicate (unat DETECTING_CONS_RESULT_CNT + 2) 0) init_aggregator =
      Inr (s', [CountsLine (occupancy (replicate 19 SILENCE @ replicate 21 0)),
                DetectLine (label ! unat (0 :: u8))]) \<and> current_state s' = fill_silence"
    by blast
  moreover have "occupancy (replicate 19 SILENCE @ replicate 21 (0 :: u8)) =
      [21, 0, 0, 0, 0, 0, 0, 0, 0, 0, 19, 0]"
    by (simp add: occupancy_def kws_consts upt_rec)
  ultimately show ?thesis
    by (simp add: kws_consts label_def)
qed

text \<open>
  C12. One word, one detection. From rest, a run of 22 codes of a class
  followed by any 40 codes prints exactly one counts line and one detection:
  the 40 notifications of the cooldown print nothing whatever they carry, and
  afterwards the aggregator is at rest again, its window all silence.
\<close>

theorem one_word_one_detection:
  assumes "quiet s" and "last_result s \<noteq> c" and "c \<noteq> SILENCE" and "unat c < NUM_CLASSES"
    and "length rs = WINDOW_SIZE"
  shows "\<exists>s'. run_results (replicate 22 c @ rs) s =
       Inr (s', [CountsLine (occupancy (replicate 19 SILENCE @ replicate 21 c)),
                 DetectLine (label ! unat c)]) \<and> quiet s'"
proof -
  from word_detected_run [OF assms(1-4)] obtain s1 where
    r1: "run_results (replicate 22 c) s =
         Inr (s1, [CountsLine (occupancy (replicate 19 SILENCE @ replicate 21 c)),
                   DetectLine (label ! unat c)])"
    and s1: "agg_inv s1" "current_state s1 = fill_silence" "fill_silence_cnt s1 = 0"
    by (auto simp: kws_consts)
  from assms(5) have "unat (fill_silence_cnt s1) + length rs \<le> unat FILL_SILENCE_MAX_CNT"
    by (simp add: s1 kws_consts)
  from cooldown_run [OF s1(1,2) this] assms(5) s1 obtain s' where
    "run_results rs s1 = Inr (s', [])" "quiet s'"
    by (auto simp: quiet_def kws_consts agg_inv_def window_inv_def)
  with r1 show ?thesis by (simp add: run_results_append)
qed

theorem one_word_one_detection_witness:
  "\<exists>s'. run_results (replicate 22 9 @ replicate WINDOW_SIZE 9) init_aggregator =
       Inr (s', [CountsLine (occupancy (replicate 19 SILENCE @ replicate 21 9)),
                 DetectLine (label ! unat (9 :: u8))]) \<and> quiet s'"
proof -
  have "last_result init_aggregator \<noteq> 9" "(9 :: u8) \<noteq> SILENCE" "unat (9 :: u8) < NUM_CLASSES"
    by (simp_all add: kws_consts)
  from one_word_one_detection [OF quiet_init this, of "replicate WINDOW_SIZE 9"]
  show ?thesis by simp
qed

section \<open>The diagnostic majority and the defensive default\<close>

lemma agg_inv_some_count:
  assumes "agg_inv s"
  shows "length (result_count s) = NUM_CLASSES" and "\<exists>j<NUM_CLASSES. result_count s ! j \<noteq> 0"
proof -
  from assms have rc: "result_count s = occupancy (result_window s)"
    by (simp add: agg_inv_def window_inv_def)
  then show l: "length (result_count s) = NUM_CLASSES"
    by (simp add: length_occupancy)
  show "\<exists>j<NUM_CLASSES. result_count s ! j \<noteq> 0"
  proof (rule ccontr)
    assume "\<not> (\<exists>j<NUM_CLASSES. result_count s ! j \<noteq> 0)"
    with l have "\<forall>c\<in>set (result_count s). unat c = 0"
      by (auto simp: in_set_conv_nth)
    then have "(\<Sum>c\<leftarrow>result_count s. unat c) = 0"
      by (simp add: sum_list_eq_0_iff)
    with agg_inv_counts_sum [OF assms] show False
      by (simp add: WINDOW_SIZE_def)
  qed
qed

text \<open>
  C39. The most frequent class. After the majority loop \<open>max_result_count\<close> is
  the largest of the twelve counts, it is above 0, and \<open>max_result\<close> is the
  lowest class that has this count: ties go to the lowest index.
\<close>

theorem majority_is_first_maximum:
  assumes "agg_inv s"
  shows "unat (max_result (calc_average_result s)) < NUM_CLASSES \<and>
         result_count s ! unat (max_result (calc_average_result s)) =
           max_result_count (calc_average_result s) \<and>
         0 < max_result_count (calc_average_result s) \<and>
         (\<forall>j<NUM_CLASSES. result_count s ! j \<le> max_result_count (calc_average_result s)) \<and>
         (\<forall>j<unat (max_result (calc_average_result s)).
            result_count s ! j < max_result_count (calc_average_result s))"
proof -
  let ?m = "max_result (calc_average_result s)"
  let ?mc = "max_result_count (calc_average_result s)"
  note fm = calc_average_result_first_max [of s, unfolded first_max_def]
  from agg_inv_some_count(2) [OF assms] obtain j where
    j: "j < NUM_CLASSES" "result_count s ! j \<noteq> 0"
    by auto
  with fm have "result_count s ! j \<le> ?mc" by blast
  moreover from j(2) have "unat (result_count s ! j) \<noteq> 0"
    by (simp add: unat_eq_zero)
  ultimately have pos: "0 < ?mc"
    by (simp add: word_le_nat_alt word_less_nat_alt)
  with fm show ?thesis by auto
qed

theorem majority_is_first_maximum_witness:
  "agg_inv init_aggregator \<and>
   max_result (calc_average_result init_aggregator) = SILENCE \<and>
   max_result_count (calc_average_result init_aggregator) = 40"
proof -
  let ?m = "max_result (calc_average_result init_aggregator)"
  let ?mc = "max_result_count (calc_average_result init_aggregator)"
  have rc: "result_count init_aggregator = [0, 0, 0, 0, 0, 0, 0, 0, 0, 0, 40, 0]"
    by code_simp
  note m = majority_is_first_maximum [OF agg_inv_init, unfolded rc]
  have "unat ?m = 10"
  proof (rule ccontr)
    assume "unat ?m \<noteq> 10"
    with m have "[0, 0, 0, 0, 0, 0, 0, 0, 0, 0, 40, 0 :: u8] ! unat ?m = 0"
      by (auto simp: NUM_CLASSES_def nth_Cons' less_Suc_eq numeral_eq_Suc split: if_splits)
    with m show False by auto
  qed
  then have "?m = SILENCE" "?mc = 40"
    using m by (simp_all add: SILENCE_def u8_eq_iff_unat)
  with agg_inv_init show ?thesis by simp
qed

text \<open>
  C40. The defensive default. If \<open>current_state\<close> holds a value outside the
  enumeration, a notification with a class code prints nothing, stores the
  debounced code as in the state \<open>detecting\<close>, keeps the invariant and leaves
  the state at \<open>detecting\<close>.
\<close>

theorem out_of_enum_reset:
  assumes "agg_inv s" and "current_state s = out_of_enum v" and "unat r < NUM_CLASSES"
  shows "\<exists>s'. process_result r s = Inr (s', []) \<and> current_state s' = detecting \<and>
              agg_inv s' \<and> chrono s' = tl (chrono s) @ [written_value r s]"
proof -
  from assms(3) have w: "unat (written_value r s) < NUM_CLASSES"
    by (simp add: written_value_class)
  from process_result_out_of_enum [OF assms(1,2) w] obtain s' where
    p: "process_result r s = Inr (s', [])" and st: "current_state s' = detecting"
    by auto
  from process_result_preserves [OF assms(1) p] process_result_fields(5) [OF assms(1) p] p st
  show ?thesis by simp
qed

theorem out_of_enum_reset_witness:
  "\<exists>s'. process_result 4 (init_aggregator\<lparr>current_state := out_of_enum 7\<rparr>) = Inr (s', []) \<and>
        current_state s' = detecting \<and> agg_inv s'"
proof -
  have "agg_inv (init_aggregator\<lparr>current_state := out_of_enum 7\<rparr>)"
    using agg_inv_init by (simp add: agg_inv_def window_inv_def control_inv_def)
  from out_of_enum_reset [OF this, of 7 4] show ?thesis
    by (auto simp: NUM_CLASSES_def)
qed

end
