(* ===== verification/Notification.thy ===== *)
theory Notification
  imports Scenarios
begin

text \<open>
  The completion signal: the handoff between the interrupt handler and the
  loop of \<open>main\<close> (src/src_sw/main_codec.c). The handler \<open>intr_handler\<close> (lines
  329 to 341) sets \<open>inference_finish_flag\<close> when the accelerator's line reads 1;
  the loop (lines 162 to 172) tests the flag, clears it, reads the four result
  pins and runs the aggregator. The loop is cut at the points where an
  interrupt can fall between two of its statements: \<open>loop_pc\<close> says whether
  the next statement is the test, the clear or the body. An \<open>action\<close> is one
  run of the handler, with the level it reads, or the next statement of the
  loop, with the pins the body would read. \<open>codes\<close> and \<open>signals\<close> observe a
  sequence of actions: the codes the body processed and the number of signals
  raised.
\<close>

section \<open>Handler and loop\<close>

datatype loop_pc = at_test | at_clear | at_body

record host =
  inference_finish_flag :: int
  irq_enabled :: bool
  pc :: loop_pc
  agg :: aggregator

definition init_host :: host where
  "init_host =
     \<lparr>inference_finish_flag = 0, irq_enabled = True, pc = at_test, agg = init_aggregator\<rparr>"

text \<open>
  Lines 334 to 340: the level is the value of \<open>XGpio_DiscreteRead\<close>; the
  interrupt is disabled only on the branch that sets the flag and enabled
  again at the end of every run.
\<close>

definition intr_handler :: "u32 \<Rightarrow> host \<Rightarrow> host" where
  "intr_handler level h =
     (let h1 = (if level = 1 then h\<lparr>irq_enabled := False, inference_finish_flag := 1\<rparr> else h)
      in h1\<lparr>irq_enabled := True\<rparr>)"

text \<open>Lines 164 to 268, one statement group at a time.\<close>

definition main_step :: "u8 \<Rightarrow> u8 \<Rightarrow> u8 \<Rightarrow> u8 \<Rightarrow> host \<Rightarrow> fault + host \<times> printed list" where
  "main_step b0 b1 b2 b3 h =
     (case pc h of
        at_test \<Rightarrow> Inr (if inference_finish_flag h = 1 then h\<lparr>pc := at_clear\<rparr> else h, [])
      | at_clear \<Rightarrow> Inr (h\<lparr>inference_finish_flag := 0, pc := at_body\<rparr>, [])
      | at_body \<Rightarrow>
          seq_result (process_result (get_result b0 b1 b2 b3) (agg h))
            (\<lambda>(s', out). Inr (h\<lparr>agg := s', pc := at_test\<rparr>, out)))"

datatype action = Irq u32 | Main u8 u8 u8 u8

fun step :: "action \<Rightarrow> host \<Rightarrow> fault + host \<times> printed list" where
  "step (Irq level) h = Inr (intr_handler level h, [])"
| "step (Main b0 b1 b2 b3) h = main_step b0 b1 b2 b3 h"

fun run_actions :: "action list \<Rightarrow> host \<Rightarrow> fault + host \<times> printed list" where
  "run_actions [] h = Inr (h, [])"
| "run_actions (a # as) h =
     seq_result (step a h) (\<lambda>(h', out).
     seq_result (run_actions as h') (\<lambda>(h'', out'). Inr (h'', out @ out')))"

lemmas notification_ops [kws_ops] = intr_handler_def main_step_def

section \<open>Observations\<close>

fun signals :: "action list \<Rightarrow> nat" where
  "signals [] = 0"
| "signals (Irq level # as) = (if level = 1 then 1 else 0) + signals as"
| "signals (Main b0 b1 b2 b3 # as) = signals as"

fun codes :: "action list \<Rightarrow> host \<Rightarrow> u8 list" where
  "codes [] h = []"
| "codes (a # as) h =
     (case step a h of
        Inl e \<Rightarrow> []
      | Inr (h', out) \<Rightarrow>
          (case a of
             Main b0 b1 b2 b3 \<Rightarrow> (if pc h = at_body then [get_result b0 b1 b2 b3] else [])
           | Irq level \<Rightarrow> []) @ codes as h')"

definition pending :: "host \<Rightarrow> nat" where
  "pending h =
     (if pc h = at_body then 1 else 0) + (if inference_finish_flag h = 1 then 1 else 0)"

definition host_inv :: "host \<Rightarrow> bool" where
  "host_inv h \<longleftrightarrow>
     (pc h = at_clear \<longrightarrow> inference_finish_flag h = 1) \<and>
     (inference_finish_flag h = 0 \<or> inference_finish_flag h = 1) \<and>
     irq_enabled h \<and> agg_inv (agg h)"

section \<open>One action\<close>

lemma host_inv_init: "host_inv init_host"
  by (simp add: host_inv_def init_host_def agg_inv_init)

lemma intr_handler_fields [simp]:
  "agg (intr_handler level h) = agg h"
  "pc (intr_handler level h) = pc h"
  "irq_enabled (intr_handler level h)"
  "inference_finish_flag (intr_handler level h) =
     (if level = 1 then 1 else inference_finish_flag h)"
  by (simp_all add: intr_handler_def)

lemma intr_handler_idem: "intr_handler 1 (intr_handler 1 h) = intr_handler 1 h"
  by (simp add: intr_handler_def)

lemma step_Irq_inv: "host_inv h \<Longrightarrow> host_inv (intr_handler level h)"
  by (simp add: host_inv_def)

lemma main_step_cases:
  "pc h = at_test \<Longrightarrow>
     main_step b0 b1 b2 b3 h =
       Inr (if inference_finish_flag h = 1 then h\<lparr>pc := at_clear\<rparr> else h, [])"
  "pc h = at_clear \<Longrightarrow>
     main_step b0 b1 b2 b3 h = Inr (h\<lparr>inference_finish_flag := 0, pc := at_body\<rparr>, [])"
  "pc h = at_body \<Longrightarrow>
     main_step b0 b1 b2 b3 h =
       seq_result (process_result (get_result b0 b1 b2 b3) (agg h))
         (\<lambda>(s', out). Inr (h\<lparr>agg := s', pc := at_test\<rparr>, out))"
  by (simp_all add: main_step_def)

lemma main_step_body_Inr:
  assumes "pc h = at_body" and "main_step b0 b1 b2 b3 h = Inr (h', out)"
  shows "process_result (get_result b0 b1 b2 b3) (agg h) = Inr (agg h', out)"
    and "pc h' = at_test" and "inference_finish_flag h' = inference_finish_flag h"
    and "irq_enabled h' = irq_enabled h"
  using assms by (auto simp: main_step_cases(3) seq_result_eq_Inr)

lemma main_step_other_Inr:
  assumes "pc h \<noteq> at_body" and "main_step b0 b1 b2 b3 h = Inr (h', out)"
  shows "agg h' = agg h" and "out = []"
  using assms by (cases "pc h"; auto simp: main_step_cases)+

lemma step_inv:
  assumes "host_inv h" and "step a h = Inr (h', out)"
  shows "host_inv h'"
proof (cases a)
  case (Irq level)
  with assms show ?thesis by (auto simp: step_Irq_inv)
next
  case (Main b0 b1 b2 b3)
  show ?thesis
  proof (cases "pc h")
    case at_body
    from assms(2) Main have m: "main_step b0 b1 b2 b3 h = Inr (h', out)" by simp
    note b = main_step_body_Inr [OF at_body m]
    from assms(1) have "agg_inv (agg h)" by (simp add: host_inv_def)
    from process_result_preserves [OF this b(1)] b(2-4) assms(1) show ?thesis
      by (simp add: host_inv_def)
  qed (use assms Main in \<open>auto simp: host_inv_def main_step_cases split: if_splits\<close>)
qed

lemma run_actions_Cons_Inr:
  "run_actions (a # as) h = Inr (h', out) \<longleftrightarrow>
     (\<exists>h1 o1 o2. step a h = Inr (h1, o1) \<and> run_actions as h1 = Inr (h', o2) \<and> out = o1 @ o2)"
  by (auto simp: seq_result_eq_Inr)

lemma codes_Cons_Inr:
  "step a h = Inr (h1, o1) \<Longrightarrow>
   codes (a # as) h =
     (case a of
        Main b0 b1 b2 b3 \<Rightarrow> (if pc h = at_body then [get_result b0 b1 b2 b3] else [])
      | Irq level \<Rightarrow> []) @ codes as h1"
  by simp

lemma pending_step:
  assumes "host_inv h" and "step a h = Inr (h1, o1)"
  shows "length (case a of
            Main b0 b1 b2 b3 \<Rightarrow> (if pc h = at_body then [get_result b0 b1 b2 b3] else [])
          | Irq level \<Rightarrow> []) + pending h1 \<le> signals [a] + pending h"
proof (cases a)
  case (Irq level)
  with assms(2) show ?thesis by (auto simp: pending_def split: if_splits)
next
  case (Main b0 b1 b2 b3)
  with assms(2) have m: "main_step b0 b1 b2 b3 h = Inr (h1, o1)" by simp
  show ?thesis
  proof (cases "pc h")
    case at_body
    from main_step_body_Inr(2,3) [OF at_body m] at_body Main show ?thesis
      by (simp add: pending_def)
  qed (use assms(1) m Main in \<open>auto simp: pending_def host_inv_def main_step_cases\<close>)
qed

section \<open>Properties of the handoff\<close>

lemma run_actions_run_results:
  assumes "run_actions as h = Inr (h', out)"
  shows "run_results (codes as h) (agg h) = Inr (agg h', out)"
  using assms
proof (induction as arbitrary: h out)
  case Nil
  then show ?case by simp
next
  case (Cons a as)
  from Cons.prems obtain h1 o1 o2 where
    s: "step a h = Inr (h1, o1)" and r: "run_actions as h1 = Inr (h', o2)"
    and out: "out = o1 @ o2"
    unfolding run_actions_Cons_Inr by blast
  note ih = Cons.IH [OF r]
  show ?case
  proof (cases a)
    case (Irq level)
    with s ih out show ?thesis by auto
  next
    case (Main b0 b1 b2 b3)
    with s have m: "main_step b0 b1 b2 b3 h = Inr (h1, o1)" by simp
    show ?thesis
    proof (cases "pc h = at_body")
      case True
      from run_results_Cons_Inr [OF main_step_body_Inr(1) [OF True m] ih] s Main True out
      show ?thesis by simp
    next
      case False
      from main_step_other_Inr [OF False m] s Main False ih out
      show ?thesis by simp
    qed
  qed
qed

text \<open>
  C27. The loop feeds the aggregator the codes it reads in the body, in order,
  and nothing else touches the aggregator: a sequence of handler runs and loop
  statements that does not fault leaves the aggregator in the state, and
  prints the lines, that \<open>run_results\<close> gives on the codes of the body steps.
\<close>

theorem host_runs_aggregator:
  assumes "run_actions as h = Inr (h', out)"
  shows "run_results (codes as h) (agg h) = Inr (agg h', out)"
  using assms by (rule run_actions_run_results)

lemma run_actions_inv:
  assumes "host_inv h" and "run_actions as h = Inr (h', out)"
  shows "host_inv h'"
  using assms
proof (induction as arbitrary: h out)
  case Nil
  then show ?case by simp
next
  case (Cons a as)
  from Cons.prems(2) obtain h1 o1 o2 where
    s: "step a h = Inr (h1, o1)" and r: "run_actions as h1 = Inr (h', o2)"
    unfolding run_actions_Cons_Inr by blast
  from Cons.IH [OF step_inv [OF Cons.prems(1) s] r] show ?case .
qed

lemma run_actions_reachable:
  assumes "reachable (agg h)" and "run_actions as h = Inr (h', out)"
  shows "reachable (agg h')"
  using run_results_reachable [OF assms(1) run_actions_run_results [OF assms(2)]] .

theorem host_runs_aggregator_witness:
  "\<exists>h'. run_actions [Irq 1, Main 0 0 0 0, Main 0 0 0 0, Main 1 1 0 0] init_host = Inr (h', []) \<and>
        run_results [3] init_aggregator = Inr (agg h', [])"
proof -
  have g: "get_result 1 1 0 0 = 3" by (simp add: get_result_def)
  obtain s' where s': "process_result 3 init_aggregator = Inr (s', [])"
    using quiet_step [OF quiet_init, of 3] by (auto simp: SILENCE_def)
  from s' g have r: "run_actions [Irq 1, Main 0 0 0 0, Main 0 0 0 0, Main 1 1 0 0] init_host =
      Inr (init_host\<lparr>inference_finish_flag := 0, irq_enabled := True, agg := s', pc := at_test\<rparr>, [])"
    by (simp add: init_host_def intr_handler_def main_step_def)
  have c: "codes [Irq 1, Main 0 0 0 0, Main 0 0 0 0, Main 1 1 0 0] init_host = [3]"
    using s' g by (simp add: init_host_def intr_handler_def main_step_def)
  from host_runs_aggregator [OF r] r show ?thesis
    unfolding c by (auto simp: init_host_def)
qed

text \<open>
  C28. No frame without a signal. In every sequence of actions the number of
  codes the loop processes is at most the number of handler runs that saw the
  line at 1, plus the notifications already pending at the start (one if the
  flag is set, one if the loop is in its body).
\<close>

theorem frames_le_signals:
  assumes "host_inv h"
  shows "length (codes as h) \<le> signals as + pending h"
  using assms
proof (induction as arbitrary: h)
  case Nil
  show ?case by simp
next
  case (Cons a as)
  show ?case
  proof (cases "step a h")
    case (Inl e)
    then show ?thesis by simp
  next
    case (Inr p)
    obtain h1 o1 where p: "p = (h1, o1)" by (cases p)
    note s = Inr [unfolded p]
    from Cons.IH [OF step_inv [OF Cons.prems s]]
    have "length (codes as h1) \<le> signals as + pending h1" .
    moreover have "signals (a # as) = signals [a] + signals as"
      by (cases a) simp_all
    ultimately show ?thesis
      using pending_step [OF Cons.prems s] by (simp only: codes_Cons_Inr [OF s] length_append)
  qed
qed

theorem frames_le_signals_witness:
  "host_inv init_host \<and>
   length (codes [Irq 1, Irq 1, Main 0 0 0 0, Main 0 0 0 0, Main 0 0 0 0, Main 0 0 0 0] init_host)
     \<le> 2"
proof -
  let ?as = "[Irq 1, Irq 1, Main 0 0 0 0, Main 0 0 0 0, Main 0 0 0 0, Main 0 0 0 0]"
  have "signals ?as = 2" by simp
  moreover have "pending init_host = 0" by (simp add: pending_def init_host_def)
  moreover note frames_le_signals [OF host_inv_init, of ?as]
  ultimately have "length (codes ?as init_host) \<le> 2" by linarith
  with host_inv_init show ?thesis by blast
qed

text \<open>
  C29. A raised flag is served. When the flag is set and the loop is at its
  test, the next three statements of the loop (test, clear, body) process the
  code on the pins at the time of the body, whatever the pins were before,
  clear the flag and return to the test; if the code is a class (below 12) the
  body does not fault.
\<close>

theorem flag_is_served:
  assumes "host_inv h" and "pc h = at_test" and "inference_finish_flag h = 1"
    and "unat (get_result b0 b1 b2 b3) < NUM_CLASSES"
  shows "\<exists>h' out. run_actions [Main a0 a1 a2 a3, Main c0 c1 c2 c3, Main b0 b1 b2 b3] h =
                     Inr (h', out) \<and>
           process_result (get_result b0 b1 b2 b3) (agg h) = Inr (agg h', out) \<and>
           pc h' = at_test \<and> inference_finish_flag h' = 0"
proof -
  from assms(1) have inv: "agg_inv (agg h)" by (simp add: host_inv_def)
  with assms(4) have "is_ok (process_result (get_result b0 b1 b2 b3) (agg h))"
    by (simp add: process_result_ok written_value_class)
  then obtain s' out where p: "process_result (get_result b0 b1 b2 b3) (agg h) = Inr (s', out)"
    by (auto simp: is_ok_iff)
  with assms(2,3) show ?thesis
    by (simp add: main_step_def)
qed

theorem flag_is_served_witness:
  "\<exists>h' out. run_actions [Main 1 1 1 1, Main 1 0 1 0, Main 0 1 0 0]
                (init_host\<lparr>inference_finish_flag := 1\<rparr>) = Inr (h', out) \<and>
     process_result 2 init_aggregator = Inr (agg h', out) \<and>
     pc h' = at_test \<and> inference_finish_flag h' = 0"
proof -
  have g: "get_result 0 1 0 0 = 2" by (simp add: get_result_def)
  have "host_inv (init_host\<lparr>inference_finish_flag := 1\<rparr>)"
    "pc (init_host\<lparr>inference_finish_flag := 1\<rparr>) = at_test"
    "inference_finish_flag (init_host\<lparr>inference_finish_flag := 1\<rparr>) = 1"
    "unat (get_result 0 1 0 0) < NUM_CLASSES"
    by (simp_all add: host_inv_def init_host_def agg_inv_init g NUM_CLASSES_def)
  from flag_is_served [OF this, of 1 1 1 1 1 0 1 0] show ?thesis
    by (simp add: g init_host_def)
qed

text \<open>
  C30. The flag holds one signal. Two runs of the handler that both see the
  line at 1, with no statement of the loop between them, leave the host as one
  run does: the second signal is merged into the first and its frame is never
  processed.
\<close>

theorem signals_merge:
  "run_actions (Irq 1 # Irq 1 # as) h = run_actions (Irq 1 # as) h"
  by (cases "run_actions as (intr_handler 1 h)") (simp_all add: intr_handler_idem)

text \<open>
  C32. The code read from the pins. When every pin reads 0 or 1 the code is
  \<open>b0 + 2 b1 + 4 b2 + 8 b3\<close>, a number below 16: the four pins can name four
  codes, 12 to 15, that are not classes.
\<close>

theorem get_result_code:
  assumes "b0 \<le> 1" and "b1 \<le> 1" and "b2 \<le> 1" and "b3 \<le> 1"
  shows "unat (get_result b0 b1 b2 b3) = unat b0 + 2 * unat b1 + 4 * unat b2 + 8 * unat b3 \<and>
         unat (get_result b0 b1 b2 b3) < 16"
proof -
  have bit: "b = 0 \<or> b = 1" if "b \<le> 1" for b :: u8
    using that by (auto simp: word_le_nat_alt u8_eq_iff_unat)
  from bit [OF assms(1)] bit [OF assms(2)] bit [OF assms(3)] bit [OF assms(4)]
  show ?thesis
    by (auto simp: get_result_def)
qed

theorem get_result_code_witness:
  "unat (get_result 1 0 1 1) = 13 \<and> unat (get_result 1 0 1 1) < 16"
  using get_result_code [of 1 0 1 1] by simp

text \<open>
  C31. A signal that arrives while the loop is in its body is kept. With the
  loop at its body, a handler run before the body and a handler run after it
  give the same result, fault or not: the body does not touch the flag, so the
  signal is served by the next pass of the loop. (Between the test and the
  clear this is not so: there the clear that follows wipes the signal.)
\<close>

theorem signal_during_body_is_kept:
  assumes "pc h = at_body"
  shows "run_actions (Irq level # Main b0 b1 b2 b3 # as) h =
         run_actions (Main b0 b1 b2 b3 # Irq level # as) h"
proof (cases "process_result (get_result b0 b1 b2 b3) (agg h)")
  case (Inl e)
  with assms show ?thesis
    by (simp add: main_step_def)
next
  case (Inr p)
  obtain s' out where "p = (s', out)" by (cases p)
  with Inr assms have
    "step (Main b0 b1 b2 b3) (intr_handler level h) =
       Inr (intr_handler level (h\<lparr>agg := s', pc := at_test\<rparr>), out)"
    "step (Main b0 b1 b2 b3) h = Inr (h\<lparr>agg := s', pc := at_test\<rparr>, out)"
    by (simp_all add: main_step_def intr_handler_def)
  then show ?thesis
    by (cases "run_actions as (intr_handler level (h\<lparr>agg := s', pc := at_test\<rparr>))") auto
qed

theorem signal_during_body_is_kept_witness:
  "run_actions [Irq 1, Main 0 0 0 0] (init_host\<lparr>pc := at_body\<rparr>) =
   run_actions [Main 0 0 0 0, Irq 1] (init_host\<lparr>pc := at_body\<rparr>) \<and>
   run_actions [Irq 1, Main 0 0 0 0] (init_host\<lparr>pc := at_clear\<rparr>) \<noteq>
   run_actions [Main 0 0 0 0, Irq 1] (init_host\<lparr>pc := at_clear\<rparr>)"
proof -
  have "pc (init_host\<lparr>pc := at_body\<rparr>) = at_body" by simp
  from signal_during_body_is_kept [OF this, of 1 0 0 0 0 "[]"] show ?thesis
    by (simp add: main_step_def intr_handler_def init_host_def)
qed

end
