(* ===== verification/Codec_I2C.thy ===== *)
theory Codec_I2C
  imports Wire_Format
begin

text \<open>
  The register write of the codec configuration: \<open>ADAU1761_Write_Reg\<close>
  (src/src_sw/main_codec.c, lines 383 to 405) with the constants of
  src/src_sw/adau1761.h. The frame buffer \<open>I2C_DATA\<close> has
  \<open>MAX_BRUST_LEN + 2\<close> bytes; \<open>MAX_BRUST_LEN\<close> is \<open>PROGRAM_SIZE_ADAU1761 + 5\<close>,
  and since the header that defines the program size is not in the
  repository the size is a parameter. The bus is the list of frames sent,
  each with its device address. The wait loop at the end polls
  \<open>XIicPs_BusIsBusy\<close>: its readings are a list, and a list that never reads
  idle is a call that does not return (\<open>None\<close>). The calls of this function
  by \<open>init_ADAU1761\<close> are in the theory \<open>Codec_Init\<close>.
\<close>

type_synonym u16 = "16 word"
type_synonym i2c_bus = "(u8 \<times> u8 list) list"

definition ADAU1761_DEV_ADDR :: u8 where "ADAU1761_DEV_ADDR = 0x3B"

definition MAX_BRUST_LEN :: "nat \<Rightarrow> nat" where
  "MAX_BRUST_LEN program_size = program_size + 5"

text \<open>Lines 396 to 398: \<open>I2C_DATA[2 + i] = reg_data[i]\<close> for \<open>i < length\<close>.\<close>

function copy_loop :: "nat \<Rightarrow> u8 list \<Rightarrow> u8 list \<Rightarrow> nat \<Rightarrow> mem_fault + u8 list" where
  "copy_loop len reg_data I2C_DATA i =
     (if i < len then
        (if length reg_data \<le> i then Inl (BufferIndex i)
         else if length I2C_DATA \<le> 2 + i then Inl (BufferIndex (2 + i))
         else copy_loop len reg_data (I2C_DATA[2 + i := reg_data ! i]) (Suc i))
      else Inr I2C_DATA)"
  by pat_completeness auto
termination
  by (relation "measure (\<lambda>(len, reg_data, I2C_DATA, i). len - i)") auto

declare copy_loop.simps [simp del]

text \<open>Line 404: \<open>while (XIicPs_BusIsBusy(&Iic));\<close> over the readings to come.\<close>

fun wait_idle :: "bool list \<Rightarrow> bool list option" where
  "wait_idle [] = None"
| "wait_idle (busy # readings) = (if busy then wait_idle readings else Some readings)"

definition ADAU1761_Write_Reg ::
  "nat \<Rightarrow> u16 \<Rightarrow> u16 \<Rightarrow> u8 list \<Rightarrow> i2c_bus \<Rightarrow> bool list \<Rightarrow>
   mem_fault + (i2c_bus \<times> bool list) option \<times> string list" where
  "ADAU1761_Write_Reg program_size reg_addr len reg_data bus readings =
     (let out = (if MAX_BRUST_LEN program_size < unat len
                 then [''IIC REG Address write length exceed MAX_BRUST_LEN''] else []);
          d0 = replicate (MAX_BRUST_LEN program_size + 2) 0;
          d1 = d0[0 := ucast (drop_bit 8 reg_addr)];
          d2 = d1[1 := ucast (reg_addr AND 0xFF)]
      in seq_result (copy_loop (unat len) reg_data d2 0) (\<lambda>d.
           let bus' = bus @ [(ADAU1761_DEV_ADDR, take (unat len + 2) d)]
           in Inr (case wait_idle readings of
                     None \<Rightarrow> None
                   | Some rest \<Rightarrow> Some (bus', rest), out)))"

section \<open>The copy loop and the wait\<close>

lemma copy_loop_ok:
  assumes "len \<le> length reg_data" and "2 + len \<le> length d" and "i \<le> len"
  shows "copy_loop len reg_data d i =
         Inr (take (2 + i) d @ take (len - i) (drop i reg_data) @ drop (2 + len) d)"
  using assms
proof (induction "len - i" arbitrary: i d)
  case 0
  then show ?case
    by (subst copy_loop.simps) simp
next
  case (Suc k)
  then have lt: "i < len" and k: "k = len - Suc i" by simp_all
  let ?d = "d[2 + i := reg_data ! i]"
  from Suc.prems lt have ih: "copy_loop len reg_data ?d (Suc i) =
      Inr (take (2 + Suc i) ?d @ take (len - Suc i) (drop (Suc i) reg_data) @ drop (2 + len) ?d)"
    by (intro Suc.hyps(1) [OF k]) simp_all
  from Suc.prems lt have t: "take (2 + Suc i) ?d = take (2 + i) d @ [reg_data ! i]"
    by (simp add: take_Suc_conv_app_nth)
  from lt Suc.prems have dr: "drop (2 + len) ?d = drop (2 + len) d" by simp
  from lt have "len - i = Suc (len - Suc i)" by simp
  with lt Suc.prems have "take (len - i) (drop i reg_data) =
      reg_data ! i # take (len - Suc i) (drop (Suc i) reg_data)"
    by (simp add: Cons_nth_drop_Suc [symmetric])
  with ih t dr lt Suc.prems show ?case
    by (subst copy_loop.simps) simp
qed

lemma copy_loop_fault:
  assumes "i \<le> len" and "i \<le> min (length reg_data) (length d - 2)"
    and "min (length reg_data) (length d - 2) < len" and "2 \<le> length d"
  shows "\<exists>j. copy_loop len reg_data d i = Inl (BufferIndex j)"
  using assms
proof (induction "min (length reg_data) (length d - 2) - i" arbitrary: i d)
  case 0
  then show ?case
    by (subst copy_loop.simps) (auto simp: min_def split: if_splits)
next
  case (Suc k)
  let ?d = "d[2 + i := reg_data ! i]"
  from Suc.hyps(2) have lt: "i < min (length reg_data) (length d - 2)" by linarith
  from Suc.hyps(2) have k: "k = min (length reg_data) (length ?d - 2) - Suc i" by simp
  from lt Suc.prems have "Suc i \<le> len" "Suc i \<le> min (length reg_data) (length ?d - 2)"
    "min (length reg_data) (length ?d - 2) < len" "2 \<le> length ?d"
    by (auto simp: min_def split: if_splits)
  then have "\<exists>j. copy_loop len reg_data ?d (Suc i) = Inl (BufferIndex j)"
    by (rule Suc.hyps(1) [OF k])
  moreover from lt Suc.prems have "i < len" "\<not> length reg_data \<le> i" "\<not> length d \<le> 2 + i"
    by (auto simp: min_def split: if_splits)
  ultimately show ?case
    by (subst copy_loop.simps) simp
qed

lemma take_frame:
  "n \<le> length xs \<Longrightarrow> take (Suc (Suc n)) (a # b # take n xs @ ys) = a # b # take n xs"
  by simp

lemma wait_idle_Some_iff: "(\<exists>rest. wait_idle readings = Some rest) \<longleftrightarrow> False \<in> set readings"
  by (induction readings) auto

lemma wait_idle_eq:
  "wait_idle readings =
     (if False \<in> set readings then Some (tl (dropWhile (\<lambda>b. b) readings)) else None)"
  by (induction readings) auto

section \<open>A register write\<close>

lemma reg_addr_bytes:
  "unat (ucast (drop_bit 8 reg_addr) :: u8) * 256 + unat (ucast (reg_addr AND 0xFF) :: u8) =
   unat (reg_addr :: u16)"
proof -
  have "(0xFF :: u16) = mask 8" by (simp add: mask_eq_exp_minus_1)
  then have e: "reg_addr AND 0xFF = take_bit 8 reg_addr" by (simp add: take_bit_eq_mask)
  have "unat (ucast (take_bit 8 reg_addr) :: u8) = take_bit 8 (unat reg_addr)"
    by (simp add: unsigned_ucast_eq unsigned_take_bit_eq)
  then have lo: "unat (ucast (reg_addr AND 0xFF) :: u8) = unat reg_addr mod 256"
    unfolding e by (simp add: take_bit_eq_mod)
  have "take_bit 16 (unat reg_addr) = unat reg_addr"
    using unsigned_less [of reg_addr, where ?'a = nat] by (simp add: take_bit_nat_eq_self_iff)
  then have "unat (ucast (drop_bit 8 reg_addr) :: u8) = take_bit 8 (drop_bit 8 (unat reg_addr))"
    by (simp add: unsigned_ucast_eq unsigned_drop_bit_eq)
  then have hi: "unat (ucast (drop_bit 8 reg_addr) :: u8) = unat reg_addr div 256"
    using unsigned_less [of reg_addr, where ?'a = nat]
    by (simp add: take_bit_eq_mod drop_bit_eq_div)
  show ?thesis
    unfolding lo hi by simp
qed

lemma ADAU1761_Write_Reg_ok:
  assumes "unat len \<le> MAX_BRUST_LEN program_size" and "unat len \<le> length reg_data"
  shows "ADAU1761_Write_Reg program_size reg_addr len reg_data bus readings =
     Inr (case wait_idle readings of
            None \<Rightarrow> None
          | Some rest \<Rightarrow>
              Some (bus @ [(ADAU1761_DEV_ADDR,
                            [ucast (drop_bit 8 reg_addr), ucast (reg_addr AND 0xFF)] @
                            take (unat len) reg_data)], rest),
          [])"
proof -
  let ?d2 = "(replicate (MAX_BRUST_LEN program_size + 2) (0 :: u8))
               [0 := ucast (drop_bit 8 reg_addr), 1 := ucast (reg_addr AND 0xFF)]"
  have two: "take 2 ?d2 = [ucast (drop_bit 8 reg_addr), ucast (reg_addr AND 0xFF)]"
    by (simp add: numeral_2_eq_2 take_Suc_conv_app_nth MAX_BRUST_LEN_def)
  from assms have "copy_loop (unat len) reg_data ?d2 0 =
      Inr (take 2 ?d2 @ take (unat len) reg_data @ drop (2 + unat len) ?d2)"
    using copy_loop_ok [of "unat len" reg_data ?d2 0] by simp
  with assms two show ?thesis
    by (cases "wait_idle readings") (simp_all add: ADAU1761_Write_Reg_def Let_def take_frame)
qed

lemma ADAU1761_Write_Reg_fault:
  assumes "min (length reg_data) (MAX_BRUST_LEN program_size) < unat len"
  shows "\<exists>j. ADAU1761_Write_Reg program_size reg_addr len reg_data bus readings =
              Inl (BufferIndex j)"
proof -
  let ?d2 = "(replicate (MAX_BRUST_LEN program_size + 2) (0 :: u8))
               [0 := ucast (drop_bit 8 reg_addr), 1 := ucast (reg_addr AND 0xFF)]"
  from assms have "\<exists>j. copy_loop (unat len) reg_data ?d2 0 = Inl (BufferIndex j)"
    by (intro copy_loop_fault) simp_all
  then show ?thesis
    by (auto simp: ADAU1761_Write_Reg_def Let_def)
qed

section \<open>Properties of a register write\<close>

text \<open>
  C33. A register write of \<open>len\<close> bytes that fit the frame buffer and the
  data array, on a bus that reads idle at some time, returns after sending one
  frame to the device address 0x3B: the register address, high byte first,
  followed by the first \<open>len\<close> bytes of the data; nothing is printed.
\<close>

theorem write_reg_frame:
  assumes "unat len \<le> MAX_BRUST_LEN program_size" and "unat len \<le> length reg_data"
    and "False \<in> set readings"
  shows "\<exists>hi lo rest.
           ADAU1761_Write_Reg program_size reg_addr len reg_data bus readings =
             Inr (Some (bus @ [(0x3B, hi # lo # take (unat len) reg_data)], rest), []) \<and>
           unat hi * 256 + unat lo = unat reg_addr"
proof -
  from assms(3) obtain rest where "wait_idle readings = Some rest"
    by (auto simp: wait_idle_Some_iff [symmetric])
  with ADAU1761_Write_Reg_ok [OF assms(1,2), of reg_addr bus readings] reg_addr_bytes [of reg_addr]
  show ?thesis
    by (auto simp: ADAU1761_DEV_ADDR_def)
qed

theorem write_reg_frame_witness:
  "ADAU1761_Write_Reg 1024 0x4015 1 [0x01] [] [True, True, False] =
     Inr (Some ([(0x3B, [0x40, 0x15, 0x01])], []), [])"
proof -
  have "unat (1 :: u16) \<le> MAX_BRUST_LEN 1024" "unat (1 :: u16) \<le> length [0x01 :: u8]"
    "False \<in> set [True, True, False]"
    by (simp_all add: MAX_BRUST_LEN_def)
  from write_reg_frame [OF this, of "0x4015" "[]"] obtain hi lo rest where
    r: "ADAU1761_Write_Reg 1024 0x4015 1 [0x01] [] [True, True, False] =
        Inr (Some ([(0x3B, [hi, lo, 0x01])], rest), [])"
    by auto
  moreover have "ADAU1761_Write_Reg 1024 0x4015 1 [0x01] [] [True, True, False] =
      Inr (Some ([(0x3B, [0x40, 0x15, 0x01])], []), [])"
    by (simp add: ADAU1761_Write_Reg_ok MAX_BRUST_LEN_def ADAU1761_DEV_ADDR_def
          drop_bit_eq_div)
  ultimately show ?thesis by simp
qed

text \<open>
  C34. The length check does not stop the write. When \<open>len\<close> exceeds
  \<open>MAX_BRUST_LEN\<close> (or the data array) the function prints its warning and
  copies all the same: the copy loop leaves \<open>I2C_DATA\<close> or \<open>reg_data\<close>, which
  the model reports as a fault at the first index outside.
\<close>

theorem write_reg_overflow:
  assumes "min (length reg_data) (MAX_BRUST_LEN program_size) < unat len"
  shows "\<exists>j. ADAU1761_Write_Reg program_size reg_addr len reg_data bus readings =
              Inl (BufferIndex j)"
  using assms by (rule ADAU1761_Write_Reg_fault)

theorem write_reg_overflow_witness:
  "\<exists>j. ADAU1761_Write_Reg 0 0x4000 6 [1, 2, 3, 4, 5, 6, 7, 8] [] [False] =
         Inl (BufferIndex j)"
  using write_reg_overflow [of "[1, 2, 3, 4, 5, 6, 7, 8]" 0 6 "0x4000" "[]" "[False]"]
  by (simp add: MAX_BRUST_LEN_def)

text \<open>
  The wait at the end of a register write ends exactly when the bus
  reads idle: for a write that fits, the call returns if and only if some
  reading of \<open>XIicPs_BusIsBusy\<close> is false, and it then has consumed the
  readings up to and including the first idle one.
\<close>

lemma write_reg_returns_iff:
  assumes "unat len \<le> MAX_BRUST_LEN program_size" and "unat len \<le> length reg_data"
  shows "(\<exists>bus' out. ADAU1761_Write_Reg program_size reg_addr len reg_data bus readings =
            Inr (Some (bus', tl (dropWhile (\<lambda>b. b) readings)), out)) \<longleftrightarrow>
         False \<in> set readings"
  using ADAU1761_Write_Reg_ok [OF assms, of reg_addr bus readings]
  by (simp add: wait_idle_eq)

end
