(* ===== verification/Codec_Init.thy ===== *)
theory Codec_Init
  imports Codec_I2C
begin

text \<open>
  The codec configuration \<open>init_ADAU1761\<close> (src/src_sw/main_codec.c, lines 344
  to 379): 31 calls of \<open>ADAU1761_Write_Reg\<close>, one per line, in the order of
  the source. The register addresses, the sizes and the data tables come
  from the generated header \<^verbatim>\<open>Init_ADAU1761.h\<close>, which is not in the
  repository: the model names them as the source does (\<open>codec_reg\<close> for the
  \<^verbatim>\<open>..._ADDR\<close> symbols, \<open>codec_size\<close> for the \<^verbatim>\<open>..._BYTE\<close> and \<^verbatim>\<open>..._SIZE\<close>
  symbols, \<open>codec_table\<close> for the \<^verbatim>\<open>..._Default\<close> and \<^verbatim>\<open>..._Data\<close> arrays) and
  takes their values from a \<open>codec_header\<close>. The \<^verbatim>\<open>sleep(1)\<close> after the second
  write changes no state. A call that does not return ends the sequence.
\<close>

section \<open>The symbols of the generated header\<close>

datatype codec_reg =
    REG_CLKCTRLREGISTER | REG_PLLCRLREGISTER | REG_SERIAL_PORT_CONTROL_0
  | REG_ALC_CONTROL_0 | REG_MICCTRLREGISTER | REG_RECORD_PWR_MANAGEMENT
  | REG_ADC_CONTROL_0 | REG_PLAYBACK_MIXER_LEFT_CONTROL_0 | REG_CONVERTER_CTRL_0
  | REG_DAC_CONTROL_0 | REG_SERIAL_PORT_PAD_CONTROL_0 | REG_COMM_PORT_PAD_CTRL_0
  | REG_JACKREGISTER | REG_DSP_ENABLE_REGISTER | REG_CRC_IDEAL_1
  | REG_GPIO_0_CONTROL | REG_NON_MODULO_RAM_1 | REG_WATCHDOG_ENABLE
  | REG_SAMPLE_RATE_SETTING | REG_ROUTING_MATRIX_INPUTS | REG_ROUTING_MATRIX_OUTPUTS
  | REG_SERIAL_DATAGPIO_PIN_CONFIG | REG_DSP_SLEW_MODES
  | REG_SERIAL_PORT_SAMPLE_RATE_SETTING | REG_CLOCK_ENABLE_REG_0
  | PROGRAM_ADDR | PARAM_ADDR | REG_DSP_RUN_REGISTER | REG_DEJITTER_REGISTER_CONTROL

datatype codec_table =
    R0_CLKCTRLREGISTER | R1_PLLCRLREGISTER | R3_SERIAL_PORT_CONTROL_REGISTERS
  | R4_ALC_CONTROL_REGISTERS | R5_MICCTRLREGISTER | R6_RECORD_INPUT_SIGNAL_PATH_REGISTERS
  | R7_ADC_CONTROL_REGISTERS | R8_PLAYBACK_OUTPUT_SIGNAL_PATH_REGISTERS
  | R9_CONVERTER_CONTROL_REGISTERS | R10_DAC_CONTROL_REGISTERS
  | R11_SERIAL_PORT_PAD_CONTROL_REGISTERS | R12_COMMUNICATION_PORT_PAD_CONTROL_REGISTERS
  | R13_JACKREGISTER | R14_DSP_ENABLE_REGISTER | R15_CRC_REGISTERS | R16_GPIO_REGISTERS
  | R17_NON_MODULO_REGISTERS | R18_WATCHDOG_REGISTERS | R19_SAMPLE_RATE_SETTING
  | R20_ROUTING_MATRIX_INPUTS | R21_ROUTING_MATRIX_OUTPUTS
  | R22_SERIAL_DATAGPIO_PIN_CONFIG | R23_DSP_SLEW_MODES
  | R24_SERIAL_PORT_SAMPLE_RATE_SETTING | R25_CLOCK_ENABLE_REGISTERS
  | Program_Data | Param_Data | R28_SAMPLE_RATE_SETTING | R29_DSP_RUN_REGISTER
  | R30_DEJITTER_REGISTER_CONTROL | R31_DEJITTER_REGISTER_CONTROL

datatype codec_size = BYTE codec_reg | SIZE codec_table | PROGRAM_SIZE | PARAM_SIZE

record codec_header =
  reg_addr :: "codec_reg \<Rightarrow> nat"
  reg_size :: "codec_size \<Rightarrow> nat"
  reg_default :: "codec_table \<Rightarrow> u8 list"

section \<open>The sequence of writes\<close>

text \<open>Lines 346 to 378: address, size and data of each call, in source order.\<close>

definition init_calls :: "(codec_reg \<times> codec_size \<times> codec_table) list" where
  "init_calls =
     [(REG_CLKCTRLREGISTER, BYTE REG_CLKCTRLREGISTER, R0_CLKCTRLREGISTER),
      (REG_PLLCRLREGISTER, BYTE REG_PLLCRLREGISTER, R1_PLLCRLREGISTER),
      (REG_SERIAL_PORT_CONTROL_0, SIZE R3_SERIAL_PORT_CONTROL_REGISTERS,
         R3_SERIAL_PORT_CONTROL_REGISTERS),
      (REG_ALC_CONTROL_0, SIZE R4_ALC_CONTROL_REGISTERS, R4_ALC_CONTROL_REGISTERS),
      (REG_MICCTRLREGISTER, BYTE REG_MICCTRLREGISTER, R5_MICCTRLREGISTER),
      (REG_RECORD_PWR_MANAGEMENT, SIZE R6_RECORD_INPUT_SIGNAL_PATH_REGISTERS,
         R6_RECORD_INPUT_SIGNAL_PATH_REGISTERS),
      (REG_ADC_CONTROL_0, SIZE R7_ADC_CONTROL_REGISTERS, R7_ADC_CONTROL_REGISTERS),
      (REG_PLAYBACK_MIXER_LEFT_CONTROL_0, SIZE R8_PLAYBACK_OUTPUT_SIGNAL_PATH_REGISTERS,
         R8_PLAYBACK_OUTPUT_SIGNAL_PATH_REGISTERS),
      (REG_CONVERTER_CTRL_0, SIZE R9_CONVERTER_CONTROL_REGISTERS,
         R9_CONVERTER_CONTROL_REGISTERS),
      (REG_DAC_CONTROL_0, SIZE R10_DAC_CONTROL_REGISTERS, R10_DAC_CONTROL_REGISTERS),
      (REG_SERIAL_PORT_PAD_CONTROL_0, SIZE R11_SERIAL_PORT_PAD_CONTROL_REGISTERS,
         R11_SERIAL_PORT_PAD_CONTROL_REGISTERS),
      (REG_COMM_PORT_PAD_CTRL_0, SIZE R12_COMMUNICATION_PORT_PAD_CONTROL_REGISTERS,
         R12_COMMUNICATION_PORT_PAD_CONTROL_REGISTERS),
      (REG_JACKREGISTER, BYTE REG_JACKREGISTER, R13_JACKREGISTER),
      (REG_DSP_ENABLE_REGISTER, BYTE REG_DSP_ENABLE_REGISTER, R14_DSP_ENABLE_REGISTER),
      (REG_CRC_IDEAL_1, SIZE R15_CRC_REGISTERS, R15_CRC_REGISTERS),
      (REG_GPIO_0_CONTROL, SIZE R16_GPIO_REGISTERS, R16_GPIO_REGISTERS),
      (REG_NON_MODULO_RAM_1, SIZE R17_NON_MODULO_REGISTERS, R17_NON_MODULO_REGISTERS),
      (REG_WATCHDOG_ENABLE, SIZE R18_WATCHDOG_REGISTERS, R18_WATCHDOG_REGISTERS),
      (REG_SAMPLE_RATE_SETTING, BYTE REG_SAMPLE_RATE_SETTING, R19_SAMPLE_RATE_SETTING),
      (REG_ROUTING_MATRIX_INPUTS, BYTE REG_ROUTING_MATRIX_INPUTS, R20_ROUTING_MATRIX_INPUTS),
      (REG_ROUTING_MATRIX_OUTPUTS, BYTE REG_ROUTING_MATRIX_OUTPUTS,
         R21_ROUTING_MATRIX_OUTPUTS),
      (REG_SERIAL_DATAGPIO_PIN_CONFIG, BYTE REG_SERIAL_DATAGPIO_PIN_CONFIG,
         R22_SERIAL_DATAGPIO_PIN_CONFIG),
      (REG_DSP_SLEW_MODES, BYTE REG_DSP_SLEW_MODES, R23_DSP_SLEW_MODES),
      (REG_SERIAL_PORT_SAMPLE_RATE_SETTING, BYTE REG_SERIAL_PORT_SAMPLE_RATE_SETTING,
         R24_SERIAL_PORT_SAMPLE_RATE_SETTING),
      (REG_CLOCK_ENABLE_REG_0, SIZE R25_CLOCK_ENABLE_REGISTERS, R25_CLOCK_ENABLE_REGISTERS),
      (PROGRAM_ADDR, PROGRAM_SIZE, Program_Data),
      (PARAM_ADDR, PARAM_SIZE, Param_Data),
      (REG_SAMPLE_RATE_SETTING, BYTE REG_SAMPLE_RATE_SETTING, R28_SAMPLE_RATE_SETTING),
      (REG_DSP_RUN_REGISTER, BYTE REG_DSP_RUN_REGISTER, R29_DSP_RUN_REGISTER),
      (REG_DEJITTER_REGISTER_CONTROL, BYTE REG_DEJITTER_REGISTER_CONTROL,
         R30_DEJITTER_REGISTER_CONTROL),
      (REG_DEJITTER_REGISTER_CONTROL, BYTE REG_DEJITTER_REGISTER_CONTROL,
         R31_DEJITTER_REGISTER_CONTROL)]"

text \<open>
  One call of the sequence: the macro values are converted to the \<^verbatim>\<open>u16\<close>
  parameters of \<open>ADAU1761_Write_Reg\<close>.
\<close>

definition write_call ::
  "codec_header \<Rightarrow> codec_reg \<times> codec_size \<times> codec_table \<Rightarrow> i2c_bus \<Rightarrow> bool list \<Rightarrow>
   mem_fault + (i2c_bus \<times> bool list) option \<times> string list" where
  "write_call hdr c bus readings =
     (case c of (r, z, t) \<Rightarrow>
        ADAU1761_Write_Reg (reg_size hdr PROGRAM_SIZE) (of_nat (reg_addr hdr r))
          (of_nat (reg_size hdr z)) (reg_default hdr t) bus readings)"

fun write_all ::
  "codec_header \<Rightarrow> (codec_reg \<times> codec_size \<times> codec_table) list \<Rightarrow> i2c_bus \<Rightarrow> bool list \<Rightarrow>
   string list \<Rightarrow> mem_fault + (i2c_bus \<times> bool list) option \<times> string list" where
  "write_all hdr [] bus readings out = Inr (Some (bus, readings), out)"
| "write_all hdr (c # cs) bus readings out =
     seq_result (write_call hdr c bus readings) (\<lambda>(res, printed).
       case res of
         None \<Rightarrow> Inr (None, out @ printed)
       | Some (bus', readings') \<Rightarrow> write_all hdr cs bus' readings' (out @ printed))"

definition init_ADAU1761 ::
  "codec_header \<Rightarrow> i2c_bus \<Rightarrow> bool list \<Rightarrow>
   mem_fault + (i2c_bus \<times> bool list) option \<times> string list" where
  "init_ADAU1761 hdr bus readings = write_all hdr init_calls bus readings []"

section \<open>What the sequence promises\<close>

text \<open>
  The frame of a call, whether a call fits the frame buffer and its table, and
  the readings left after \<open>n\<close> waits.
\<close>

definition frame :: "codec_header \<Rightarrow> codec_reg \<times> codec_size \<times> codec_table \<Rightarrow> u8 \<times> u8 list" where
  "frame hdr c =
     (case c of (r, z, t) \<Rightarrow>
        (ADAU1761_DEV_ADDR,
         [ucast (drop_bit 8 (of_nat (reg_addr hdr r) :: u16)),
          ucast ((of_nat (reg_addr hdr r) :: u16) AND 0xFF)] @
         take (unat (of_nat (reg_size hdr z) :: u16)) (reg_default hdr t)))"

definition fits :: "codec_header \<Rightarrow> codec_reg \<times> codec_size \<times> codec_table \<Rightarrow> bool" where
  "fits hdr c \<longleftrightarrow>
     (case c of (r, z, t) \<Rightarrow>
        unat (of_nat (reg_size hdr z) :: u16) \<le> MAX_BRUST_LEN (reg_size hdr PROGRAM_SIZE) \<and>
        unat (of_nat (reg_size hdr z) :: u16) \<le> length (reg_default hdr t))"

fun waits :: "nat \<Rightarrow> bool list \<Rightarrow> bool list option" where
  "waits 0 readings = Some readings"
| "waits (Suc n) readings =
     (case wait_idle readings of None \<Rightarrow> None | Some rest \<Rightarrow> waits n rest)"

lemma write_call_ok:
  assumes "fits hdr c"
  shows "write_call hdr c bus readings =
     Inr (case wait_idle readings of
            None \<Rightarrow> None
          | Some rest \<Rightarrow> Some (bus @ [frame hdr c], rest), [])"
proof -
  obtain r z t where c: "c = (r, z, t)" by (cases c)
  with assms show ?thesis
    by (simp add: write_call_def fits_def frame_def ADAU1761_Write_Reg_ok
          split: option.splits)
qed

lemma write_call_fault:
  assumes "\<not> fits hdr c"
  shows "\<exists>j. write_call hdr c bus readings = Inl (BufferIndex j)"
proof -
  obtain r z t where c: "c = (r, z, t)" by (cases c)
  with assms have "min (length (reg_default hdr t)) (MAX_BRUST_LEN (reg_size hdr PROGRAM_SIZE))
      < unat (of_nat (reg_size hdr z) :: u16)"
    by (auto simp: fits_def)
  then show ?thesis
    unfolding c write_call_def prod.case by (rule ADAU1761_Write_Reg_fault)
qed

lemma write_all_ok:
  assumes "list_all (fits hdr) cs"
  shows "write_all hdr cs bus readings out =
     Inr (case waits (length cs) readings of
            None \<Rightarrow> None
          | Some rest \<Rightarrow> Some (bus @ map (frame hdr) cs, rest), out)"
  using assms
proof (induction cs arbitrary: bus readings)
  case Nil
  show ?case by simp
next
  case (Cons c cs)
  then have c: "fits hdr c" and cs: "list_all (fits hdr) cs" by simp_all
  show ?case
    by (cases "wait_idle readings")
      (simp_all add: write_call_ok [OF c] Cons.IH [OF cs] split: option.splits)
qed

lemma waits_Some_iff:
  "(\<exists>rest. waits n readings = Some rest) \<longleftrightarrow> n \<le> count_list readings False"
proof (induction readings arbitrary: n)
  case Nil
  show ?case by (cases n) simp_all
next
  case (Cons b readings)
  show ?case
  proof (cases n)
    case 0
    then show ?thesis by simp
  next
    case (Suc m)
    show ?thesis
    proof (cases b)
      case True
      with Cons.IH [of n] Suc show ?thesis by simp
    next
      case False
      with Cons.IH [of m] Suc show ?thesis by simp
    qed
  qed
qed

lemma waits_append:
  "waits (m + n) readings =
     (case waits m readings of None \<Rightarrow> None | Some rest \<Rightarrow> waits n rest)"
proof (induction m arbitrary: readings)
  case 0
  show ?case by simp
next
  case (Suc m)
  show ?case
    by (cases "wait_idle readings") (simp_all add: Suc.IH)
qed

lemma write_all_append:
  "write_all hdr (cs @ ds) bus readings out =
     seq_result (write_all hdr cs bus readings out) (\<lambda>(res, printed).
       case res of
         None \<Rightarrow> Inr (None, printed)
       | Some (bus', readings') \<Rightarrow> write_all hdr ds bus' readings' printed)"
proof (induction cs arbitrary: bus readings out)
  case Nil
  show ?case by simp
next
  case (Cons c cs)
  show ?case
  proof (cases "write_call hdr c bus readings")
    case (Inl e)
    then show ?thesis by simp
  next
    case (Inr p)
    obtain res printed where p: "p = (res, printed)" by (cases p)
    show ?thesis
      by (cases res) (auto simp: Inr p Cons.IH)
  qed
qed

text \<open>
  A call that does not fit is reached only when the waits of the calls before
  it have ended; the sequence then leaves an array.
\<close>

lemma write_all_fault:
  assumes "list_all (fits hdr) cs" and "\<not> fits hdr d"
  shows "write_all hdr (cs @ d # ds) bus readings out =
     (case waits (length cs) readings of
        None \<Rightarrow> Inr (None, out)
      | Some rest \<Rightarrow> write_call hdr d (bus @ map (frame hdr) cs) rest)"
proof (cases "waits (length cs) readings")
  case None
  then show ?thesis
    by (simp add: write_all_append write_all_ok [OF assms(1)])
next
  case (Some rest)
  from write_call_fault [OF assms(2), of "bus @ map (frame hdr) cs" rest] obtain j where
    "write_call hdr d (bus @ map (frame hdr) cs) rest = Inl (BufferIndex j)"
    by blast
  with Some show ?thesis
    by (simp add: write_all_append write_all_ok [OF assms(1)])
qed

lemma length_init_calls: "length init_calls = 31"
  by (simp add: init_calls_def)

lemma first_unfit:
  assumes "\<not> list_all P xs"
  shows "\<exists>cs d ds. xs = cs @ d # ds \<and> list_all P cs \<and> \<not> P d"
  using assms
proof (induction xs)
  case Nil
  then show ?case by simp
next
  case (Cons x xs)
  show ?case
  proof (cases "P x")
    case True
    with Cons obtain cs d ds where "xs = cs @ d # ds" "list_all P cs" "\<not> P d" by auto
    with True have "x # xs = (x # cs) @ d # ds \<and> list_all P (x # cs) \<and> \<not> P d" by simp
    then show ?thesis by blast
  next
    case False
    then have "x # xs = [] @ x # xs \<and> list_all P [] \<and> \<not> P x" by simp
    then show ?thesis by blast
  qed
qed

lemma distinct_count_list:
  "distinct xs \<Longrightarrow> x \<in> set xs \<Longrightarrow> count_list xs x = 1"
  by (induction xs) auto

lemma write_all_returns_iff:
  "write_all hdr cs bus readings out0 = Inr (Some (bus', rest), out) \<longleftrightarrow>
     list_all (fits hdr) cs \<and> waits (length cs) readings = Some rest \<and>
     bus' = bus @ map (frame hdr) cs \<and> out = out0"
proof (cases "list_all (fits hdr) cs")
  case True
  then show ?thesis
    by (cases "waits (length cs) readings") (auto simp: write_all_ok)
next
  case False
  from first_unfit [OF this] obtain ps d ds where
    cs: "cs = ps @ d # ds" and ps: "list_all (fits hdr) ps" and d: "\<not> fits hdr d"
    by blast
  from write_call_fault [OF d] have
    "\<And>b r. write_call hdr d b r \<noteq> Inr (Some (bus', rest), out)"
    by (metis sum.distinct(1))
  with False show ?thesis
    unfolding cs write_all_fault [OF ps d]
    by (cases "waits (length ps) readings") auto
qed

lemma write_all_stops:
  assumes "\<not> (list_all (fits hdr) cs \<and> length cs \<le> count_list readings False)"
  shows "(\<exists>j. write_all hdr cs bus readings out = Inl (BufferIndex j)) \<and>
           \<not> list_all (fits hdr) cs \<or>
         write_all hdr cs bus readings out = Inr (None, out)"
proof (cases "list_all (fits hdr) cs")
  case True
  with assms have "waits (length cs) readings = None"
    using waits_Some_iff [of "length cs" readings] by (cases "waits (length cs) readings") auto
  with True show ?thesis by (simp add: write_all_ok)
next
  case False
  from first_unfit [OF this] obtain ps d ds where
    cs: "cs = ps @ d # ds" and ps: "list_all (fits hdr) ps" and d: "\<not> fits hdr d"
    by blast
  show ?thesis
  proof (cases "waits (length ps) readings")
    case None
    then show ?thesis by (simp add: cs write_all_fault [OF ps d])
  next
    case (Some rest)
    with write_call_fault [OF d, of "bus @ map (frame hdr) ps" rest] False show ?thesis
      by (simp add: cs write_all_fault [OF ps d])
  qed
qed

section \<open>The tables of the header\<close>

instantiation codec_table :: enum
begin

definition enum_codec_table :: "codec_table list" where
  "enum_codec_table = map (\<lambda>(r, z, t). t) init_calls"

definition enum_all_codec_table :: "(codec_table \<Rightarrow> bool) \<Rightarrow> bool" where
  "enum_all_codec_table P = list_all P (map (\<lambda>(r, z, t). t) init_calls)"

definition enum_ex_codec_table :: "(codec_table \<Rightarrow> bool) \<Rightarrow> bool" where
  "enum_ex_codec_table P = list_ex P (map (\<lambda>(r, z, t). t) init_calls)"

instance
proof
  show univ: "(UNIV :: codec_table set) = set enum_class.enum"
  proof -
    have "t \<in> set (map (\<lambda>(r, z, t). t) init_calls)" for t
      by (cases t) (simp_all add: init_calls_def)
    then show ?thesis by (auto simp: enum_codec_table_def)
  qed
  show "distinct (enum_class.enum :: codec_table list)"
    by (simp add: enum_codec_table_def init_calls_def)
  show "enum_class.enum_all P = Ball (UNIV :: codec_table set) P" for P
    unfolding univ by (simp add: enum_all_codec_table_def enum_codec_table_def list_all_iff)
  show "enum_class.enum_ex P = Bex (UNIV :: codec_table set) P" for P
    unfolding univ by (simp add: enum_ex_codec_table_def enum_codec_table_def list_ex_iff)
qed

end

text \<open>
  Every table of the header is sent, once, and the tables are sent in the
  order of the enumeration.
\<close>

lemma every_table_once: "count_list (map (\<lambda>(r, z, t). t) init_calls) t = 1"
proof -
  have "distinct (map (\<lambda>(r, z, t). t) init_calls)"
    using enum_distinct [where ?'a = codec_table] by (simp add: enum_codec_table_def)
  moreover have "t \<in> set (map (\<lambda>(r, z, t). t) init_calls)"
    using enum_UNIV [where ?'a = codec_table] by (auto simp: enum_codec_table_def)
  ultimately show ?thesis
    by (rule distinct_count_list)
qed

text \<open>
  Two registers are written twice: the sample rate setting, before and after
  the program and the parameters, and the dejitter control, by the last two
  calls.
\<close>

lemma registers_written_twice:
  "count_list (map fst init_calls) r =
     (if r = REG_SAMPLE_RATE_SETTING \<or> r = REG_DEJITTER_REGISTER_CONTROL then 2 else 1)"
  by (cases r) (simp_all add: init_calls_def)

section \<open>When the codec is configured\<close>

text \<open>
  C35. \<open>init_ADAU1761\<close> returns exactly when every one of its 31 calls fits
  the frame buffer and its data table and the bus reads idle at least 31
  times; it has then sent the 31 frames, in the order of the source, after
  what was on the bus, it has printed nothing, and each wait has consumed the
  readings up to its first idle one. In every other case the call leaves an
  array or waits for ever.
\<close>

theorem init_ADAU1761_returns_iff:
  "(init_ADAU1761 hdr bus readings = Inr (Some (bus', rest), out) \<longleftrightarrow>
      list_all (fits hdr) init_calls \<and> waits 31 readings = Some rest \<and>
      bus' = bus @ map (frame hdr) init_calls \<and> out = []) \<and>
   ((\<exists>rest. waits 31 readings = Some rest) \<longleftrightarrow> 31 \<le> count_list readings False)"
  by (simp add: init_ADAU1761_def write_all_returns_iff length_init_calls waits_Some_iff)

lemma init_ADAU1761_ok:
  assumes "list_all (fits hdr) init_calls" and "31 \<le> count_list readings False"
  shows "\<exists>rest. init_ADAU1761 hdr bus readings =
           Inr (Some (bus @ map (frame hdr) init_calls, rest), []) \<and>
         waits 31 readings = Some rest"
proof -
  from assms(2) obtain rest where "waits 31 readings = Some rest"
    using waits_Some_iff [of 31 readings] by blast
  with assms(1) show ?thesis
    by (simp add: init_ADAU1761_def write_all_ok length_init_calls)
qed

lemma init_ADAU1761_stops:
  assumes "\<not> (list_all (fits hdr) init_calls \<and> 31 \<le> count_list readings False)"
  shows "(\<exists>j. init_ADAU1761 hdr bus readings = Inl (BufferIndex j)) \<and>
           \<not> list_all (fits hdr) init_calls \<or>
         init_ADAU1761 hdr bus readings = Inr (None, [])"
  using assms write_all_stops [of hdr init_calls readings bus "[]"]
  by (simp add: init_ADAU1761_def length_init_calls)

theorem init_ADAU1761_returns_iff_witness:
  "\<exists>rest. init_ADAU1761 \<lparr>reg_addr = \<lambda>r. 0x4000, reg_size = \<lambda>z. 1, reg_default = \<lambda>t. [7]\<rparr> []
       (replicate 31 False) =
     Inr (Some (map (\<lambda>c. (0x3B, [0x40, 0, 7])) init_calls, rest), [])"
proof -
  let ?hdr = "\<lparr>reg_addr = \<lambda>r. 0x4000, reg_size = \<lambda>z. 1, reg_default = \<lambda>t. [7 :: u8]\<rparr>"
  have f: "list_all (fits ?hdr) init_calls"
    by (simp add: init_calls_def fits_def MAX_BRUST_LEN_def)
  have m: "map (frame ?hdr) init_calls = map (\<lambda>c. (0x3B, [0x40, 0, 7])) init_calls"
    by (rule map_cong)
      (auto simp: frame_def ADAU1761_DEV_ADDR_def drop_bit_eq_div split: prod.splits)
  have "31 \<le> count_list (replicate 31 False) False"
    by (simp add: count_list_replicate)
  with init_ADAU1761_returns_iff [of ?hdr "[]" "replicate 31 False"] obtain rest where
    "waits 31 (replicate 31 False) = Some rest"
    by blast
  with init_ADAU1761_returns_iff [of ?hdr "[]" "replicate 31 False" "map (frame ?hdr) init_calls"
      rest "[]"] f m
  show ?thesis by auto
qed

end
