(* ===== verification/Boot.thy ===== *)
theory Boot
  imports Loader_Props Notification Codec_Init
begin

text \<open>
  The start-up of \<open>main\<close> (src/src_sw/main_codec.c, lines 74 to 160) with
  \<open>initial_spi_system\<close> (272 to 305) and \<open>setup_interrupt_system\<close> (307 to 327).
  The platform is what the hardware and the drivers give: the card, the
  status of the two SPI driver calls that can fail, the generated codec
  header and the readings of the I2C bus to come. \<open>main_boot\<close> follows \<open>main\<close>
  statement by statement up to the loop, on the record \<open>booted\<close> of what the
  start-up has done so far: the pins set as inputs, the card, the I2C clock and
  the frames sent to the codec, the buffers, the SPI settings and the bursts
  sent to the accelerator, and the console lines of \<open>main\<close>. Every early
  \<open>return\<close> is an \<open>Exit\<close> with its value, reaching the loop is \<open>Loop\<close> with the
  host state the loop starts from, and \<open>Stuck\<close> is a start-up that waits for the
  I2C bus for ever. A codec table that does not fit makes the start-up leave
  an array, which is the value \<open>Inl\<close>.
\<close>

section \<open>Platform and drivers\<close>

record platform =
  sd_card :: card
  spi_cfg_status :: int
  spi_selftest_status :: int
  codec :: codec_header
  i2c_busy :: "bool list"

record spi_settings =
  master_option :: bool
  force_sselect_option :: bool
  clk_prescaler :: nat
  slave_select :: nat

definition TMA_SPI_SELECT :: nat where "TMA_SPI_SELECT = 0"

definition EMIO_RESULT_0 :: nat where "EMIO_RESULT_0 = 54"
definition EMIO_RESULT_1 :: nat where "EMIO_RESULT_1 = 55"
definition EMIO_RESULT_2 :: nat where "EMIO_RESULT_2 = 56"
definition EMIO_RESULT_3 :: nat where "EMIO_RESULT_3 = 57"

definition IIC_SCLK_RATE :: nat where "IIC_SCLK_RATE = 100000"

definition initial_spi_system :: "platform \<Rightarrow> int \<times> spi_settings option" where
  "initial_spi_system p =
     (if spi_cfg_status p \<noteq> XST_SUCCESS then (XST_FAILURE, None)
      else if spi_selftest_status p \<noteq> XST_SUCCESS then (XST_FAILURE, None)
      else (XST_SUCCESS,
            Some \<lparr>master_option = True, force_sselect_option = True,
                  clk_prescaler = 256, slave_select = TMA_SPI_SELECT\<rparr>))"

definition setup_interrupt_system :: "host \<Rightarrow> int \<times> host" where
  "setup_interrupt_system h = (XST_SUCCESS, h\<lparr>irq_enabled := True\<rparr>)"

section \<open>main up to the loop\<close>

datatype outcome = Exit int | Loop host | Stuck

record booted =
  outcome :: outcome
  console :: "string list"
  pin_direction :: "nat \<rightharpoonup> nat"
  card_after :: card
  i2c_sclk :: "nat option"
  i2c_after :: i2c_bus
  buffers_after :: model_buffers
  spi_after :: "spi_settings option"
  link_after :: link

text \<open>The machine when \<open>main\<close> is entered: nothing done, nothing returned.\<close>

definition at_reset :: "platform \<Rightarrow> booted" where
  "at_reset p =
     \<lparr>outcome = Stuck, console = [], pin_direction = Map.empty, card_after = sd_card p,
      i2c_sclk = None, i2c_after = [], buffers_after = init_buffers, spi_after = None,
      link_after = []\<rparr>"

definition say :: "string list \<Rightarrow> booted \<Rightarrow> booted" where
  "say ls b = b\<lparr>console := console b @ ls\<rparr>"

definition main_boot :: "platform \<Rightarrow> mem_fault + booted" where
  "main_boot p =
     (let h0 = \<lparr>inference_finish_flag = 0, irq_enabled = False, pc = at_test,
                agg = init_aggregator\<rparr>;
          b0 = say [''Start Tsetlin Machine Accelerator for Keyword Spotting!''] (at_reset p);
          b1 = b0\<lparr>pin_direction := [EMIO_RESULT_0 \<mapsto> 0, EMIO_RESULT_1 \<mapsto> 0,
                                     EMIO_RESULT_2 \<mapsto> 0, EMIO_RESULT_3 \<mapsto> 0]\<rparr>;
          (status, c) = sd_mount (sd_card p);
          b2 = b1\<lparr>card_after := c\<rparr>
      in if status \<noteq> XST_SUCCESS
         then Inr (say [''Failed to open SD card!''] (b2\<lparr>outcome := Exit 0\<rparr>))
         else
           let b3 = (say [''Success to open SD card!''] b2)\<lparr>i2c_sclk := Some IIC_SCLK_RATE\<rparr>
           in seq_result (init_ADAU1761 (codec p) [] (i2c_busy p)) (\<lambda>(res, warnings).
              case res of
                None \<Rightarrow> Inr (say warnings b3)
              | Some (bus, readings) \<Rightarrow>
                  let b4 = say (warnings @ [''Configure ADAU1761 Finish!''])
                             (b3\<lparr>i2c_after := bus\<rparr>);
                      (status, h1) = setup_interrupt_system h0
                  in if status \<noteq> XST_SUCCESS
                     then Inr (say [''Setup interrupt system failed'']
                                 (b4\<lparr>outcome := Exit XST_FAILURE\<rparr>))
                     else
                       let b5 = say [''Setup interrupt system Finished!''] b4
                       in seq_result (read_model_data c init_buffers) (\<lambda>m.
                          let (status, spi) = initial_spi_system p;
                              b6 = b5\<lparr>buffers_after := m, spi_after := spi\<rparr>
                          in if status \<noteq> XST_SUCCESS
                             then Inr (say [''Setup SPI Failed!'']
                                         (b6\<lparr>outcome := Exit XST_FAILURE\<rparr>))
                             else
                               let b7 = say [''Setup SPI Finished!'', ''Loading TM model...''] b6
                               in seq_result (initial_TMA m []) (\<lambda>(status, l).
                                  let b8 = b7\<lparr>link_after := l\<rparr>
                                  in if status \<noteq> XST_SUCCESS
                                     then Inr (say [''TsetlinKWS initialization Failed!'']
                                                 (b8\<lparr>outcome := Exit XST_FAILURE\<rparr>))
                                     else Inr (say
                                       [''TsetlinKWS initialization Finished!'',
                                        ''Please speak:{yes, no, up, down, left, right, on, off, stop, go}'']
                                       (b8\<lparr>outcome := Loop h1\<rparr>))))))"

lemmas boot_ops [kws_ops] = initial_spi_system_def setup_interrupt_system_def

lemmas boot_consts [kws_consts] =
  TMA_SPI_SELECT_def EMIO_RESULT_0_def EMIO_RESULT_1_def EMIO_RESULT_2_def EMIO_RESULT_3_def
  IIC_SCLK_RATE_def

section \<open>The ways a start-up ends\<close>

definition card_ready :: "platform \<Rightarrow> bool" where
  "card_ready p \<longleftrightarrow> fst (sd_mount (sd_card p)) = XST_SUCCESS"

definition codec_ready :: "platform \<Rightarrow> bool" where
  "codec_ready p \<longleftrightarrow>
     list_all (fits (codec p)) init_calls \<and> 31 \<le> count_list (i2c_busy p) False"

definition spi_ready :: "platform \<Rightarrow> bool" where
  "spi_ready p \<longleftrightarrow> spi_cfg_status p = XST_SUCCESS \<and> spi_selftest_status p = XST_SUCCESS"

text \<open>What the start-up has done when it has passed the card and the codec.\<close>

definition configured :: "platform \<Rightarrow> booted" where
  "configured p =
     (at_reset p)
       \<lparr>console := [''Start Tsetlin Machine Accelerator for Keyword Spotting!'',
                    ''Success to open SD card!'', ''Configure ADAU1761 Finish!'',
                    ''Setup interrupt system Finished!''],
        pin_direction := [EMIO_RESULT_0 \<mapsto> 0, EMIO_RESULT_1 \<mapsto> 0,
                          EMIO_RESULT_2 \<mapsto> 0, EMIO_RESULT_3 \<mapsto> 0],
        card_after := snd (sd_mount (sd_card p)),
        i2c_sclk := Some IIC_SCLK_RATE,
        i2c_after := map (frame (codec p)) init_calls,
        buffers_after := payloads (snd (sd_mount (sd_card p))) init_buffers\<rparr>"

lemma card_ready_iff:
  "card_ready p \<longleftrightarrow>
     fat_volume (sd_card p) \<or> (mkfs_works (sd_card p) \<and> mounts_after_format (sd_card p))"
  by (simp add: card_ready_def sd_mount_cases kws_consts)

lemma setup_interrupt_system_host [simp]:
  "setup_interrupt_system
     \<lparr>inference_finish_flag = 0, irq_enabled = False, pc = at_test, agg = init_aggregator\<rparr> =
   (XST_SUCCESS, init_host)"
  by (simp add: setup_interrupt_system_def init_host_def)

lemma main_boot_no_card:
  assumes "\<not> card_ready p"
  shows "main_boot p =
     Inr ((at_reset p)
       \<lparr>outcome := Exit 0,
        console := [''Start Tsetlin Machine Accelerator for Keyword Spotting!'',
                    ''Failed to open SD card!''],
        pin_direction := [EMIO_RESULT_0 \<mapsto> 0, EMIO_RESULT_1 \<mapsto> 0,
                          EMIO_RESULT_2 \<mapsto> 0, EMIO_RESULT_3 \<mapsto> 0],
        card_after := snd (sd_mount (sd_card p))\<rparr>)"
proof -
  obtain status c where sm: "sd_mount (sd_card p) = (status, c)" by fastforce
  with assms show ?thesis
    by (simp add: main_boot_def Let_def card_ready_def say_def at_reset_def)
qed

lemma main_boot_no_codec:
  assumes "card_ready p" and "\<not> codec_ready p"
  shows "(\<exists>j. main_boot p = Inl (BufferIndex j)) \<and> \<not> list_all (fits (codec p)) init_calls \<or>
     main_boot p =
       Inr ((at_reset p)
         \<lparr>console := [''Start Tsetlin Machine Accelerator for Keyword Spotting!'',
                      ''Success to open SD card!''],
          pin_direction := [EMIO_RESULT_0 \<mapsto> 0, EMIO_RESULT_1 \<mapsto> 0,
                            EMIO_RESULT_2 \<mapsto> 0, EMIO_RESULT_3 \<mapsto> 0],
          card_after := snd (sd_mount (sd_card p)),
          i2c_sclk := Some IIC_SCLK_RATE\<rparr>)"
proof -
  obtain status c where sm: "sd_mount (sd_card p) = (status, c)" by fastforce
  from assms(2) init_ADAU1761_stops [of "codec p" "i2c_busy p" "[]"]
  consider j where "init_ADAU1761 (codec p) [] (i2c_busy p) = Inl (BufferIndex j)"
      "\<not> list_all (fits (codec p)) init_calls"
    | "init_ADAU1761 (codec p) [] (i2c_busy p) = Inr (None, [])"
    by (auto simp: codec_ready_def)
  then show ?thesis
  proof cases
    case 1
    with assms(1) sm show ?thesis
      by (simp add: main_boot_def Let_def card_ready_def)
  next
    case 2
    with assms(1) sm show ?thesis
      by (simp add: main_boot_def Let_def card_ready_def say_def at_reset_def)
  qed
qed

lemma main_boot_no_spi:
  assumes "card_ready p" and "codec_ready p" and "\<not> spi_ready p"
  shows "main_boot p =
     Inr ((configured p)
       \<lparr>outcome := Exit XST_FAILURE,
        console := console (configured p) @ [''Setup SPI Failed!'']\<rparr>)"
proof -
  obtain status c where sm: "sd_mount (sd_card p) = (status, c)" by fastforce
  from assms(2) init_ADAU1761_ok [of "codec p" "i2c_busy p" "[]"] obtain rest where
    i: "init_ADAU1761 (codec p) [] (i2c_busy p) =
        Inr (Some (map (frame (codec p)) init_calls, rest), [])"
    by (auto simp: codec_ready_def)
  from assms(3) have "initial_spi_system p = (XST_FAILURE, None)"
    by (auto simp: spi_ready_def initial_spi_system_def)
  with assms(1) sm i show ?thesis
    by (simp add: main_boot_def Let_def card_ready_def read_model_data_eq [OF buffers_ok_init]
          say_def at_reset_def configured_def XST_SUCCESS_def XST_FAILURE_def)
qed

lemma main_boot_loop:
  assumes "card_ready p" and "codec_ready p" and "spi_ready p"
  shows "main_boot p =
     Inr ((configured p)
       \<lparr>outcome := Loop init_host,
        console := console (configured p) @
          [''Setup SPI Finished!'', ''Loading TM model...'',
           ''TsetlinKWS initialization Finished!'',
           ''Please speak:{yes, no, up, down, left, right, on, off, stop, go}''],
        spi_after := Some \<lparr>master_option = True, force_sselect_option = True,
                           clk_prescaler = 256, slave_select = TMA_SPI_SELECT\<rparr>,
        link_after := image (payloads (snd (sd_mount (sd_card p))) init_buffers)\<rparr>)"
proof -
  obtain status c where sm: "sd_mount (sd_card p) = (status, c)" by fastforce
  from assms(2) init_ADAU1761_ok [of "codec p" "i2c_busy p" "[]"] obtain rest where
    i: "init_ADAU1761 (codec p) [] (i2c_busy p) =
        Inr (Some (map (frame (codec p)) init_calls, rest), [])"
    by (auto simp: codec_ready_def)
  from assms(3) have "initial_spi_system p =
      (XST_SUCCESS, Some \<lparr>master_option = True, force_sselect_option = True,
                           clk_prescaler = 256, slave_select = TMA_SPI_SELECT\<rparr>)"
    by (simp add: spi_ready_def initial_spi_system_def)
  with assms(1) sm i show ?thesis
    by (simp add: main_boot_def Let_def card_ready_def read_model_data_eq [OF buffers_ok_init]
          initial_TMA_eq [OF buffers_ok_payloads [OF buffers_ok_init]]
          say_def at_reset_def configured_def XST_SUCCESS_def XST_FAILURE_def)
qed

lemmas main_boot_cases = main_boot_no_card main_boot_no_spi main_boot_loop

end
