(* ===== verification/Consensus.thy ===== *)
theory Consensus
  imports Scenarios
begin

text \<open>
  When the consensus scan raises the flag, for every window. \<open>has_run n c xs\<close>
  says that \<open>xs\<close> holds \<open>n\<close> consecutive codes \<open>c\<close>. The scan starts with
  \<^verbatim>\<open>consecutive_result\<close> at the oldest code and counts it, and restarts its
  counter from 0 when the class changes: it raises the flag when the oldest
  \<open>DETECTING_CONS_RESULT_CNT\<close> codes are one class, or when
  \<open>DETECTING_CONS_RESULT_CNT + 1\<close> codes of one class follow each other
  anywhere in the window. A word that leaves exactly
  \<open>DETECTING_CONS_RESULT_CNT\<close> codes in the window is therefore detected, not
  when it is heard, but when its codes have become the oldest of the window.
\<close>

section \<open>Runs of equal codes\<close>

fun has_run :: "nat \<Rightarrow> 'a \<Rightarrow> 'a list \<Rightarrow> bool" where
  "has_run n c [] = (n = 0)"
| "has_run n c (x # xs) = (take n (x # xs) = replicate n c \<or> has_run n c xs)"

lemma take_replicate_le:
  "take n xs = replicate n c \<Longrightarrow> m \<le> n \<Longrightarrow> take m xs = replicate m c"
proof -
  assume a: "take n xs = replicate n c" and m: "m \<le> n"
  then have "take m (take n xs) = take m (replicate n c)" by simp
  with m show ?thesis by (simp add: min_def)
qed

lemma has_run_iff:
  "has_run n c xs \<longleftrightarrow> (\<exists>pre post. xs = pre @ replicate n c @ post)"
proof (induction xs)
  case Nil
  show ?case by auto
next
  case (Cons x xs)
  show ?case
  proof
    assume "has_run n c (x # xs)"
    then consider "take n (x # xs) = replicate n c" | "has_run n c xs" by auto
    then show "\<exists>pre post. x # xs = pre @ replicate n c @ post"
    proof cases
      case 1
      then have "x # xs = [] @ replicate n c @ drop n (x # xs)"
        by (metis append_Nil append_take_drop_id)
      then show ?thesis by blast
    next
      case 2
      with Cons.IH obtain pre post where "xs = pre @ replicate n c @ post" by auto
      then have "x # xs = (x # pre) @ replicate n c @ post" by simp
      then show ?thesis by blast
    qed
  next
    assume "\<exists>pre post. x # xs = pre @ replicate n c @ post"
    then obtain pre post where e: "x # xs = pre @ replicate n c @ post" by auto
    show "has_run n c (x # xs)"
    proof (cases pre)
      case Nil
      with e have "take n (x # xs) = replicate n c" by simp
      then show ?thesis by simp
    next
      case (Cons y pre')
      with e have "xs = pre' @ replicate n c @ post" by simp
      with Cons.IH show ?thesis by auto
    qed
  qed
qed

lemma has_run_length: "has_run n c xs \<Longrightarrow> n \<le> length xs"
  by (auto simp: has_run_iff)

section \<open>The scan on every window\<close>

lemma u8_succ_eq_cnt:
  "unat ct < 255 \<Longrightarrow> ct + 1 = DETECTING_CONS_RESULT_CNT \<longleftrightarrow> Suc (unat ct) = unat DETECTING_CONS_RESULT_CNT"
  by (simp add: word_unat_eq_iff unat_u8_succ)

text \<open>
  \<open>qualifies k cr xs\<close>: the scan that has counted \<open>k\<close> codes of the class \<open>cr\<close>
  will raise the flag on the codes \<open>xs\<close> to come.
\<close>

definition qualifies :: "nat \<Rightarrow> u8 \<Rightarrow> u8 list \<Rightarrow> bool" where
  "qualifies k cr xs \<longleftrightarrow>
     cr \<noteq> SILENCE \<and>
       take (unat DETECTING_CONS_RESULT_CNT - k) xs =
       replicate (unat DETECTING_CONS_RESULT_CNT - k) cr \<or>
     (\<exists>c. c \<noteq> SILENCE \<and> has_run (Suc (unat DETECTING_CONS_RESULT_CNT)) c xs)"

lemma qualifies_Nil:
  "k < unat DETECTING_CONS_RESULT_CNT \<or> cr = SILENCE \<Longrightarrow> \<not> qualifies k cr []"
  by (auto simp: qualifies_def)

lemma qualifies_hit:
  "Suc k = unat DETECTING_CONS_RESULT_CNT \<Longrightarrow> x \<noteq> SILENCE \<Longrightarrow> qualifies k x (x # xs)"
proof -
  assume "Suc k = unat DETECTING_CONS_RESULT_CNT" and x: "x \<noteq> SILENCE"
  then have "unat DETECTING_CONS_RESULT_CNT - k = 1" by arith
  with x show ?thesis by (simp add: qualifies_def)
qed

lemma qualifies_same:
  assumes "Suc k < unat DETECTING_CONS_RESULT_CNT \<or> x = SILENCE"
  shows "qualifies k x (x # xs) \<longleftrightarrow> qualifies (Suc k) x xs"
proof (cases "x = SILENCE")
  case True
  then show ?thesis by (auto simp: qualifies_def)
next
  case False
  let ?T = "unat DETECTING_CONS_RESULT_CNT"
  from False assms have "?T - k = Suc (?T - Suc k)" by simp
  moreover have "take ?T xs = replicate ?T x \<Longrightarrow>
      take (?T - Suc k) xs = replicate (?T - Suc k) x"
    by (erule take_replicate_le) simp
  ultimately show ?thesis
    using False by (auto simp: qualifies_def)
qed

lemma qualifies_diff:
  assumes "x \<noteq> cr" and "k < unat DETECTING_CONS_RESULT_CNT \<or> cr = SILENCE"
  shows "qualifies k cr (x # xs) \<longleftrightarrow> qualifies 0 x xs"
proof -
  have "cr \<noteq> SILENCE \<Longrightarrow> 0 < unat DETECTING_CONS_RESULT_CNT - k"
    using assms(2) by simp
  then have "\<not> (cr \<noteq> SILENCE \<and>
      take (unat DETECTING_CONS_RESULT_CNT - k) (x # xs) =
      replicate (unat DETECTING_CONS_RESULT_CNT - k) cr)"
    using assms(1) by (cases "unat DETECTING_CONS_RESULT_CNT - k") auto
  then show ?thesis
    by (auto simp: qualifies_def)
qed

lemma scan_chrono_criterion:
  assumes "unat ct + length xs < 256"
    and "unat ct < unat DETECTING_CONS_RESULT_CNT \<or> cr = SILENCE"
  shows "snd (snd (scan_chrono detecting xs ct cr)) \<longleftrightarrow> qualifies (unat ct) cr xs"
  using assms
proof (induction xs arbitrary: ct cr)
  case Nil
  then show ?case by (simp add: qualifies_Nil)
next
  case (Cons x xs)
  from Cons.prems(1) have k: "unat ct < 255" by simp
  then have u: "unat (ct + 1) = Suc (unat ct)" by (simp add: unat_u8_succ)
  consider (hit) "cr = x" "ct + 1 = DETECTING_CONS_RESULT_CNT" "x \<noteq> SILENCE"
    | (same) "cr = x" "\<not> (ct + 1 = DETECTING_CONS_RESULT_CNT \<and> x \<noteq> SILENCE)"
    | (diff) "cr \<noteq> x"
    by blast
  then show ?case
  proof cases
    case hit
    with k show ?thesis by (simp add: qualifies_hit u8_succ_eq_cnt)
  next
    case same
    with Cons.prems(2) k have pre: "Suc (unat ct) < unat DETECTING_CONS_RESULT_CNT \<or> x = SILENCE"
      by (auto simp: u8_succ_eq_cnt)
    from Cons.prems(1) pre same(1) have "snd (snd (scan_chrono detecting xs (ct + 1) cr)) \<longleftrightarrow>
        qualifies (unat (ct + 1)) cr xs"
      by (intro Cons.IH) (simp_all add: u)
    with same show ?thesis
      by (auto simp: u qualifies_same [OF pre])
  next
    case diff
    from Cons.prems(1) have "snd (snd (scan_chrono detecting xs 0 x)) \<longleftrightarrow>
        qualifies (unat (0 :: u8)) x xs"
      by (intro Cons.IH) (simp_all add: DETECTING_CONS_RESULT_CNT_def)
    with diff Cons.prems(2) show ?thesis
      by (simp add: qualifies_diff [of x cr] DETECTING_CONS_RESULT_CNT_def)
  qed
qed

lemma take_replicate_hd:
  "0 < n \<Longrightarrow> take n xs = replicate n c \<Longrightarrow> hd xs = c"
  by (cases n; cases xs) auto

lemma scan_hit_criterion:
  assumes "window_inv s" and "current_state s = detecting"
  shows "scan_hit s \<longleftrightarrow>
     (\<exists>c. c \<noteq> SILENCE \<and>
        (take (unat DETECTING_CONS_RESULT_CNT) (chrono s) =
           replicate (unat DETECTING_CONS_RESULT_CNT) c \<or>
         has_run (Suc (unat DETECTING_CONS_RESULT_CNT)) c (chrono s)))"
proof -
  let ?T = "unat DETECTING_CONS_RESULT_CNT"
  from assms(1) have "unat (0 :: u8) + length (chrono s) < 256"
    by (simp add: window_inv_def WINDOW_SIZE_def)
  moreover have "unat (0 :: u8) < ?T \<or> hd (chrono s) = SILENCE"
    by (simp add: DETECTING_CONS_RESULT_CNT_def)
  ultimately have "scan_hit s \<longleftrightarrow>
     hd (chrono s) \<noteq> SILENCE \<and> take ?T (chrono s) = replicate ?T (hd (chrono s)) \<or>
     (\<exists>c. c \<noteq> SILENCE \<and> has_run (Suc ?T) c (chrono s))"
    using scan_chrono_criterion [of 0 "chrono s" "hd (chrono s)"] assms(2)
    by (simp add: scan_hit_def qualifies_def)
  moreover have "0 < ?T" by (simp add: DETECTING_CONS_RESULT_CNT_def)
  ultimately show ?thesis
    by (auto dest: take_replicate_hd)
qed

text \<open>
  C13. The consensus scan on every window. In the state \<open>detecting\<close>, with the
  flag down, the scan of lines 209--233 raises \<^verbatim>\<open>print_flag\<close> if and only if,
  for a class other than silence, the oldest \<open>DETECTING_CONS_RESULT_CNT\<close> codes
  of the window are that class or \<open>DETECTING_CONS_RESULT_CNT + 1\<close> codes of
  that class follow each other somewhere in the window.
\<close>

theorem consensus_criterion:
  assumes "window_inv s" and "current_state s = detecting" and "print_flag s = 0"
  shows "print_flag (consecutive_scan s) = 1 \<longleftrightarrow>
     (\<exists>c. c \<noteq> SILENCE \<and>
        (take (unat DETECTING_CONS_RESULT_CNT) (chrono s) =
           replicate (unat DETECTING_CONS_RESULT_CNT) c \<or>
         has_run (Suc (unat DETECTING_CONS_RESULT_CNT)) c (chrono s)))"
proof -
  from assms(3) have "print_flag (consecutive_scan s) = 1 \<longleftrightarrow> scan_hit s"
    by (simp add: consecutive_scan_eq [OF assms(1)] scan_hit_def split_def Let_def)
  with scan_hit_criterion [OF assms(1,2)] show ?thesis by simp
qed

theorem consensus_criterion_witness:
  "window_inv (init_aggregator\<lparr>result_window := replicate 20 0 @ replicate 20 SILENCE,
       result_count := occupancy (replicate 20 0 @ replicate 20 SILENCE)\<rparr>) \<and>
   print_flag (consecutive_scan
     (init_aggregator\<lparr>result_window := replicate 20 0 @ replicate 20 SILENCE,
       result_count := occupancy (replicate 20 0 @ replicate 20 SILENCE)\<rparr>)) = 1"
proof -
  let ?s = "init_aggregator\<lparr>result_window := replicate 20 0 @ replicate 20 SILENCE,
       result_count := occupancy (replicate 20 0 @ replicate 20 SILENCE)\<rparr>"
  have w: "window_inv ?s"
    by (simp add: window_inv_def init_aggregator_def list_all_iff kws_consts)
  have c: "chrono ?s = replicate 20 0 @ replicate 20 SILENCE"
    by (simp add: chrono_def init_aggregator_def)
  have "(0 :: u8) \<noteq> SILENCE \<and>
      take (unat DETECTING_CONS_RESULT_CNT) (chrono ?s) =
      replicate (unat DETECTING_CONS_RESULT_CNT) 0"
    unfolding c by (simp add: kws_consts)
  then have "\<exists>c. c \<noteq> SILENCE \<and>
        (take (unat DETECTING_CONS_RESULT_CNT) (chrono ?s) =
           replicate (unat DETECTING_CONS_RESULT_CNT) c \<or>
         has_run (Suc (unat DETECTING_CONS_RESULT_CNT)) c (chrono ?s))"
    by blast
  with consensus_criterion [OF w] w show ?thesis
    by (simp add: init_aggregator_def)
qed

section \<open>A word that leaves exactly the threshold in the window\<close>

text \<open>
  \<open>fade c j\<close>: a word of class \<open>c\<close> has left \<open>DETECTING_CONS_RESULT_CNT\<close> codes
  in the window and \<open>j\<close> codes of silence have followed it.
\<close>

definition fade :: "u8 \<Rightarrow> nat \<Rightarrow> aggregator \<Rightarrow> bool" where
  "fade c j s \<longleftrightarrow>
     agg_inv s \<and> current_state s = detecting \<and>
     chrono s = replicate (WINDOW_SIZE - unat DETECTING_CONS_RESULT_CNT - j) SILENCE @
                replicate (unat DETECTING_CONS_RESULT_CNT) c @ replicate j SILENCE"

lemma run_results_append_Inr:
  assumes "run_results xs s = Inr (s1, o1)" and "run_results ys s1 = Inr (s2, o2)"
  shows "run_results (xs @ ys) s = Inr (s2, o1 @ o2)"
  using assms by (simp add: run_results_append)

lemma ramp_fade: "ramp c (unat DETECTING_CONS_RESULT_CNT) s \<Longrightarrow> fade c 0 s"
  by (simp add: ramp_def fade_def)

lemma fade_scan_miss:
  assumes "c \<noteq> SILENCE"
  shows "scan_chrono detecting
     (replicate (Suc m) SILENCE @ replicate (unat DETECTING_CONS_RESULT_CNT) c @
      replicate n SILENCE) 0 SILENCE =
     (if n = 0 then (19, c, False) else (of_nat (n - 1), SILENCE, False))"
proof -
  let ?T = "unat DETECTING_CONS_RESULT_CNT"
  have "?T = Suc 19"
    by (simp add: DETECTING_CONS_RESULT_CNT_def)
  then have T: "replicate ?T c = c # replicate 19 c"
    by (simp only: replicate_Suc)
  have "scan_chrono detecting
     (replicate (Suc m) SILENCE @ replicate ?T c @ replicate n SILENCE) 0 SILENCE =
     scan_chrono detecting (c # replicate 19 c @ replicate n SILENCE) (0 + of_nat (Suc m)) SILENCE"
    by (simp only: scan_chrono_silence T append_Cons)
  also have "\<dots> = scan_chrono detecting (replicate 19 c @ replicate n SILENCE) 0 c"
    using assms by (rule scan_chrono_change)
  also have "\<dots> = scan_chrono detecting (replicate n SILENCE) (0 + of_nat 19) c"
    by (rule scan_chrono_block_miss) (simp add: DETECTING_CONS_RESULT_CNT_def)
  also have "\<dots> = (if n = 0 then (19, c, False) else (of_nat (n - 1), SILENCE, False))"
  proof (cases n)
    case 0
    then show ?thesis by simp
  next
    case (Suc k)
    have "scan_chrono detecting (SILENCE # replicate k SILENCE) (0 + of_nat 19) c =
          scan_chrono detecting (replicate k SILENCE) 0 SILENCE"
      using assms by (intro scan_chrono_change) simp
    with Suc show ?thesis by (simp add: scan_all_silence)
  qed
  finally show ?thesis .
qed

lemma fade_store:
  assumes "fade c j s" and "j < WINDOW_SIZE - unat DETECTING_CONS_RESULT_CNT"
  shows "chrono (store_result SILENCE s) =
         replicate (WINDOW_SIZE - unat DETECTING_CONS_RESULT_CNT - Suc j) SILENCE @
         replicate (unat DETECTING_CONS_RESULT_CNT) c @ replicate (Suc j) SILENCE"
    and "written_value SILENCE s = SILENCE"
proof -
  let ?m = "WINDOW_SIZE - unat DETECTING_CONS_RESULT_CNT - Suc j"
  from assms(1) have inv: "window_inv s"
    and ch: "chrono s = replicate (Suc ?m) SILENCE @
        replicate (unat DETECTING_CONS_RESULT_CNT) c @ replicate j SILENCE"
    using assms(2) by (simp_all add: fade_def agg_inv_def Suc_diff_Suc)
  show wv: "written_value SILENCE s = SILENCE"
    by (simp add: written_value_def)
  show "chrono (store_result SILENCE s) =
         replicate ?m SILENCE @
         replicate (unat DETECTING_CONS_RESULT_CNT) c @ replicate (Suc j) SILENCE"
    unfolding chrono_store_result [OF inv] wv ch
    by (simp add: replicate_append_same)
qed

lemma fade_step_miss:
  assumes f: "fade c j s" and j: "Suc j < WINDOW_SIZE - unat DETECTING_CONS_RESULT_CNT"
    and c: "c \<noteq> SILENCE"
  shows "\<exists>s'. process_result SILENCE s = Inr (s', []) \<and> fade c (Suc j) s'"
proof -
  let ?d = "store_result SILENCE s"
  let ?T = "unat DETECTING_CONS_RESULT_CNT"
  from j have j': "j < WINDOW_SIZE - ?T" by simp
  note st = fade_store [OF f j']
  from f have inv: "agg_inv s" and det: "current_state s = detecting"
    by (simp_all add: fade_def)
  from st(2) have v: "unat (written_value SILENCE s) < NUM_CLASSES"
    by (simp add: kws_consts)
  from j obtain m where m: "WINDOW_SIZE - ?T - Suc j = Suc m"
    by (cases "WINDOW_SIZE - ?T - Suc j") simp_all
  have ch: "chrono ?d = replicate (Suc m) SILENCE @ replicate ?T c @ replicate (Suc j) SILENCE"
    using st(1) by (simp only: m)
  then have hd: "hd (chrono ?d) = SILENCE" by simp
  have "\<not> scan_hit ?d"
    unfolding scan_hit_def hd using det
    by (simp only: ch store_result_control fade_scan_miss [OF c]) simp
  with process_result_detecting [OF inv det v] obtain s' where
    p: "process_result SILENCE s = Inr (s', [])" and st': "current_state s' = detecting"
    by auto
  from process_result_preserves [OF inv p] have inv': "agg_inv s'" .
  from process_result_fields(5) [OF inv p] chrono_store_result [of s SILENCE] inv
  have "chrono s' = chrono ?d"
    by (simp add: agg_inv_def)
  with p st' inv' st(1) show ?thesis
    by (auto simp: fade_def)
qed

lemma fade_step_hit:
  assumes f: "fade c j s" and j: "Suc j = WINDOW_SIZE - unat DETECTING_CONS_RESULT_CNT"
    and c: "c \<noteq> SILENCE"
  shows "\<exists>s'. process_result SILENCE s =
       Inr (s', [CountsLine (occupancy (replicate (unat DETECTING_CONS_RESULT_CNT) c @
                   replicate (WINDOW_SIZE - unat DETECTING_CONS_RESULT_CNT) SILENCE)),
                 DetectLine (label ! unat c)]) \<and>
     agg_inv s' \<and> current_state s' = fill_silence \<and> fill_silence_cnt s' = 0"
proof -
  let ?d = "store_result SILENCE s"
  let ?T = "unat DETECTING_CONS_RESULT_CNT"
  from j have j': "j < WINDOW_SIZE - ?T" by simp
  note st = fade_store [OF f j']
  from f have inv: "agg_inv s" and det: "current_state s = detecting"
    by (simp_all add: fade_def)
  from st(2) have v: "unat (written_value SILENCE s) < NUM_CLASSES"
    by (simp add: kws_consts)
  have ch: "chrono ?d = replicate ?T c @ replicate (WINDOW_SIZE - ?T) SILENCE"
    using st(1) by (simp add: j [symmetric])
  then have hd: "hd (chrono ?d) = c"
    by (simp add: DETECTING_CONS_RESULT_CNT_def)
  have "scan_chrono detecting (chrono ?d) 0 (hd (chrono ?d)) =
        (DETECTING_CONS_RESULT_CNT, c, True)"
    by (subst hd, subst ch, rule scan_chrono_block_hit)
      (simp_all add: c DETECTING_CONS_RESULT_CNT_def)
  with det have hit: "scan_hit ?d" and cls: "scan_class ?d = c"
    by (simp_all add: scan_hit_def scan_class_def)
  from process_result_detecting [OF inv det v] hit cls ch obtain s' where
    p: "process_result SILENCE s =
        Inr (s', [CountsLine (occupancy (replicate ?T c @ replicate (WINDOW_SIZE - ?T) SILENCE)),
                  DetectLine (label ! unat c)])"
    and st': "current_state s' = fill_silence" "fill_silence_cnt s' = 0"
    by auto
  from process_result_preserves [OF inv p] have "agg_inv s'" .
  with p st' show ?thesis by blast
qed

lemma fade_run:
  assumes "fade c j s" and "j + n < WINDOW_SIZE - unat DETECTING_CONS_RESULT_CNT"
    and "c \<noteq> SILENCE"
  shows "\<exists>s'. run_results (replicate n SILENCE) s = Inr (s', []) \<and> fade c (j + n) s'"
  using assms(1,2)
proof (induction n arbitrary: j s)
  case 0
  then show ?case by simp
next
  case (Suc n)
  from Suc.prems(2) have "Suc j < WINDOW_SIZE - unat DETECTING_CONS_RESULT_CNT" by simp
  from fade_step_miss [OF Suc.prems(1) this assms(3)] obtain s1 where
    p: "process_result SILENCE s = Inr (s1, [])" and f: "fade c (Suc j) s1"
    by auto
  from Suc.IH [OF f] Suc.prems(2) obtain s' where
    "run_results (replicate n SILENCE) s1 = Inr (s', [])" "fade c (Suc j + n) s'"
    by auto
  with run_results_Cons_Inr [OF p this(1)] show ?case by auto
qed

lemma late_run:
  assumes "quiet s" and "last_result s \<noteq> c" and "c \<noteq> SILENCE" and "unat c < NUM_CLASSES"
    and "n < WINDOW_SIZE - unat DETECTING_CONS_RESULT_CNT"
  shows "\<exists>s'. run_results (replicate (Suc (unat DETECTING_CONS_RESULT_CNT)) c @
                  replicate n SILENCE) s = Inr (s', []) \<and> fade c n s'"
proof -
  from word_quiet_run [OF assms(1-4) order_refl] obtain s1 where
    r1: "run_results (replicate (Suc (unat DETECTING_CONS_RESULT_CNT)) c) s = Inr (s1, [])"
    and "ramp c (unat DETECTING_CONS_RESULT_CNT) s1"
    by auto
  then have "fade c 0 s1" by (simp add: ramp_fade)
  from fade_run [OF this _ assms(3), of n] assms(5) obtain s' where
    "run_results (replicate n SILENCE) s1 = Inr (s', [])" "fade c n s'"
    by auto
  with run_results_append_Inr [OF r1 this(1)] show ?thesis by auto
qed

text \<open>
  C14. A late detection. From rest, a word of exactly 21 codes of a class (20
  of them reach the window, the first one is debounced away) prints nothing
  while it is heard, nothing during the next 19 notifications of silence, and
  its detection on the 20th notification of silence, when its codes have
  become the oldest of the window: the scan counts the oldest code of the
  window but not the first code after a change of class.
\<close>

theorem late_detection:
  assumes "quiet s" and "last_result s \<noteq> c" and "c \<noteq> SILENCE" and "unat c < NUM_CLASSES"
  shows "(\<forall>n < 20. \<exists>s'. run_results (replicate 21 c @ replicate n SILENCE) s = Inr (s', [])) \<and>
         (\<exists>s'. run_results (replicate 21 c @ replicate 20 SILENCE) s =
            Inr (s', [CountsLine (occupancy (replicate 20 c @ replicate 20 SILENCE)),
                      DetectLine (label ! unat c)]) \<and>
            current_state s' = fill_silence)"
proof (intro conjI allI impI)
  fix n :: nat assume "n < 20"
  with late_run [OF assms, of n]
  show "\<exists>s'. run_results (replicate 21 c @ replicate n SILENCE) s = Inr (s', [])"
    by (auto simp: kws_consts)
next
  from late_run [OF assms, of 19] obtain s1 where
    r1: "run_results (replicate (Suc (unat DETECTING_CONS_RESULT_CNT)) c @
           replicate 19 SILENCE) s = Inr (s1, [])"
    and f: "fade c 19 s1"
    by (auto simp: kws_consts)
  have "Suc 19 = WINDOW_SIZE - unat DETECTING_CONS_RESULT_CNT"
    by (simp add: kws_consts)
  from fade_step_hit [OF f this assms(3)] obtain s' where
    p: "process_result SILENCE s1 =
        Inr (s', [CountsLine (occupancy (replicate (unat DETECTING_CONS_RESULT_CNT) c @
                    replicate (WINDOW_SIZE - unat DETECTING_CONS_RESULT_CNT) SILENCE)),
                  DetectLine (label ! unat c)])"
    and st: "current_state s' = fill_silence"
    by auto
  have "replicate 20 SILENCE = SILENCE # replicate 19 SILENCE"
    using replicate_add [of 1 19 SILENCE] by simp
  then have "replicate 21 c @ replicate 20 SILENCE =
        (replicate (Suc (unat DETECTING_CONS_RESULT_CNT)) c @ replicate 19 SILENCE) @ [SILENCE]"
    by (simp add: DETECTING_CONS_RESULT_CNT_def replicate_append_same)
  with run_results_snoc [OF r1 p] st
  show "\<exists>s'. run_results (replicate 21 c @ replicate 20 SILENCE) s =
            Inr (s', [CountsLine (occupancy (replicate 20 c @ replicate 20 SILENCE)),
                      DetectLine (label ! unat c)]) \<and>
            current_state s' = fill_silence"
    by (simp add: kws_consts)
qed

theorem late_detection_witness:
  "\<exists>s'. run_results (replicate 21 0 @ replicate 20 SILENCE) init_aggregator =
      Inr (s', [CountsLine [20, 0, 0, 0, 0, 0, 0, 0, 0, 0, 20, 0], DetectLine ''yes'']) \<and>
      current_state s' = fill_silence"
proof -
  have "last_result init_aggregator \<noteq> 0" "(0 :: u8) \<noteq> SILENCE" "unat (0 :: u8) < NUM_CLASSES"
    by (simp_all add: kws_consts)
  from late_detection [OF quiet_init this]
  have "\<exists>s'. run_results (replicate 21 0 @ replicate 20 SILENCE) init_aggregator =
      Inr (s', [CountsLine (occupancy (replicate 20 0 @ replicate 20 SILENCE)),
                DetectLine (label ! unat (0 :: u8))]) \<and> current_state s' = fill_silence"
    by blast
  moreover have "occupancy (replicate 20 (0 :: u8) @ replicate 20 SILENCE) =
      [20, 0, 0, 0, 0, 0, 0, 0, 0, 0, 20, 0]"
    by (simp add: occupancy_def kws_consts upt_rec)
  ultimately show ?thesis
    by (simp add: label_def)
qed

end
