(* ===== verification/Control_Automaton.thy ===== *)
theory Control_Automaton
  imports Scenarios
begin

text \<open>
  The control of the aggregator as an automaton. Its states are \<open>Listening\<close>
  (the state \<^verbatim>\<open>detecting\<close> of the code), \<open>Holdoff n\<close> (the state
  \<^verbatim>\<open>fill_silence\<close> with \<^verbatim>\<open>fill_silence_cnt\<close> at \<open>n\<close>) and \<open>Unknown\<close> (a value
  outside the enumeration); a step is labelled with what the notification
  prints. \<open>process_result_ctl_step\<close> shows that every notification of the code
  is a step of the automaton, \<open>trace_results_ctl_run\<close> that every run of the
  loop is a run of the automaton. What holds of all runs of the automaton
  then holds of the code: two detections are more than
  \<open>FILL_SILENCE_MAX_CNT\<close> notifications apart.
\<close>

section \<open>The automaton\<close>

datatype mode = Listening | Holdoff nat | Unknown

inductive ctl_step :: "mode \<Rightarrow> printed list \<Rightarrow> mode \<Rightarrow> bool" where
  listen: "ctl_step Listening [] Listening"
| detect: "length cs = NUM_CLASSES \<Longrightarrow> c < NUM_CLASSES \<Longrightarrow> c \<noteq> unat SILENCE \<Longrightarrow>
     ctl_step Listening [CountsLine cs, DetectLine (label ! c)] (Holdoff 0)"
| hold: "Suc n < unat FILL_SILENCE_MAX_CNT \<Longrightarrow> ctl_step (Holdoff n) [] (Holdoff (Suc n))"
| release: "Suc n = unat FILL_SILENCE_MAX_CNT \<Longrightarrow> ctl_step (Holdoff n) [] Listening"
| recover: "ctl_step Unknown [] Listening"

code_pred ctl_step .

inductive_cases ctl_step_printsE: "ctl_step m (x # xs) m'"
inductive_simps ctl_step_Holdoff: "ctl_step (Holdoff n) e m'"

inductive ctl_run :: "mode \<Rightarrow> printed list list \<Rightarrow> mode \<Rightarrow> bool" where
  stop: "ctl_run m [] m"
| go: "ctl_step m e m1 \<Longrightarrow> ctl_run m1 es m2 \<Longrightarrow> ctl_run m (e # es) m2"

inductive_simps ctl_run_Nil: "ctl_run m [] m'"
inductive_simps ctl_run_Cons: "ctl_run m (e # es) m'"

text \<open>
  The automaton never enters \<open>Unknown\<close>, it prints only when it leaves
  \<open>Listening\<close> for the start of the hold-off, and the hold-off is
  deterministic: it lasts until the counter reaches \<open>FILL_SILENCE_MAX_CNT\<close>.
\<close>

lemma ctl_step_known: "ctl_step m e m' \<Longrightarrow> m' \<noteq> Unknown"
  by (induction rule: ctl_step.induct) simp_all

lemma ctl_step_prints: "ctl_step m (x # xs) m' \<Longrightarrow> m = Listening \<and> m' = Holdoff 0"
  by (erule ctl_step_printsE) simp_all

lemma ctl_run_holdoff:
  assumes "ctl_run (Holdoff n) es m" and "n + length es \<le> unat FILL_SILENCE_MAX_CNT"
    and "n < unat FILL_SILENCE_MAX_CNT"
  shows "es = replicate (length es) [] \<and>
     m = (if n + length es = unat FILL_SILENCE_MAX_CNT then Listening
          else Holdoff (n + length es))"
  using assms
proof (induction es arbitrary: n)
  case Nil
  then show ?case by (auto simp: ctl_run_Nil)
next
  case (Cons e es)
  from Cons.prems(1) obtain m1 where
    s: "ctl_step (Holdoff n) e m1" and r: "ctl_run m1 es m"
    by (auto simp: ctl_run_Cons)
  from Cons.prems(2) have "Suc n < unat FILL_SILENCE_MAX_CNT \<or> es = []"
    by (cases es) auto
  then show ?case
  proof
    assume lt: "Suc n < unat FILL_SILENCE_MAX_CNT"
    with s have e: "e = []" "m1 = Holdoff (Suc n)" by (auto simp: ctl_step_Holdoff)
    with Cons.IH [of "Suc n"] r Cons.prems(2) lt show ?thesis by simp
  next
    assume "es = []"
    with s r Cons.prems(2) show ?thesis
      by (auto simp: ctl_step_Holdoff ctl_run_Nil)
  qed
qed

section \<open>The code as a run of the automaton\<close>

definition mode_of :: "aggregator \<Rightarrow> mode" where
  "mode_of s =
     (case current_state s of
        detecting \<Rightarrow> Listening
      | fill_silence \<Rightarrow> Holdoff (unat (fill_silence_cnt s))
      | out_of_enum v \<Rightarrow> Unknown)"

text \<open>The loop over a list of codes, keeping what each notification prints.\<close>

fun trace_results :: "u8 list \<Rightarrow> aggregator \<Rightarrow> fault + aggregator \<times> printed list list" where
  "trace_results [] s = Inr (s, [])"
| "trace_results (r # rs) s =
     seq_result (process_result r s) (\<lambda>(s', out).
     seq_result (trace_results rs s') (\<lambda>(s'', outs). Inr (s'', out # outs)))"

lemma trace_results_Cons_Inr:
  "trace_results (r # rs) s = Inr (s', tr) \<longleftrightarrow>
   (\<exists>s1 out outs. process_result r s = Inr (s1, out) \<and>
      trace_results rs s1 = Inr (s', outs) \<and> tr = out # outs)"
  by (auto simp: seq_result_eq_Inr)

lemma run_results_trace:
  "run_results rs s = map_sum id (apsnd concat) (trace_results rs s)"
proof (induction rs arbitrary: s)
  case Nil
  show ?case by simp
next
  case (Cons r rs)
  show ?case
  proof (cases "process_result r s")
    case (Inl e)
    then show ?thesis by simp
  next
    case (Inr p)
    obtain s1 out where p: "p = (s1, out)" by (cases p)
    show ?thesis
      by (cases "trace_results rs s1") (auto simp: Inr p Cons.IH)
  qed
qed


text \<open>A notification is a step of the automaton, state by state.\<close>

lemma ctl_step_detecting:
  assumes inv: "agg_inv s" and p: "process_result r s = Inr (s', out)"
    and st: "current_state s = detecting"
  shows "ctl_step Listening out (mode_of s')"
proof -
  let ?d = "store_result r s"
  note v = process_result_Inr(1) [OF inv p]
  from inv v have w: "window_inv ?d"
    by (simp add: agg_inv_def store_result_window_inv)
  show ?thesis
  proof (cases "scan_hit ?d")
    case True
    from scan_class_window [OF True w]
    have "unat (scan_class ?d) < NUM_CLASSES" "unat (scan_class ?d) \<noteq> unat SILENCE"
      by (simp_all add: word_unat_eq_iff)
    then have "ctl_step Listening
        [CountsLine (occupancy (chrono ?d)), DetectLine (label ! unat (scan_class ?d))]
        (Holdoff 0)"
      by (intro ctl_step.detect) simp_all
    with process_result_detecting [OF inv st v] p True show ?thesis
      by (auto simp: mode_of_def)
  next
    case False
    with process_result_detecting [OF inv st v] p show ?thesis
      by (auto simp: mode_of_def intro: ctl_step.listen)
  qed
qed

lemma ctl_step_cooldown:
  assumes inv: "agg_inv s" and p: "process_result r s = Inr (s', out)"
    and st: "current_state s = fill_silence"
  shows "ctl_step (Holdoff (unat (fill_silence_cnt s))) out (mode_of s')"
  using cooldown_step [OF inv st, of r] p
  by (cases "Suc (unat (fill_silence_cnt s)) = unat FILL_SILENCE_MAX_CNT")
    (auto simp: mode_of_def intro: ctl_step.release ctl_step.hold)

lemma ctl_step_unknown:
  assumes inv: "agg_inv s" and p: "process_result r s = Inr (s', out)"
    and st: "current_state s = out_of_enum v"
  shows "ctl_step Unknown out (mode_of s')"
  using process_result_out_of_enum [OF inv st process_result_Inr(1) [OF inv p]] p
  by (auto simp: mode_of_def intro: ctl_step.recover)

lemma process_result_ctl_step:
  assumes "agg_inv s" and "process_result r s = Inr (s', out)"
  shows "ctl_step (mode_of s) out (mode_of s')"
  using assms
  by (cases "current_state s")
    (simp_all add: mode_of_def [of s] ctl_step_detecting ctl_step_cooldown ctl_step_unknown)

lemma trace_results_ctl_run:
  assumes "agg_inv s" and "trace_results rs s = Inr (s', tr)"
  shows "ctl_run (mode_of s) tr (mode_of s')"
  using assms
proof (induction rs arbitrary: s tr)
  case Nil
  then show ?case by (auto intro: ctl_run.stop)
next
  case (Cons r rs)
  from Cons.prems(2) obtain s1 out outs where
    p: "process_result r s = Inr (s1, out)" and t: "trace_results rs s1 = Inr (s', outs)"
    and tr: "tr = out # outs"
    unfolding trace_results_Cons_Inr by blast
  from process_result_preserves [OF Cons.prems(1) p] have "agg_inv s1" .
  from Cons.IH [OF this t] process_result_ctl_step [OF Cons.prems(1) p] tr show ?case
    by (auto intro: ctl_run.go)
qed

text \<open>The states the aggregator reaches are states of the enumeration.\<close>

lemma reachable_known: "reachable s \<Longrightarrow> mode_of s \<noteq> Unknown"
proof (induction rule: reachable.induct)
  case init
  show ?case by (simp add: mode_of_def)
next
  case (step s r s' out)
  from process_result_ctl_step [OF reachable_agg_inv [OF step.hyps(1)] step.hyps(2)]
  show ?case by (rule ctl_step_known)
qed

section \<open>What holds of every run of the automaton\<close>

text \<open>
  \<open>spaced k es\<close>: the first \<open>k\<close> labels of \<open>es\<close> print nothing, and so do the
  \<open>FILL_SILENCE_MAX_CNT\<close> labels after each label that prints.
\<close>

fun spaced :: "nat \<Rightarrow> printed list list \<Rightarrow> bool" where
  "spaced k [] = True"
| "spaced k (e # es) =
     (if e = [] then spaced (k - 1) es else k = 0 \<and> spaced (unat FILL_SILENCE_MAX_CNT) es)"

fun need :: "mode \<Rightarrow> nat" where
  "need Listening = 0"
| "need (Holdoff n) = unat FILL_SILENCE_MAX_CNT - n"
| "need Unknown = 0"

lemma ctl_step_need:
  "ctl_step m e m' \<Longrightarrow>
   (if e = [] then need m' = need m - 1 else need m = 0 \<and> need m' = unat FILL_SILENCE_MAX_CNT)"
  by (induction rule: ctl_step.induct) auto

lemma ctl_run_spaced: "ctl_run m es m' \<Longrightarrow> spaced (need m) es"
proof (induction rule: ctl_run.induct)
  case (stop m)
  show ?case by simp
next
  case (go m e m1 es m2)
  from ctl_step_need [OF go.hyps(1)] go.IH show ?case
    by (auto split: if_splits)
qed

lemma spaced_first:
  "spaced k es \<Longrightarrow> j < length es \<Longrightarrow> es ! j \<noteq> [] \<Longrightarrow> k \<le> j"
proof (induction es arbitrary: k j)
  case Nil
  then show ?case by simp
next
  case (Cons e es)
  show ?case
  proof (cases j)
    case 0
    with Cons.prems show ?thesis by simp
  next
    case (Suc j')
    with Cons.prems have "es ! j' \<noteq> []" "j' < length es" by simp_all
    moreover from Cons.prems(1) have "spaced (k - 1) es \<or> k = 0"
      by (auto split: if_splits)
    ultimately show ?thesis
      using Cons.IH [of "k - 1" j'] Suc by auto
  qed
qed

lemma spaced_gap:
  "spaced k es \<Longrightarrow> i < j \<Longrightarrow> j < length es \<Longrightarrow> es ! i \<noteq> [] \<Longrightarrow> es ! j \<noteq> [] \<Longrightarrow>
   i + unat FILL_SILENCE_MAX_CNT \<le> j - 1"
proof (induction es arbitrary: k i j)
  case Nil
  then show ?case by simp
next
  case (Cons e es)
  from Cons.prems(2) obtain j' where j: "j = Suc j'" by (cases j) auto
  with Cons.prems have j': "j' < length es" "es ! j' \<noteq> []" by simp_all
  show ?case
  proof (cases i)
    case 0
    with Cons.prems have "spaced (unat FILL_SILENCE_MAX_CNT) es" by simp
    from spaced_first [OF this j'] 0 j show ?thesis by simp
  next
    case (Suc i')
    from Cons.prems(1) obtain k' where "spaced k' es"
      by (auto split: if_splits)
    from Cons.IH [OF this, of i' j'] Cons.prems j j' Suc show ?thesis by auto
  qed
qed

section \<open>Traces with two detections\<close>

lemma process_result_last_result:
  "process_result r s = Inr (s', out) \<Longrightarrow> last_result s' = r"
  by (auto simp: process_result_def seq_result_eq_Inr)

lemma run_results_last_result:
  "run_results rs s = Inr (s', out) \<Longrightarrow> rs \<noteq> [] \<Longrightarrow> last_result s' = last rs"
proof (induction rs arbitrary: s out)
  case Nil
  then show ?case by simp
next
  case (Cons r rs)
  from Cons.prems(1) obtain s1 o1 o2 where
    p: "process_result r s = Inr (s1, o1)" and t: "run_results rs s1 = Inr (s', o2)"
    by (auto simp: seq_result_eq_Inr)
  show ?case
  proof (cases "rs = []")
    case True
    with p t show ?thesis by (simp add: process_result_last_result)
  next
    case False
    with Cons.IH [OF t] show ?thesis by simp
  qed
qed

lemma trace_results_append_Inr:
  assumes "trace_results xs s = Inr (s1, t1)" and "trace_results ys s1 = Inr (s2, t2)"
  shows "trace_results (xs @ ys) s = Inr (s2, t1 @ t2)"
  using assms
proof (induction xs arbitrary: s t1)
  case Nil
  then show ?case by simp
next
  case (Cons x xs)
  from Cons.prems(1) obtain s' out outs where
    p: "process_result x s = Inr (s', out)" and t: "trace_results xs s' = Inr (s1, outs)"
    and t1: "t1 = out # outs"
    unfolding trace_results_Cons_Inr by blast
  from Cons.IH [OF t Cons.prems(2)] p t1 show ?case by simp
qed

lemma printing_trace:
  assumes "run_results rs s = Inr (s', out)" and "out \<noteq> []"
  shows "\<exists>tr i. trace_results rs s = Inr (s', tr) \<and> i < length tr \<and> tr ! i \<noteq> []"
proof -
  from assms(1) run_results_trace [of rs s] obtain tr where
    t: "trace_results rs s = Inr (s', tr)" and "concat tr = out"
    by (cases "trace_results rs s") auto
  with assms(2) obtain e where "e \<in> set tr" "e \<noteq> []" by auto
  then obtain i where "i < length tr" "tr ! i \<noteq> []"
    by (auto simp: in_set_conv_nth)
  with t show ?thesis by blast
qed

lemma silent_trace:
  assumes "run_results rs s = Inr (s', [])"
  shows "\<exists>tr. trace_results rs s = Inr (s', tr)"
  using assms run_results_trace [of rs s] by (cases "trace_results rs s") auto

lemma two_words_trace:
  assumes q: "quiet s" and l: "last_result s \<noteq> c"
    and c: "c \<noteq> SILENCE" "unat c < NUM_CLASSES"
  shows "\<exists>s' tr i j.
     trace_results (replicate 22 c @ replicate 40 SILENCE @ replicate 22 c) s = Inr (s', tr) \<and>
     i < j \<and> j < length tr \<and> tr ! i \<noteq> [] \<and> tr ! j \<noteq> []"
proof -
  from word_detected_run [OF q l c] obtain s1 o1 where
    r1: "run_results (replicate 22 c) s = Inr (s1, o1)" "o1 \<noteq> []"
    and s1: "agg_inv s1" "current_state s1 = fill_silence" "fill_silence_cnt s1 = 0"
    by (auto simp: kws_consts)
  have "unat (fill_silence_cnt s1) + length (replicate 40 SILENCE) \<le> unat FILL_SILENCE_MAX_CNT"
    by (simp add: s1 kws_consts)
  from cooldown_run [OF s1(1,2) this] s1 obtain s2 where
    r2: "run_results (replicate 40 SILENCE) s1 = Inr (s2, [])" and q2: "quiet s2"
    by (auto simp: quiet_def kws_consts agg_inv_def window_inv_def)
  from run_results_last_result [OF r2] c(1) have l2: "last_result s2 \<noteq> c" by simp
  from word_detected_run [OF q2 l2 c] obtain s3 o3 where
    r3: "run_results (replicate 22 c) s2 = Inr (s3, o3)" "o3 \<noteq> []"
    by (auto simp: kws_consts)
  from printing_trace [OF r1] obtain t1 i where
    t1: "trace_results (replicate 22 c) s = Inr (s1, t1)" and i: "i < length t1" "t1 ! i \<noteq> []"
    by blast
  from silent_trace [OF r2] obtain t2 where
    t2: "trace_results (replicate 40 SILENCE) s1 = Inr (s2, t2)"
    by blast
  from printing_trace [OF r3] obtain t3 j where
    t3: "trace_results (replicate 22 c) s2 = Inr (s3, t3)" and j: "j < length t3" "t3 ! j \<noteq> []"
    by blast
  note t = trace_results_append_Inr [OF t1 trace_results_append_Inr [OF t2 t3]]
  let ?j = "length t1 + (length t2 + j)"
  have "(t1 @ t2 @ t3) ! i = t1 ! i" "(t1 @ t2 @ t3) ! ?j = t3 ! j"
    using i(1) by (simp_all add: nth_append)
  with i j have "i < ?j \<and> ?j < length (t1 @ t2 @ t3) \<and>
      (t1 @ t2 @ t3) ! i \<noteq> [] \<and> (t1 @ t2 @ t3) ! ?j \<noteq> []"
    by simp
  with t show ?thesis by blast
qed

section \<open>Detections are spaced\<close>

text \<open>
  C15. In every run of the loop from a state that satisfies the invariant,
  two notifications that print are more than \<open>FILL_SILENCE_MAX_CNT\<close>
  notifications apart: the 40 notifications after a detection print nothing.
\<close>

theorem detections_spaced:
  assumes "agg_inv s" and "trace_results rs s = Inr (s', tr)"
    and "i < j" and "j < length tr" and "tr ! i \<noteq> []" and "tr ! j \<noteq> []"
  shows "i + unat FILL_SILENCE_MAX_CNT < j"
proof -
  from trace_results_ctl_run [OF assms(1,2)] have "spaced (need (mode_of s)) tr"
    by (rule ctl_run_spaced)
  from spaced_gap [OF this assms(3-6)] assms(3) show ?thesis by simp
qed

theorem detections_spaced_witness:
  "\<exists>s' tr i j.
     trace_results (replicate 22 0 @ replicate 40 SILENCE @ replicate 22 0) init_aggregator =
       Inr (s', tr) \<and>
     i < j \<and> j < length tr \<and> tr ! i \<noteq> [] \<and> tr ! j \<noteq> [] \<and>
     i + unat FILL_SILENCE_MAX_CNT < j"
proof -
  have "last_result init_aggregator \<noteq> 0" "(0 :: u8) \<noteq> SILENCE" "unat (0 :: u8) < NUM_CLASSES"
    by (simp_all add: kws_consts)
  from two_words_trace [OF quiet_init this] obtain s' tr i j where
    t: "trace_results (replicate 22 0 @ replicate 40 SILENCE @ replicate 22 0) init_aggregator =
        Inr (s', tr)"
    and ij: "i < j" "j < length tr" "tr ! i \<noteq> []" "tr ! j \<noteq> []"
    by blast
  from detections_spaced [OF agg_inv_init t ij] t ij show ?thesis by blast
qed

end
