(* ===== verification/Spec2Isabelle.thy ===== *)
theory Spec2Isabelle
  imports Boot Consensus Control_Automaton
begin

text \<open>
  \<^bold>\<open>TsetlinKWS host software: a verification development.\<close>

  The program (src/src_sw) runs on the processor beside a keyword-spotting
  accelerator. At boot it mounts a card, reads the model from fourteen text
  files into byte buffers, and sends the buffers to the accelerator over SPI,
  each bank after a four-byte address token, ending with the token that starts
  inference. Then it loops for ever: every time the accelerator signals a
  result, the loop reads a four-bit class code from four pins and feeds it to
  the result aggregator, which keeps the last 40 debounced codes in a circular
  window and prints a detection when 21 equal codes of a class stand in a row.

  \<^bold>\<open>Parts and theories.\<close>

  \<^item> \<open>KWS_Prelude\<close>: the types \<open>u8\<close>, \<open>u32\<close>, sequencing of fallible steps
    (\<open>seq_result\<close>), the collections \<open>kws_consts\<close>, \<open>kws_ops\<close>, \<open>kws_inv\<close>, and
    the list and word lemmas the components share.

  \<^item> \<open>Aggregator\<close> models the body of the loop of \<open>main\<close> (main_codec.c, lines
    162 to 269). The globals and the locals of \<open>main\<close> that the loop uses are
    the record \<open>aggregator\<close>; \<open>sys_state\<close> is the enum, with a third
    constructor for a value outside it, which the second \<open>switch\<close> handles by
    its \<open>default\<close>. Each commented block of the loop is one definition, in
    the order of the source: \<open>get_result\<close>, \<open>pop_element\<close>, \<open>update_element\<close>,
    \<open>update_count\<close>, \<open>update_index\<close>, \<open>calc_average_result\<close> (loop
    \<open>average_loop\<close>), \<open>consecutive_scan\<close> (loop \<open>consecutive_loop\<close>), \<open>report\<close>
    (first \<open>switch\<close>), \<open>next_state\<close> (second \<open>switch\<close>); \<open>process_result\<close>
    composes them and stores \<open>last_result\<close>; \<open>run_results\<close> is the loop over
    a list of codes. Counters are 8-bit words and wrap as in C. An index
    outside \<open>result_window\<close>, \<open>result_count\<close> or \<open>label\<close> is the value
    \<open>Inl\<close> of a \<open>fault\<close>. What is printed is returned as a list of
    \<open>printed\<close> lines.

  \<^item> \<open>Aggregator_Window\<close>: the data path against its specification. \<open>occupancy\<close>
    recounts a window from scratch, \<open>chrono\<close> is the window oldest first,
    \<open>store_result\<close> the abstract store. Lemmas: the decrement and increment
    keep the counts equal to the recount; the circular index implements a
    sliding window.

  \<^item> \<open>Aggregator_Scan\<close>: the consensus loop equals \<open>scan_chrono\<close>, a scan of
    the chronological window; lemmas for runs of silence, class changes and
    blocks of one class.

  \<^item> \<open>Aggregator_Step\<close>: the invariant \<open>agg_inv\<close> (window of 40 classes,
    counts equal to the recount, control fields consistent with the state),
    the control half \<open>finish\<close> case by case, and \<open>process_result\<close> as
    \<open>finish\<close> after \<open>store_result\<close>.

  \<^item> \<open>Aggregator_Props\<close>: reachable states (\<open>reachable\<close>) and the properties
    of one notification: the sum of the counts, preservation of the
    invariant, refinement of the recount, the sliding window, the scan, the
    debounce law, and exactly when a notification faults.

  \<^item> \<open>Detection\<close> and \<open>Scenarios\<close>: sequences of notifications. \<open>quiet\<close> is
    the aggregator at rest, \<open>ramp c k\<close> the aggregator hearing a word,
    \<open>blips\<close> the code sequences that never register. Theorems: a detection
    enters the cooldown; the cooldown prints nothing for 40 notifications and
    ends at rest; blips never detect; a word is detected on its 22nd code;
    one word gives one detection; the majority loop finds the first largest
    count; a state outside the enumeration is reset to \<open>detecting\<close>.

  \<^item> \<open>Consensus\<close>: when the scan raises the flag, for every window: the oldest
    20 codes are one class, or 21 codes of one class follow each other
    (\<open>has_run\<close>). \<open>fade c j\<close> is the aggregator after a word that left exactly
    20 codes; such a word is detected 20 notifications late.

  \<^item> \<open>Control_Automaton\<close>: the control of the aggregator as an automaton with
    the states \<open>Listening\<close>, \<open>Holdoff n\<close> and \<open>Unknown\<close> (\<open>mode\<close>), its steps
    labelled with what is printed (\<open>ctl_step\<close>, \<open>ctl_run\<close>). \<open>trace_results\<close>
    is the loop with the output of each pass kept apart. Lemmas: every
    notification is a step and every run of the loop a run of the automaton
    (\<open>mode_of\<close> maps the states); reachable states are states of the
    enumeration. Theorem: detections are more than 40 notifications apart.

  \<^item> \<open>Wire_Format\<close>: the byte and bit loops shared by tf_card.c and
    spi_config.c (\<open>be_bytes\<close>, \<open>msb_first\<close>, \<open>binary_str_to_uint32\<close>) and their
    reference readings \<open>be_word\<close>, \<open>bin_value\<close>.

  \<^item> \<open>TF_Card\<close> models tf_card.c: \<open>platform_init_fs\<close>, \<open>sd_mount\<close>,
    \<open>sd_read_binary\<close> (loop \<open>read_binary_loop\<close>, line check \<open>valid_line\<close>,
    store \<open>store_word\<close>) and \<open>sd_read_hex\<close> (loop \<open>read_hex_loop\<close>). The card
    is the record \<open>card\<close>. The FatFs calls and \<open>strtoul\<close> are not in the
    repository; \<open>f_mount\<close>, \<open>f_mkfs\<close>, \<open>f_open\<close>, \<open>f_gets\<close> and \<open>strtoul16\<close>
    are written from their documentation. Lemmas: each loop equals
    \<open>put_words\<close> of the words of the file (\<open>chunks\<close>, \<open>accepted\<close>), and never
    leaves a buffer with room for \<open>max_lines\<close> words.

  \<^item> \<open>Text_Files\<close>: files made of short lines ended by a line feed; on them
    the binary reader stores the values of the well-formed lines, and the
    hexadecimal reader the value of every line (\<open>hex_value\<close> for a line of
    hexadecimal digits).

  \<^item> \<open>Bank_Loader\<close> models spi_config.c and spi_config.h: the file names, the
    capacities, the tokens, the buffers (\<open>model_buffers\<close>, zero at start as C
    globals are), \<open>read_model_data\<close>, \<open>SPIWrite\<close>, \<open>initial_TMA\<close>. The link is
    the list of bursts sent. Lemmas: \<open>read_model_data\<close> computes \<open>payloads\<close>,
    \<open>initial_TMA\<close> appends \<open>image\<close>.

  \<^item> \<open>Loader_Props\<close>: the properties of the loader: round trip of the wire
    format, the readers on text files and in bounds, the 27 bursts of a load,
    the way from a file to the burst of its bank (\<open>banks\<close> is the table of the
    banks sent after a token, \<open>file_words\<close> what a reader stores for a text
    file), the behaviour on missing files, short files and unmountable
    cards, and the weight file.

  \<^item> \<open>Notification\<close> models the handoff of the completion signal:
    \<open>intr_handler\<close> (main_codec.c, lines 329 to 341) and the head of the loop
    (lines 162 to 172) as \<open>main_step\<close>, cut where an interrupt can fall
    (\<open>loop_pc\<close>). A run is a list of \<open>action\<close>s, handler runs and loop
    statements in any order. Theorems: the loop feeds the aggregator exactly
    the codes read in its body; no frame is processed without a signal; a
    raised flag is served by the next three statements; two signals in a row
    are one; a signal during the body is kept; the code is below 16.

  \<^item> \<open>Codec_I2C\<close> models \<open>ADAU1761_Write_Reg\<close> (lines 383 to 405): the frame
    buffer, the copy loop (\<open>copy_loop\<close>), the frame sent, and the wait for the
    bus (\<open>wait_idle\<close>).

  \<^item> \<open>Codec_Init\<close> models \<open>init_ADAU1761\<close> (lines 344 to 379): the 31 calls
    in source order (\<open>init_calls\<close>, run by \<open>write_all\<close>), over the symbols of
    the generated header (\<open>codec_reg\<close>, \<open>codec_size\<close>, \<open>codec_table\<close>) whose
    values are the parameter \<open>codec_header\<close>. \<open>frame\<close>, \<open>fits\<close> and \<open>waits\<close>
    say what the sequence sends, when a call stays inside its arrays, and
    what 31 waits consume. \<open>codec_table\<close> is an instance of \<open>enum\<close>, with the
    order of the calls. Theorem: the sequence returns exactly when every
    call fits and the bus reads idle 31 times.

  \<^item> \<open>Boot\<close> models \<open>main\<close> before the loop (lines 74 to 160),
    \<open>initial_spi_system\<close> and \<open>setup_interrupt_system\<close>: \<open>main_boot\<close> maps a
    \<open>platform\<close> (the card, the codec header, the readings of the I2C bus and
    the status of the SPI driver calls) to the record \<open>booted\<close> of what the
    start-up did and how it ended: \<open>Exit\<close> with the returned value, \<open>Loop\<close>
    with the initial host state, or \<open>Stuck\<close> in the wait for the I2C bus.

  \<^item> This theory holds the properties that span the components: how a
    start-up ends, that nothing is sent before everything is ready, and that
    the invariants hold from power-up on.

  \<^bold>\<open>Bounds, termination.\<close> Every loop of the source is a total function:
  \<open>average_loop\<close> and \<open>consecutive_loop\<close> by the distance of the index to its
  bound (12, 40), the readers by the length of the unread file, since \<open>f_gets\<close>
  with a buffer of at least 2 bytes consumes a character, \<open>copy_loop\<close> by the
  distance of its index to the length. No fuel is used. Two loops of the
  source need not end. The \<open>while (1)\<close> of \<open>main\<close> is modelled by its runs:
  \<open>run_results\<close> and \<open>run_actions\<close> run it over a finite list of codes or
  actions, and \<open>reachable\<close> is the set of all states such runs reach. The
  wait \<open>while (XIicPs_BusIsBusy(&Iic))\<close> is \<open>wait_idle\<close> over the list of the
  readings to come, with \<open>None\<close> when no reading is idle; that a register
  write, the codec configuration and the start-up return is proved as such,
  with the number of idle readings that is needed (one for a write, 31 for
  the configuration). The constants are those of the source:
  \<open>WINDOW_SIZE = 40\<close>, \<open>FILL_SILENCE_MAX_CNT = 40\<close>,
  \<open>DETECTING_CONS_RESULT_CNT = 20\<close>, twelve classes, the capacities \<open>LEN_*\<close> of
  spi_config.h. The values of Init_ADAU1761.h (register addresses, sizes,
  tables, the size of the codec program) are not in the repository and are
  parameters; the theorems hold for every header.

  \<^bold>\<open>Where the model departs from C.\<close>

  \<^item> Integers. The counters of the aggregator, the register address and the
    length of a codec write are words of their width. \<open>line_count\<close>,
    \<open>max_lines\<close> and \<open>bit_len\<close> of the readers are natural numbers:
    \<open>line_count * 4\<close> does not wrap, which agrees with C below \<open>2 ^ 29\<close> lines
    (the largest capacity is 3186), and \<open>msb_first\<close> has a value for every
    \<open>bit_len\<close>, while the shift \<open>1U << (bit_len - 1 - i)\<close> is defined in C for
    \<open>bit_len \<le> 32\<close> only (the calls pass 32, 20, 6 and 5).
    \<open>binary_str_to_uint32\<close> shifts a 32-bit unsigned word where the source
    shifts a signed \<open>int\<close>. \<open>strtoul16\<close> takes \<open>unsigned long\<close> as 32 bits, as
    on the target.

  \<^item> Memory that C leaves uninitialised reads as zero: \<open>max_result\<close> and
    \<open>max_result_count\<close> at entry of the loop (both are written before they
    are read) and the frame buffer \<open>I2C_DATA\<close> (only the bytes written are
    sent).

  \<^item> Interrupts. The start-up is one step: no interrupt falls between
    \<open>setup_interrupt_system\<close> and the loop, so the loop starts with the flag
    at 0; a signal that early is a handler run before the first statement of
    the loop, which the runs of \<open>Notification\<close> include. The loop is cut into
    three statements, each atomic; \<open>inference_finish_flag\<close> is not \<open>volatile\<close>
    in the source, and what a compiler may do with that is not modelled.
    \<open>setup_interrupt_system\<close> is reduced to what the rest of the program
    sees of it: the interrupt is enabled and the status is \<open>XST_SUCCESS\<close>.

  \<^item> A call that does not return. When the wait for the I2C bus never ends,
    \<open>ADAU1761_Write_Reg\<close> and \<open>init_ADAU1761\<close> give \<open>None\<close> and the start-up
    is \<open>Stuck\<close>: the frames that were sent before are not part of that
    result.

  \<^bold>\<open>Not modelled.\<close> The Xilinx drivers (GPIO, SPI, I2C, interrupt controller)
  and FatFs are library code: a pin read is an argument of \<open>get_result\<close>, an
  SPI transfer an element of the link, an I2C transfer an element of the bus,
  a file a string, a driver status a field of the platform. Of the console
  output, the lines of \<open>main\<close>, the warning of \<open>ADAU1761_Write_Reg\<close> and the
  two lines of a detection are modelled; the messages of the storage readers
  and of the driver set-up functions are not. Timing (\<open>usleep\<close>, \<open>sleep\<close>) is
  not modelled. Nothing else of src/src_sw is left out: the lines the
  development does not map are includes, prototypes, comments and the
  declarations of the driver instances.
\<close>

section \<open>The whole program\<close>

text \<open>
  A platform on which everything works: a card with a FAT volume (and no
  files, which the loader does not mind), a codec header whose tables hold one
  byte each, a bus that is idle at every reading, and an SPI driver that
  initialises.
\<close>

definition bench_platform :: platform where
  "bench_platform =
     \<lparr>sd_card = \<lparr>fat_volume = True, mkfs_works = False, mounts_after_format = False,
                 files = Map.empty\<rparr>,
      spi_cfg_status = 0, spi_selftest_status = 0,
      codec = \<lparr>reg_addr = \<lambda>r. 0x4000, reg_size = \<lambda>z. 1, reg_default = \<lambda>t. [0]\<rparr>,
      i2c_busy = replicate 31 False\<rparr>"

lemma bench_platform_ready:
  "card_ready bench_platform" "codec_ready bench_platform" "spi_ready bench_platform"
  by (simp_all add: bench_platform_def card_ready_iff spi_ready_def codec_ready_def
        XST_SUCCESS_def init_calls_def fits_def MAX_BRUST_LEN_def count_list_replicate)

text \<open>How far a start-up on the platform \<open>p\<close> gets.\<close>

definition boot_end :: "platform \<Rightarrow> outcome" where
  "boot_end p =
     (if \<not> card_ready p then Exit 0
      else if \<not> codec_ready p then Stuck
      else if \<not> spi_ready p then Exit XST_FAILURE
      else Loop init_host)"

lemma main_boot_Inr:
  assumes "main_boot p = Inr b"
  shows "outcome b = boot_end p"
    and "i2c_after b =
         (if card_ready p \<and> codec_ready p then map (frame (codec p)) init_calls else [])"
    and "link_after b = (if boot_end p = Loop init_host then image (buffers_after b) else [])"
    and "buffers_ok (buffers_after b)"
proof -
  consider "\<not> card_ready p" | "card_ready p" "\<not> codec_ready p"
    | "card_ready p" "codec_ready p" "\<not> spi_ready p"
    | "card_ready p" "codec_ready p" "spi_ready p"
    by blast
  then have "outcome b = boot_end p \<and>
    i2c_after b =
      (if card_ready p \<and> codec_ready p then map (frame (codec p)) init_calls else []) \<and>
    link_after b = (if boot_end p = Loop init_host then image (buffers_after b) else []) \<and>
    buffers_ok (buffers_after b)"
  proof cases
    case 1
    with assms main_boot_no_card [of p] show ?thesis
      by (auto simp: boot_end_def at_reset_def buffers_ok_init)
  next
    case 2
    with assms main_boot_no_codec [of p] show ?thesis
      by (auto simp: boot_end_def at_reset_def buffers_ok_init)
  next
    case 3
    with assms main_boot_no_spi [of p] show ?thesis
      by (auto simp: boot_end_def configured_def at_reset_def XST_FAILURE_def
            buffers_ok_payloads buffers_ok_init)
  next
    case 4
    with assms main_boot_loop [of p] show ?thesis
      by (auto simp: boot_end_def configured_def at_reset_def
            buffers_ok_payloads buffers_ok_init)
  qed
  then show "outcome b = boot_end p"
    and "i2c_after b =
         (if card_ready p \<and> codec_ready p then map (frame (codec p)) init_calls else [])"
    and "link_after b = (if boot_end p = Loop init_host then image (buffers_after b) else [])"
    and "buffers_ok (buffers_after b)"
    by simp_all
qed

lemma main_boot_Inl:
  assumes "main_boot p = Inl e"
  shows "card_ready p" and "\<not> list_all (fits (codec p)) init_calls"
proof -
  from assms main_boot_no_card [of p] show c: "card_ready p" by auto
  from assms main_boot_no_spi [of p] main_boot_loop [of p] c have n: "\<not> codec_ready p"
    by (cases "spi_ready p") auto
  from main_boot_no_codec [OF c n] assms
  show "\<not> list_all (fits (codec p)) init_calls" by auto
qed

text \<open>
  C36. How a start-up ends. It leaves an array only when the card mounts and
  a table of the codec header does not fit its call. Otherwise it ends with
  exit value 0 when the card cannot be mounted, it waits for ever when the I2C
  bus does not read idle 31 times, it ends with \<open>XST_FAILURE\<close> when the SPI
  driver fails, and else it is in the loop, with the host state the loop
  starts from. The codec has received its 31 frames when the card and the
  codec are ready, and nothing otherwise; the accelerator has received the
  complete image when the loop is reached, and nothing otherwise. The
  branches of \<open>main\<close> for a failure of \<open>setup_interrupt_system\<close> or
  \<open>initial_TMA\<close> are never taken.
\<close>

theorem boot_outcome:
  "case main_boot p of
     Inl e \<Rightarrow> card_ready p \<and> \<not> list_all (fits (codec p)) init_calls
   | Inr b \<Rightarrow>
       outcome b = boot_end p \<and>
       i2c_after b =
         (if card_ready p \<and> codec_ready p then map (frame (codec p)) init_calls else []) \<and>
       link_after b = (if boot_end p = Loop init_host then image (buffers_after b) else [])"
  by (cases "main_boot p") (simp_all add: main_boot_Inl main_boot_Inr)

theorem boot_outcome_witness:
  "\<exists>b. main_boot bench_platform = Inr b \<and> outcome b = Loop init_host \<and>
        length (i2c_after b) = 31 \<and> link_after b = image (buffers_after b)"
proof -
  from main_boot_loop [OF bench_platform_ready] obtain b where
    b: "main_boot bench_platform = Inr b" by blast
  with boot_outcome [of bench_platform] show ?thesis
    by (simp add: bench_platform_ready boot_end_def length_init_calls)
qed

lemma boot_end_Loop:
  "boot_end p = Loop h \<longleftrightarrow> card_ready p \<and> codec_ready p \<and> spi_ready p \<and> h = init_host"
  by (auto simp: boot_end_def)

text \<open>
  C37. Nothing reaches the accelerator before everything is ready. If the
  start-up has sent anything over SPI, then the card was mounted, the codec
  has received its 31 frames before, and the SPI driver initialised; what
  was sent is the complete image of buffers of the declared sizes, its last
  burst is the data word of the inference-enable token, and the program is in
  its loop.
\<close>

theorem nothing_sent_before_ready:
  assumes "main_boot p = Inr b" and "link_after b \<noteq> []"
  shows "card_ready p \<and> codec_ready p \<and> spi_ready p \<and> outcome b = Loop init_host \<and>
         i2c_after b = map (frame (codec p)) init_calls \<and>
         link_after b = image (buffers_after b) \<and> buffers_ok (buffers_after b) \<and>
         last (link_after b) = be_bytes (token_word CONF_SPI_EN_INF_DATA)"
proof -
  note b = main_boot_Inr [OF assms(1)]
  from b(3) assms(2) have l: "boot_end p = Loop init_host" by (auto split: if_splits)
  then have "card_ready p \<and> codec_ready p \<and> spi_ready p" by (simp add: boot_end_Loop)
  with b l show ?thesis by (simp add: image_def)
qed

theorem nothing_sent_before_ready_witness:
  "\<exists>b. main_boot bench_platform = Inr b \<and> link_after b \<noteq> [] \<and>
        outcome b = Loop init_host \<and> last (link_after b) = [0, 0, 0, 1]"
proof -
  from main_boot_loop [OF bench_platform_ready] obtain b where
    b: "main_boot bench_platform = Inr b" "link_after b \<noteq> []"
    by (auto simp: image_def)
  from nothing_sent_before_ready [OF b] b show ?thesis
    by (auto simp: token_words be_bytes_unfold drop_bit_eq_div)
qed

text \<open>
  C38. From power-up to any later moment: if the start-up reaches the loop,
  then after any sequence of interrupts and loop statements that does not
  fault the flag and the loop position are consistent, the aggregator is in a
  state its notifications reach from the initial one, and its twelve counts
  add up to the window size.
\<close>

theorem system_invariant:
  assumes "main_boot p = Inr b" and "outcome b = Loop h"
    and "run_actions as h = Inr (h', out)"
  shows "host_inv h' \<and> reachable (agg h') \<and>
         (\<Sum>c\<leftarrow>result_count (agg h'). unat c) = WINDOW_SIZE"
proof -
  from main_boot_Inr(1) [OF assms(1)] assms(2) have "boot_end p = Loop h" by simp
  then have h: "h = init_host" by (simp add: boot_end_Loop)
  then have "reachable (agg h)" by (simp add: init_host_def reachable.init)
  from run_actions_reachable [OF this assms(3)] have r: "reachable (agg h')" .
  from run_actions_inv [OF _ assms(3)] h have "host_inv h'"
    by (simp add: host_inv_init)
  with r show ?thesis
    by (simp add: agg_inv_counts_sum reachable_agg_inv)
qed

theorem system_invariant_witness:
  "\<exists>b h'. main_boot bench_platform = Inr b \<and> outcome b = Loop init_host \<and>
     run_actions [Irq 1, Main 0 0 0 0, Main 0 0 0 0, Main 1 1 0 0] init_host = Inr (h', []) \<and>
     host_inv h' \<and> (\<Sum>c\<leftarrow>result_count (agg h'). unat c) = WINDOW_SIZE"
proof -
  from main_boot_loop [OF bench_platform_ready] obtain b where
    b: "main_boot bench_platform = Inr b" "outcome b = Loop init_host"
    by auto
  have g: "get_result 1 1 0 0 = 3" by (simp add: get_result_def)
  obtain s' where s': "process_result 3 init_aggregator = Inr (s', [])"
    using quiet_step [OF quiet_init, of 3] by (auto simp: SILENCE_def)
  with g have r: "run_actions [Irq 1, Main 0 0 0 0, Main 0 0 0 0, Main 1 1 0 0] init_host =
      Inr (init_host\<lparr>inference_finish_flag := 0, irq_enabled := True, agg := s', pc := at_test\<rparr>, [])"
    by (simp add: init_host_def intr_handler_def main_step_def)
  from system_invariant [OF b r] b r show ?thesis by blast
qed

end
